(* ===== verification/Prelude.thy ===== *)
theory Prelude
  imports Complex_Main "HOL-Library.Word" "HOL-Library.AList"
begin

text \<open>
  Shared vocabulary of the development: the collections the component proofs draw on, the
  error-or-value type of fallible operations, and the facts on machine words, prefixes of
  words and option-valued lookups that several components use.  Nothing here models code of the
  repository.
\<close>

unbundle bit_operations_syntax

named_theorems net_simps \<open>facts that turn prefix arithmetic into interval arithmetic\<close>
named_theorems frame_simps \<open>fields that an operation leaves alone\<close>

section \<open>Fallible operations\<close>

text \<open>
  A Python function that may raise is a function into \<^typ>\<open>'e + 'a\<close>: \<^term>\<open>Inl\<close> is the
  raised exception and \<^term>\<open>Inr\<close> the returned value.
\<close>

fun bind_sum :: "'e + 'a \<Rightarrow> ('a \<Rightarrow> 'e + 'b) \<Rightarrow> 'e + 'b" where
  "bind_sum (Inl e) f = Inl e"
| "bind_sum (Inr a) f = f a"

lemma bind_sum_Inr_iff:
  "bind_sum r f = Inr b \<longleftrightarrow> (\<exists>a. r = Inr a \<and> f a = Inr b)"
  by (cases r) auto

lemma bind_sum_Inl_iff:
  "bind_sum r f = Inl e \<longleftrightarrow> r = Inl e \<or> (\<exists>a. r = Inr a \<and> f a = Inl e)"
  by (cases r) auto

text \<open>A loop that stops at the first exception and collects the values before it.\<close>

fun map_sum_list :: "('a \<Rightarrow> 'e + 'b) \<Rightarrow> 'a list \<Rightarrow> 'e + 'b list" where
  "map_sum_list f [] = Inr []"
| "map_sum_list f (x # xs) =
     (case f x of Inl e \<Rightarrow> Inl e
      | Inr y \<Rightarrow> (case map_sum_list f xs of Inl e \<Rightarrow> Inl e | Inr ys \<Rightarrow> Inr (y # ys)))"

lemma map_sum_list_Inr_iff:
  "map_sum_list f xs = Inr ys \<longleftrightarrow> list_all2 (\<lambda>x y. f x = Inr y) xs ys"
proof (induction xs arbitrary: ys)
  case Nil
  then show ?case by auto
next
  case (Cons x xs)
  show ?case
    by (cases "map_sum_list f xs"; cases "f x") (auto simp: list_all2_Cons1 simp flip: Cons.IH)
qed

lemma map_sum_list_Inl:
  "map_sum_list f xs = Inl e \<Longrightarrow> \<exists>x \<in> set xs. f x = Inl e"
  by (induction xs) (auto split: sum.splits)

lemma map_sum_list_length: "map_sum_list f xs = Inr ys \<Longrightarrow> length ys = length xs"
  by (auto simp: map_sum_list_Inr_iff dest: list_all2_lengthD)

lemma map_sum_list_in:
  "map_sum_list f xs = Inr ys \<Longrightarrow> y \<in> set ys \<Longrightarrow> \<exists>x \<in> set xs. f x = Inr y"
  by (induction xs arbitrary: ys) (auto split: sum.splits)

section \<open>Dictionaries\<close>

text \<open>
  A Python dictionary is an association list in insertion order: assigning to a present key keeps
  its place, to an absent one appends it.
\<close>

definition dict_get :: "('k \<times> 'v) list \<Rightarrow> 'k \<Rightarrow> 'v \<Rightarrow> 'v" where
  "dict_get d k v = (case map_of d k of None \<Rightarrow> v | Some x \<Rightarrow> x)"

abbreviation dict_set :: "('k \<times> 'v) list \<Rightarrow> 'k \<Rightarrow> 'v \<Rightarrow> ('k \<times> 'v) list" where
  "dict_set d k v \<equiv> AList.update k v d"

abbreviation dict_pop :: "('k \<times> 'v) list \<Rightarrow> 'k \<Rightarrow> ('k \<times> 'v) list" where
  "dict_pop d k \<equiv> AList.delete k d"

abbreviation dict_has :: "('k \<times> 'v) list \<Rightarrow> 'k \<Rightarrow> bool" where
  "dict_has d k \<equiv> k \<in> fst ` set d"

text \<open>\<open>{**d, **e}\<close>.\<close>

definition dict_update :: "('k \<times> 'v) list \<Rightarrow> ('k \<times> 'v) list \<Rightarrow> ('k \<times> 'v) list" where
  "dict_update d e = fold (\<lambda>(k, v) m. dict_set m k v) e d"

lemma dict_get_set [simp]: "dict_get (dict_set d k v) k' w = (if k' = k then v else dict_get d k' w)"
  by (simp add: dict_get_def update_conv')

lemma dict_get_pop [simp]: "dict_get (dict_pop d k) k' w = (if k' = k then w else dict_get d k' w)"
  by (simp add: dict_get_def delete_conv')

lemma dict_get_Nil [simp]: "dict_get [] k v = v"
  by (simp add: dict_get_def)

lemma dict_get_absent: "\<not> dict_has d k \<Longrightarrow> dict_get d k v = v"
  by (force simp: dict_get_def split: option.splits dest!: map_of_SomeD)

lemma dict_has_iff: "dict_has d k \<longleftrightarrow> map_of d k \<noteq> None"
  by (simp add: map_of_eq_None_iff)

section \<open>Counting the elements of a list\<close>

definition how_many :: "('a \<Rightarrow> bool) \<Rightarrow> 'a list \<Rightarrow> int" where
  "how_many P xs = int (length (filter P xs))"

lemma how_many_nonneg [simp]: "0 \<le> how_many P xs"
  by (simp add: how_many_def)

lemma how_many_le_length: "how_many P xs \<le> int (length xs)"
  by (simp add: how_many_def)

lemma how_many_update:
  assumes "i < length xs"
  shows "how_many P (xs[i := y]) = how_many P xs - of_bool (P (xs ! i)) + of_bool (P y)"
proof -
  have xs: "xs = take i xs @ xs ! i # drop (Suc i) xs"
    using assms by (rule id_take_nth_drop)
  have "xs[i := y] = take i xs @ y # drop (Suc i) xs"
    using assms by (rule upd_conv_take_nth_drop)
  then have "how_many P (xs[i := y]) + of_bool (P (xs ! i))
      = how_many P (take i xs @ xs ! i # drop (Suc i) xs) + of_bool (P y)"
    by (simp add: how_many_def)
  then show ?thesis using xs by simp
qed

lemma how_many_less:
  assumes "i < length xs" and "\<not> P (xs ! i)"
  shows "how_many P xs < int (length xs)"
proof -
  have "length (filter P xs) < length xs"
    using assms by (intro length_filter_less [of "xs ! i"]) auto
  then show ?thesis by (simp add: how_many_def)
qed

lemma how_many_pos: "i < length xs \<Longrightarrow> P (xs ! i) \<Longrightarrow> 0 < how_many P xs"
  unfolding how_many_def by (auto simp: filter_empty_conv intro: nth_mem)

lemma how_many_mono: "(\<And>x. P x \<Longrightarrow> Q x) \<Longrightarrow> how_many P xs \<le> how_many Q xs"
  unfolding how_many_def by (induction xs) auto

lemma how_many_replicate [simp]: "how_many P (replicate n x) = (if P x then int n else 0)"
  by (simp add: how_many_def)

section \<open>Prefixes of words\<close>

text \<open>
  An address and the network it belongs to agree on their leading bits.  The three operations
  are the ones of the standard library's address arithmetic: the all-ones word, the netmask of a
  prefix length and its complement.
\<close>

definition all_ones :: "'w::len word" where
  "all_ones = 2 ^ LENGTH('w) - 1"

definition netmask :: "nat \<Rightarrow> 'w::len word" where
  "netmask p = all_ones XOR drop_bit p all_ones"

definition hostmask :: "nat \<Rightarrow> 'w::len word" where
  "hostmask p = netmask p XOR all_ones"

lemma all_ones_eq: "(all_ones :: 'w::len word) = - 1"
  by (simp add: all_ones_def)

lemma hostmask_eq: "(hostmask p :: 'w::len word) = mask (LENGTH('w) - p)"
  by (rule bit_word_eqI) (auto simp: hostmask_def netmask_def all_ones_eq bit_simps)

lemma netmask_eq: "(netmask p :: 'w::len word) = NOT (mask (LENGTH('w) - p))"
  by (rule bit_word_eqI) (auto simp: netmask_def all_ones_eq bit_simps)

lemma and_netmask_eq:
  "(a :: 'w::len word) AND netmask p = push_bit (LENGTH('w) - p) (drop_bit (LENGTH('w) - p) a)"
  by (rule bit_word_eqI) (auto simp: netmask_eq bit_simps)

text \<open>Read as a number, masking rounds down to a multiple of the block size.\<close>

lemma unat_and_netmask:
  "unat ((a :: 'w::len word) AND netmask p)
     = unat a div 2 ^ (LENGTH('w) - p) * 2 ^ (LENGTH('w) - p)"
proof -
  let ?k = "LENGTH('w) - p"
  have le: "unat a div 2 ^ ?k * 2 ^ ?k \<le> unat a" by simp
  have "unat (a AND netmask p) = take_bit LENGTH('w) (push_bit ?k (drop_bit ?k (unat a)))"
    by (simp add: and_netmask_eq unsigned_push_bit_eq unat_drop_bit_eq)
  also have "\<dots> = unat a div 2 ^ ?k * 2 ^ ?k mod 2 ^ LENGTH('w)"
    by (simp add: take_bit_eq_mod push_bit_eq_mult drop_bit_eq_div)
  also have "\<dots> = unat a div 2 ^ ?k * 2 ^ ?k"
    using le unsigned_less [where w = a and 'a = nat] by (intro mod_less) linarith
  finally show ?thesis .
qed

definition aligned :: "'w::len word \<Rightarrow> nat \<Rightarrow> bool" where
  "aligned n p \<longleftrightarrow> n AND netmask p = n"

lemma aligned_and_netmask [simp]: "aligned (a AND netmask p) p"
  by (simp add: aligned_def and.assoc)

lemma aligned_iff_dvd:
  "aligned (n :: 'w::len word) p \<longleftrightarrow> 2 ^ (LENGTH('w) - p) dvd unat n"
proof -
  have "aligned n p \<longleftrightarrow> unat n div 2 ^ (LENGTH('w) - p) * 2 ^ (LENGTH('w) - p) = unat n"
    by (metis aligned_def unat_and_netmask word_unat_eq_iff)
  then show ?thesis by (metis dvd_div_mult_self dvd_triv_right)
qed

lemma block_interval:
  assumes "0 < B"
  shows "a div B * B = B * q \<longleftrightarrow> B * q \<le> a \<and> a \<le> B * q + (B - 1 :: nat)"
proof
  assume "a div B * B = B * q"
  with assms have "a div B = q" by simp
  then show "B * q \<le> a \<and> a \<le> B * q + (B - 1)"
    using mod_less_divisor [OF assms, of a] mult_div_mod_eq [of B a] by auto
next
  assume "B * q \<le> a \<and> a \<le> B * q + (B - 1)"
  with assms have "a div B = q"
    by (intro div_nat_eqI) (auto simp: mult.commute)
  then show "a div B * B = B * q" by simp
qed

lemma unat_mask_prefix: "unat (mask (LENGTH('w) - p) :: 'w::len word) = mask (LENGTH('w) - p)"
  by (rule bit_eqI) (auto simp: bit_simps)

text \<open>The last word of the block: the network address with every host bit set.\<close>

definition last_word :: "'w::len word \<Rightarrow> nat \<Rightarrow> 'w word" where
  "last_word n p = n OR hostmask p"

lemma unat_last_word:
  assumes "aligned (n :: 'w::len word) p"
  shows "unat (last_word n p) = unat n + (2 ^ (LENGTH('w) - p) - 1)"
proof -
  let ?k = "LENGTH('w) - p"
  from assms have disj: "n AND mask ?k = 0"
    by (metis aligned_def netmask_eq and.assoc bit.conj_cancel_left bit.conj_zero_right)
  then have "unat n AND mask ?k = 0"
    by (metis disj unsigned_and_eq unsigned_0 unat_mask_prefix)
  then have "unat n OR mask ?k = unat n + mask ?k"
    by (simp add: disjunctive_add_eq_or)
  moreover have "unat (last_word n p) = unat n OR mask ?k"
    by (simp only: last_word_def hostmask_eq unsigned_or_eq unat_mask_prefix)
  ultimately show ?thesis
    by (simp add: mask_eq_exp_minus_1)
qed

text \<open>
  The main fact about prefixes: for an aligned base, matching the prefix is lying between the
  base and the last word of its block.
\<close>

lemma prefix_match_interval [net_simps]:
  assumes "aligned (n :: 'w::len word) p"
  shows "a AND netmask p = n \<longleftrightarrow> n \<le> a \<and> a \<le> last_word n p"
proof -
  let ?B = "2 ^ (LENGTH('w) - p) :: nat"
  from assms obtain q where q: "unat n = ?B * q"
    by (auto simp: aligned_iff_dvd elim: dvdE)
  have "a AND netmask p = n \<longleftrightarrow> unat a div ?B * ?B = unat n"
    by (metis unat_and_netmask word_unat_eq_iff)
  also have "\<dots> \<longleftrightarrow> unat n \<le> unat a \<and> unat a \<le> unat n + (?B - 1)"
    unfolding q by (rule block_interval) simp
  also have "\<dots> \<longleftrightarrow> n \<le> a \<and> a \<le> last_word n p"
    using assms by (simp add: word_le_nat_alt unat_last_word)
  finally show ?thesis .
qed

lemma base_le_last [simp]: "aligned n p \<Longrightarrow> n \<le> last_word n p"
  by (metis order_refl prefix_match_interval aligned_def)

lemma last_word_match: "aligned n p \<Longrightarrow> last_word n p AND netmask p = n"
  by (simp add: prefix_match_interval)

text \<open>Two aligned blocks that meet are nested: the shorter prefix holds the longer.\<close>

lemma blocks_nested:
  assumes "x AND netmask p = n" and "x AND netmask q = m" and "p \<le> q"
    and "y AND netmask q = m"
  shows "y AND netmask p = n"
proof -
  have drop: "netmask p AND netmask q = (netmask p :: 'a word)"
    using \<open>p \<le> q\<close> by (auto intro!: bit_word_eqI simp: netmask_eq bit_simps)
  have "y AND netmask p = (y AND netmask q) AND netmask p"
    by (metis drop and.assoc and.commute)
  also have "\<dots> = (x AND netmask q) AND netmask p" by (simp only: assms(2,4))
  also have "\<dots> = n" using assms(1) drop by (metis and.assoc and.commute)
  finally show ?thesis .
qed

end
