(* ===== verification/Py_Str.thy ===== *)
theory Py_Str
  imports Prelude
begin

text \<open>
  The operations of Python's \<open>str\<close> that the sources use, on \<^typ>\<open>string\<close>.  A character is a
  code point below 256, so the model covers the Latin-1 subset of Python's strings; on that
  subset each operation is the standard library's: \<open>strip\<close> drops the whitespace Python drops,
  \<open>isdigit\<close> together with \<open>isascii\<close> is the ASCII digits, \<open>lower\<close> maps the upper-case letters of
  Latin-1, \<open>repr\<close> picks its quote and escapes as CPython does.
\<close>

type_synonym py_str = string

abbreviation code :: "char \<Rightarrow> nat" where
  "code c \<equiv> of_char c"

section \<open>Whitespace, splitting and joining\<close>

definition is_space :: "char \<Rightarrow> bool" where
  "is_space c \<longleftrightarrow> (9 \<le> code c \<and> code c \<le> 13) \<or> (28 \<le> code c \<and> code c \<le> 32)
     \<or> code c = 133 \<or> code c = 160"

definition py_lstrip :: "py_str \<Rightarrow> py_str" where
  "py_lstrip s = dropWhile is_space s"

definition py_strip :: "py_str \<Rightarrow> py_str" where
  "py_strip s = rev (py_lstrip (rev (py_lstrip s)))"

fun split_on :: "char \<Rightarrow> py_str \<Rightarrow> py_str list" where
  "split_on c [] = [[]]"
| "split_on c (x # xs) =
     (if x = c then [] # split_on c xs
      else (case split_on c xs of [] \<Rightarrow> [[x]] | p # ps \<Rightarrow> (x # p) # ps))"

fun join :: "py_str \<Rightarrow> py_str list \<Rightarrow> py_str" where
  "join sep [] = []"
| "join sep [x] = x"
| "join sep (x # y # ys) = x @ sep @ join sep (y # ys)"

text \<open>\<open>s.partition(c)\<close>: the text before the first \<open>c\<close>, whether there was one, the text after.\<close>

fun partition_on :: "char \<Rightarrow> py_str \<Rightarrow> py_str \<times> bool \<times> py_str" where
  "partition_on c [] = ([], False, [])"
| "partition_on c (x # xs) =
     (if x = c then ([], True, xs)
      else (case partition_on c xs of (a, f, b) \<Rightarrow> (x # a, f, b)))"

lemma split_on_not_Nil [simp]: "split_on c s \<noteq> []"
  by (induction s) (auto split: list.splits)

lemma split_on_no_sep: "c \<notin> set s \<Longrightarrow> split_on c s = [s]"
  by (induction s) auto

lemma split_on_append:
  "c \<notin> set x \<Longrightarrow> split_on c (x @ c # s) = x # split_on c s"
  by (induction x) auto

lemma split_on_join:
  "xs \<noteq> [] \<Longrightarrow> \<forall>x \<in> set xs. c \<notin> set x \<Longrightarrow> split_on c (join [c] xs) = xs"
  by (induction "[c]" xs rule: join.induct) (auto simp: split_on_no_sep split_on_append)

lemma partition_on_sep: "c \<notin> set a \<Longrightarrow> partition_on c (a @ c # b) = (a, True, b)"
  by (induction a) auto

lemma partition_on_none: "c \<notin> set s \<Longrightarrow> partition_on c s = (s, False, [])"
  by (induction s) auto

lemma py_lstrip_hd: "py_lstrip s = c # cs \<Longrightarrow> \<not> is_space c"
  by (simp add: py_lstrip_def dropWhile_eq_Cons_conv)

lemma py_strip_no_space: "\<forall>c \<in> set s. \<not> is_space c \<Longrightarrow> py_strip s = s"
proof -
  assume a: "\<forall>c \<in> set s. \<not> is_space c"
  have keep: "py_lstrip t = t" if "set t \<subseteq> set s" for t
    using that a by (cases t) (auto simp: py_lstrip_def)
  show ?thesis by (simp add: py_strip_def keep)
qed

lemma set_join: "set (join sep xs) \<subseteq> set sep \<union> \<Union> (set ` set xs)"
  by (induction sep xs rule: join.induct) auto

section \<open>Numbers and text\<close>

definition digit_char :: "nat \<Rightarrow> char" where
  "digit_char n = char_of (48 + n)"

definition is_digit :: "char \<Rightarrow> bool" where
  "is_digit c \<longleftrightarrow> 48 \<le> code c \<and> code c \<le> 57"

definition digit_value :: "char \<Rightarrow> nat" where
  "digit_value c = code c - 48"

fun str_of_nat :: "nat \<Rightarrow> py_str" where
  "str_of_nat n =
     (if n < 10 then [digit_char n] else str_of_nat (n div 10) @ [digit_char (n mod 10)])"

declare str_of_nat.simps [simp del]

definition str_of_int :: "int \<Rightarrow> py_str" where
  "str_of_int i = (if i < 0 then ''-'' @ str_of_nat (nat (- i)) else str_of_nat (nat i))"

definition nat_of_digits :: "py_str \<Rightarrow> nat" where
  "nat_of_digits s = foldl (\<lambda>n c. n * 10 + digit_value c) 0 s"

lemma code_digit_char: "n < 10 \<Longrightarrow> code (digit_char n) = 48 + n"
  by (simp add: digit_char_def)

lemma digit_char_simps [simp]:
  "n < 10 \<Longrightarrow> is_digit (digit_char n)" "n < 10 \<Longrightarrow> digit_value (digit_char n) = n"
  by (simp_all add: is_digit_def digit_value_def code_digit_char)

lemma is_digit_not_space: "is_digit c \<Longrightarrow> \<not> is_space c"
  by (auto simp: is_digit_def is_space_def)

lemma str_of_nat_digits: "c \<in> set (str_of_nat n) \<Longrightarrow> is_digit c"
proof (induction n rule: str_of_nat.induct)
  case (1 n)
  show ?case
  proof (cases "n < 10")
    case True
    then show ?thesis using "1.prems" by (simp add: str_of_nat.simps [of n])
  next
    case False
    then show ?thesis using 1 by (auto simp: str_of_nat.simps [of n])
  qed
qed

lemma str_of_nat_not_Nil [simp]: "str_of_nat n \<noteq> []"
  by (subst str_of_nat.simps) simp

lemma nat_of_digits_str_of_nat [simp]: "nat_of_digits (str_of_nat n) = n"
proof (induction n rule: str_of_nat.induct)
  case (1 n)
  show ?case
  proof (cases "n < 10")
    case True
    then show ?thesis by (simp add: str_of_nat.simps [of n] nat_of_digits_def)
  next
    case False
    then show ?thesis using 1 by (simp add: str_of_nat.simps [of n] nat_of_digits_def)
  qed
qed

lemma str_of_nat_inject [simp]: "str_of_nat a = str_of_nat b \<longleftrightarrow> a = b"
  by (metis nat_of_digits_str_of_nat)

lemma str_of_nat_no_leading_zero: "str_of_nat n = digit_char 0 # s \<Longrightarrow> n = 0"
proof (induction n arbitrary: s rule: str_of_nat.induct)
  case (1 n)
  show ?case
  proof (cases "n < 10")
    case True
    with "1.prems" have "digit_char n = digit_char 0" by (simp add: str_of_nat.simps [of n])
    then have "code (digit_char n) = code (digit_char 0)" by simp
    with True show ?thesis by (simp add: code_digit_char)
  next
    case False
    with "1.prems" obtain t where "str_of_nat (n div 10) = digit_char 0 # t"
      by (cases "str_of_nat (n div 10)") (auto simp: str_of_nat.simps [of n])
    with 1 False have "n div 10 = 0" by blast
    with False show ?thesis by simp
  qed
qed

lemma length_str_of_nat_le3: "n < 1000 \<Longrightarrow> length (str_of_nat n) \<le> 3"
  by (simp add: str_of_nat.simps [of n] str_of_nat.simps [of "n div 10"]
      str_of_nat.simps [of "n div 10 div 10"])

lemma list_all_digits: "list_all is_digit (str_of_nat n)"
  by (auto simp: list_all_iff dest: str_of_nat_digits)

lemma digit_char_0: "digit_char 0 = CHR ''0''"
  by (simp add: digit_char_def char_of_eq_iff)

lemma str_of_nat_0: "str_of_nat 0 = ''0''"
  by (simp add: str_of_nat.simps [of 0] digit_char_0)

lemma str_of_nat_no_char: "\<not> is_digit c \<Longrightarrow> c \<notin> set (str_of_nat n)"
  by (auto dest: str_of_nat_digits)

text \<open>Hexadecimal digits, for \<open>%x\<close> and \<open>int(s, 16)\<close>.\<close>

definition hex_char :: "nat \<Rightarrow> char" where
  "hex_char n = (if n < 10 then char_of (48 + n) else char_of (87 + n))"

fun hex_of_nat :: "nat \<Rightarrow> py_str" where
  "hex_of_nat n =
     (if n < 16 then [hex_char n] else hex_of_nat (n div 16) @ [hex_char (n mod 16)])"

declare hex_of_nat.simps [simp del]

definition is_hex_digit :: "char \<Rightarrow> bool" where
  "is_hex_digit c \<longleftrightarrow> is_digit c \<or> (65 \<le> code c \<and> code c \<le> 70) \<or> (97 \<le> code c \<and> code c \<le> 102)"

definition hex_value :: "char \<Rightarrow> nat" where
  "hex_value c =
     (if is_digit c then code c - 48 else if code c \<le> 70 then code c - 55 else code c - 87)"

definition nat_of_hex :: "py_str \<Rightarrow> nat" where
  "nat_of_hex s = foldl (\<lambda>n c. n * 16 + hex_value c) 0 s"

section \<open>Case, quoting, and reading an integer\<close>

definition py_lower_char :: "char \<Rightarrow> char" where
  "py_lower_char c =
     (if (65 \<le> code c \<and> code c \<le> 90) \<or> (192 \<le> code c \<and> code c \<le> 222 \<and> code c \<noteq> 215)
      then char_of (code c + 32) else c)"

definition py_lower :: "py_str \<Rightarrow> py_str" where
  "py_lower s = map py_lower_char s"

definition repr_char :: "char \<Rightarrow> char \<Rightarrow> py_str" where
  "repr_char q c =
     (if c = q \<or> c = CHR 0x5C then [CHR 0x5C, c]
      else if c = CHR 0x09 then [CHR 0x5C, CHR ''t'']
      else if c = CHR 0x0A then [CHR 0x5C, CHR ''n'']
      else if c = CHR 0x0D then [CHR 0x5C, CHR ''r'']
      else if code c < 32 \<or> (127 \<le> code c \<and> code c \<le> 160) \<or> code c = 173
        then [CHR 0x5C, CHR ''x'', hex_char (code c div 16), hex_char (code c mod 16)]
      else [c])"

definition py_repr :: "py_str \<Rightarrow> py_str" where
  "py_repr s =
     (let q = (if CHR 0x27 \<in> set s \<and> CHR 0x22 \<notin> set s then CHR 0x22 else CHR 0x27)
      in [q] @ concat (map (repr_char q) s) @ [q])"

text \<open>
  \<open>int(s)\<close> on a string: surrounding whitespace, an optional sign, decimal digits with single
  underscores between them, and at most 4300 digits; everything else raises \<open>ValueError\<close>.
\<close>

fun digits_ok :: "py_str \<Rightarrow> bool" where
  "digits_ok [] = False"
| "digits_ok [c] = is_digit c"
| "digits_ok (c # d # s) =
     (is_digit c \<and> (if d = CHR ''_'' then digits_ok s else digits_ok (d # s)))"

definition py_int_of_str :: "py_str \<Rightarrow> int option" where
  "py_int_of_str s =
     (let t = py_strip s;
          neg = (case t of [] \<Rightarrow> False | c # _ \<Rightarrow> c = CHR ''-'');
          body = (case t of [] \<Rightarrow> [] | c # r \<Rightarrow> if c = CHR ''-'' \<or> c = CHR ''+'' then r else t);
          ds = filter (\<lambda>c. c \<noteq> CHR ''_'') body
      in if digits_ok body \<and> length ds \<le> 4300
         then Some (if neg then - int (nat_of_digits ds) else int (nat_of_digits ds))
         else None)"

lemma digits_ok_all: "s \<noteq> [] \<Longrightarrow> \<forall>c \<in> set s. is_digit c \<Longrightarrow> digits_ok s"
proof (induction s rule: digits_ok.induct)
  case (3 c d s)
  then have "d \<noteq> CHR ''_''" by (auto simp: is_digit_def)
  with 3 show ?case by simp
qed auto

end
