(* ===== verification/Domain.thy ===== *)
theory Domain
  imports Py_Str
begin

text \<open>
  \<open>backend/app/models/domain.py\<close> and \<open>backend/app/models/errors.py\<close>: the states and categories
  the system agrees on, each with the text it is stored as, and the typed error taxonomy with
  its codes, HTTP statuses and payloads.
\<close>

section \<open>Values of JSON columns and options\<close>

datatype json = JNull | JBool bool | JInt int | JFloat rat | JInfinity bool | JNaN
  | JStr py_str | JList "json list" | JObj "(py_str \<times> json) list"

type_synonym json_object = "(py_str \<times> json) list"

section \<open>Scan and module states\<close>

datatype scan_status = ScanQueued | ScanRunning | ScanCompleted | ScanCompletedWithWarnings
  | ScanFailed | ScanCanceled

fun scan_status_str :: "scan_status \<Rightarrow> py_str" where
  "scan_status_str ScanQueued = ''queued''"
| "scan_status_str ScanRunning = ''running''"
| "scan_status_str ScanCompleted = ''completed''"
| "scan_status_str ScanCompletedWithWarnings = ''completed_with_warnings''"
| "scan_status_str ScanFailed = ''failed''"
| "scan_status_str ScanCanceled = ''canceled''"

fun scan_terminal :: "scan_status \<Rightarrow> bool" where
  "scan_terminal s = (s \<in> {ScanCompleted, ScanCompletedWithWarnings, ScanFailed, ScanCanceled})"

datatype module_status = ModQueued | ModRunning | ModDone | ModFailed | ModSkipped
  | ModNotApplicable | ModInterrupted

fun module_status_str :: "module_status \<Rightarrow> py_str" where
  "module_status_str ModQueued = ''queued''"
| "module_status_str ModRunning = ''running''"
| "module_status_str ModDone = ''done''"
| "module_status_str ModFailed = ''failed''"
| "module_status_str ModSkipped = ''skipped''"
| "module_status_str ModNotApplicable = ''not_applicable''"
| "module_status_str ModInterrupted = ''interrupted''"

fun module_terminal :: "module_status \<Rightarrow> bool" where
  "module_terminal s = (s \<in> {ModDone, ModFailed, ModSkipped, ModNotApplicable, ModInterrupted})"

fun module_success :: "module_status \<Rightarrow> bool" where
  "module_success s = (s = ModDone)"

datatype target_type = TargetIp | TargetCidr | TargetHost

fun target_type_str :: "target_type \<Rightarrow> py_str" where
  "target_type_str TargetIp = ''ip''"
| "target_type_str TargetCidr = ''cidr''"
| "target_type_str TargetHost = ''host''"

datatype module_category = CatDiscovery | CatPortScan | CatServiceDetection | CatEnumeration
  | CatVulnerability | CatImport

fun module_category_str :: "module_category \<Rightarrow> py_str" where
  "module_category_str CatDiscovery = ''discovery''"
| "module_category_str CatPortScan = ''port_scan''"
| "module_category_str CatServiceDetection = ''service_detection''"
| "module_category_str CatEnumeration = ''enumeration''"
| "module_category_str CatVulnerability = ''vulnerability''"
| "module_category_str CatImport = ''import''"

datatype module_readiness = Ready | NeedsExternalTool | NotApplicable | Release11

fun module_readiness_str :: "module_readiness \<Rightarrow> py_str" where
  "module_readiness_str Ready = ''ready''"
| "module_readiness_str NeedsExternalTool = ''needs_external_tool''"
| "module_readiness_str NotApplicable = ''not_applicable''"
| "module_readiness_str Release11 = ''release_1_1''"

datatype finding_category = FindLiveHost | FindPortService | FindEnumeration | FindVulnerability

fun finding_category_str :: "finding_category \<Rightarrow> py_str" where
  "finding_category_str FindLiveHost = ''live_host''"
| "finding_category_str FindPortService = ''port_service''"
| "finding_category_str FindEnumeration = ''enumeration''"
| "finding_category_str FindVulnerability = ''vulnerability''"

datatype confidence = ConfLow | ConfMedium | ConfHigh

fun confidence_str :: "confidence \<Rightarrow> py_str" where
  "confidence_str ConfLow = ''low''"
| "confidence_str ConfMedium = ''medium''"
| "confidence_str ConfHigh = ''high''"

datatype scan_event_type = EvScanStatus | EvModuleStatus | EvFootprint

fun scan_event_type_str :: "scan_event_type \<Rightarrow> py_str" where
  "scan_event_type_str EvScanStatus = ''scan_status''"
| "scan_event_type_str EvModuleStatus = ''module_status''"
| "scan_event_type_str EvFootprint = ''footprint''"

text \<open>
  The stored text determines the state, so a column read back by \<open>ScanStatus(...)\<close> or compared
  with \<open>str(...)\<close> means what was written.
\<close>

lemma scan_status_str_inject [simp]: "scan_status_str a = scan_status_str b \<longleftrightarrow> a = b"
  by (cases a; cases b) simp_all

lemma module_status_str_inject [simp]: "module_status_str a = module_status_str b \<longleftrightarrow> a = b"
  by (cases a; cases b) simp_all

lemma target_type_str_inject [simp]: "target_type_str a = target_type_str b \<longleftrightarrow> a = b"
  by (cases a; cases b) simp_all

text \<open>Reading a stored status: \<open>ScanStatus(text)\<close> raises \<open>ValueError\<close> on any other text.\<close>

definition scan_statuses :: "scan_status list" where
  "scan_statuses = [ScanQueued, ScanRunning, ScanCompleted, ScanCompletedWithWarnings, ScanFailed,
     ScanCanceled]"

definition scan_status_of :: "py_str \<Rightarrow> scan_status option" where
  "scan_status_of t = find (\<lambda>s. scan_status_str s = t) scan_statuses"

lemma scan_status_of_str [simp]: "scan_status_of (scan_status_str s) = Some s"
  by (cases s) (simp_all add: scan_status_of_def scan_statuses_def)

definition target_type_of :: "py_str \<Rightarrow> target_type option" where
  "target_type_of t = find (\<lambda>k. target_type_str k = t) [TargetIp, TargetCidr, TargetHost]"

lemma target_type_of_str [simp]: "target_type_of (target_type_str k) = Some k"
  by (cases k) (simp_all add: target_type_of_def)

section \<open>The error taxonomy\<close>

datatype error_code = SCOPE_INVALID | SCOPE_NOT_FOUND | SCOPE_IN_USE | TARGET_INVALID
  | TARGET_OUT_OF_SCOPE | ATTESTATION_REQUIRED | SCAN_NOT_FOUND | SCAN_ALREADY_TERMINAL
  | MODULE_UNKNOWN | MODULE_NOT_SELECTED | WORKER_ALREADY_RUNNING | MODULE_TIMEOUT
  | MODULE_DEPENDENCY_MISSING | MODULE_FAILED | BUDGET_EXCEEDED | PROVIDER_UNAVAILABLE
  | PROVIDER_RATE_LIMITED

fun error_code_str :: "error_code \<Rightarrow> py_str" where
  "error_code_str SCOPE_INVALID = ''scope_invalid''"
| "error_code_str SCOPE_NOT_FOUND = ''scope_not_found''"
| "error_code_str SCOPE_IN_USE = ''scope_in_use''"
| "error_code_str TARGET_INVALID = ''target_invalid''"
| "error_code_str TARGET_OUT_OF_SCOPE = ''target_out_of_scope''"
| "error_code_str ATTESTATION_REQUIRED = ''attestation_required''"
| "error_code_str SCAN_NOT_FOUND = ''scan_not_found''"
| "error_code_str SCAN_ALREADY_TERMINAL = ''scan_already_terminal''"
| "error_code_str MODULE_UNKNOWN = ''module_unknown''"
| "error_code_str MODULE_NOT_SELECTED = ''module_not_selected''"
| "error_code_str WORKER_ALREADY_RUNNING = ''worker_already_running''"
| "error_code_str MODULE_TIMEOUT = ''module_timeout''"
| "error_code_str MODULE_DEPENDENCY_MISSING = ''module_dependency_missing''"
| "error_code_str MODULE_FAILED = ''module_failed''"
| "error_code_str BUDGET_EXCEEDED = ''budget_exceeded''"
| "error_code_str PROVIDER_UNAVAILABLE = ''provider_unavailable''"
| "error_code_str PROVIDER_RATE_LIMITED = ''provider_rate_limited''"

datatype error_class = AppErrorBase | ScopeInvalidError | ScopeNotFoundError | ScopeInUseError
  | TargetInvalidError | ScopeRefusedError | AttestationRequiredError | ScanNotFoundError
  | ScanAlreadyTerminalError | UnknownModuleError | WorkerAlreadyRunningError | ModuleError
  | ModuleTimeoutError | ModuleDependencyMissingError | BudgetExceededError

fun class_code :: "error_class \<Rightarrow> error_code" where
  "class_code AppErrorBase = MODULE_FAILED"
| "class_code ScopeInvalidError = SCOPE_INVALID"
| "class_code ScopeNotFoundError = SCOPE_NOT_FOUND"
| "class_code ScopeInUseError = SCOPE_IN_USE"
| "class_code TargetInvalidError = TARGET_INVALID"
| "class_code ScopeRefusedError = TARGET_OUT_OF_SCOPE"
| "class_code AttestationRequiredError = ATTESTATION_REQUIRED"
| "class_code ScanNotFoundError = SCAN_NOT_FOUND"
| "class_code ScanAlreadyTerminalError = SCAN_ALREADY_TERMINAL"
| "class_code UnknownModuleError = MODULE_UNKNOWN"
| "class_code WorkerAlreadyRunningError = WORKER_ALREADY_RUNNING"
| "class_code ModuleError = MODULE_FAILED"
| "class_code ModuleTimeoutError = MODULE_TIMEOUT"
| "class_code ModuleDependencyMissingError = MODULE_DEPENDENCY_MISSING"
| "class_code BudgetExceededError = BUDGET_EXCEEDED"

fun class_http_status :: "error_class \<Rightarrow> nat" where
  "class_http_status AppErrorBase = 500"
| "class_http_status ScopeInvalidError = 422"
| "class_http_status ScopeNotFoundError = 404"
| "class_http_status ScopeInUseError = 409"
| "class_http_status TargetInvalidError = 422"
| "class_http_status ScopeRefusedError = 422"
| "class_http_status AttestationRequiredError = 422"
| "class_http_status ScanNotFoundError = 404"
| "class_http_status ScanAlreadyTerminalError = 409"
| "class_http_status UnknownModuleError = 422"
| "class_http_status WorkerAlreadyRunningError = 409"
| "class_http_status ModuleError = 500"
| "class_http_status ModuleTimeoutError = 500"
| "class_http_status ModuleDependencyMissingError = 500"
| "class_http_status BudgetExceededError = 500"

text \<open>\<open>ModuleError\<close> and its subclasses, the errors \<open>except ModuleError\<close> catches.\<close>

fun is_module_error :: "error_class \<Rightarrow> bool" where
  "is_module_error c =
     (c \<in> {ModuleError, ModuleTimeoutError, ModuleDependencyMissingError, BudgetExceededError})"

record app_error =
  err_class :: error_class
  err_message :: py_str
  err_details :: json_object

definition app_error :: "error_class \<Rightarrow> py_str \<Rightarrow> app_error" where
  "app_error c m = \<lparr>err_class = c, err_message = m, err_details = []\<rparr>"

definition scope_refused :: "py_str \<Rightarrow> py_str \<Rightarrow> py_str \<Rightarrow> app_error" where
  "scope_refused m destination reason =
     \<lparr>err_class = ScopeRefusedError, err_message = m,
      err_details = [(''destination'', JStr destination), (''reason'', JStr reason)]\<rparr>"

definition to_payload :: "app_error \<Rightarrow> json_object" where
  "to_payload e =
     [(''code'', JStr (error_code_str (class_code (err_class e)))),
      (''message'', JStr (err_message e))]
     @ (if err_details e = [] then [] else [(''details'', JObj (err_details e))])"

end
