(* ===== verification/Pacing.thy ===== *)
theory Pacing
  imports Prelude
begin

text \<open>
  Waiting for a turn: what the token bucket of the governor and the window of the provider gateway
  share.  An attempt at a reading of the clock is granted, or refused with a time to sleep; a loop
  attempts again after the sleep.
\<close>

locale polling =
  fixes attempt :: "rat \<Rightarrow> 's \<Rightarrow> rat option \<times> 's"
    and acquire :: "rat list \<Rightarrow> 's \<Rightarrow> (nat \<times> 's) option"
    and ready :: "rat \<Rightarrow> 's \<Rightarrow> bool"
  assumes acquire_Nil: "acquire [] s = None"
    and acquire_Cons: "acquire (now # rest) s =
      (case attempt now s of
         (None, s') \<Rightarrow> Some (1, s')
       | (Some _, s') \<Rightarrow> map_option (\<lambda>(n, c). (Suc n, c)) (acquire rest s'))"
    and sleep_is_enough: "ready now s \<Longrightarrow> attempt now s = (Some d, s') \<Longrightarrow> now + d \<le> later \<Longrightarrow>
      fst (attempt later s') = None"
begin

text \<open>The sleep is long enough: the loop turns at most twice.\<close>

lemma two_turns:
  assumes "ready now s" and "\<And>d s'. attempt now s = (Some d, s') \<Longrightarrow> now + d \<le> later"
  shows "\<exists>n s'. acquire (now # later # rest) s = Some (n, s') \<and> n \<le> 2"
proof (cases "attempt now s")
  case (Pair r s1)
  show ?thesis
  proof (cases r)
    case None
    then show ?thesis by (simp add: acquire_Cons Pair)
  next
    case (Some d)
    with sleep_is_enough [OF assms(1)] assms(2) Pair obtain s2 where "attempt later s1 = (None, s2)"
      by (metis prod.collapse)
    then show ?thesis by (simp add: acquire_Cons Pair Some)
  qed
qed

text \<open>Every turn is taken at a reading of the clock, and the last one is granted.\<close>

lemma acquired:
  "acquire readings s = Some (n, s') \<Longrightarrow> 0 < n \<and> n \<le> length readings
     \<and> (\<exists>s1. attempt (readings ! (n - 1)) s1 = (None, s'))"
proof (induction readings arbitrary: s n)
  case (Cons now later)
  obtain r s1 where a: "attempt now s = (r, s1)" by (cases "attempt now s")
  show ?case
  proof (cases r)
    case None
    then show ?thesis using Cons.prems a by (auto simp: acquire_Cons)
  next
    case (Some d)
    with Cons.prems a obtain m where "acquire later s1 = Some (m, s')" "n = Suc m"
      by (auto simp: acquire_Cons)
    with Cons.IH [of s1 m] show ?thesis by (auto simp: nth_Cons split: nat.splits)
  qed
qed (simp add: acquire_Nil)

end

end
