(* ===== verification/Governor.thy ===== *)
theory Governor
  imports Domain Pacing
begin

text \<open>
  \<open>backend/app/scan/governor.py\<close>: the limits and their hard ceiling, the intensity profiles, the
  token bucket, and the governor's own operations.  Seconds and rates are rational numbers; the
  source's floats are exact on the constants of the profiles and on the doublings of the backoff.
  Each awaiting operation is split at its suspension points, so that the interleavings of
  \<open>Governor_System\<close> can be written down.
\<close>

section \<open>Limits\<close>

record governor_limits =
  global_concurrency :: int
  per_host_concurrency :: int
  connections_per_second :: rat
  connect_timeout :: rat
  per_host_budget :: int
  per_scan_budget :: int

datatype governor_config_error = NotPositive py_str | ExceedsCeiling py_str
  | UnknownProfile py_str

definition limit_fields :: "governor_limits \<Rightarrow> (py_str \<times> rat) list" where
  "limit_fields l =
     [(''global_concurrency'', of_int (global_concurrency l)),
      (''per_host_concurrency'', of_int (per_host_concurrency l)),
      (''connections_per_second'', connections_per_second l),
      (''connect_timeout'', connect_timeout l),
      (''per_host_budget'', of_int (per_host_budget l)),
      (''per_scan_budget'', of_int (per_scan_budget l))]"

fun validate_fields :: "(py_str \<times> rat) list \<Rightarrow> (py_str \<times> rat) list \<Rightarrow> governor_config_error + unit" where
  "validate_fields ((n, v) # vs) ((_, c) # cs) =
     (if v \<le> 0 then Inl (NotPositive n)
      else if v > c then Inl (ExceedsCeiling n)
      else validate_fields vs cs)"
| "validate_fields _ _ = Inr ()"

definition validate_against :: "governor_limits \<Rightarrow> governor_limits \<Rightarrow> governor_config_error + unit" where
  "validate_against l cap = validate_fields (limit_fields l) (limit_fields cap)"

definition HARD_CEILING :: governor_limits where
  "HARD_CEILING = \<lparr>global_concurrency = 200, per_host_concurrency = 20,
     connections_per_second = 50, connect_timeout = 5, per_host_budget = 500,
     per_scan_budget = 5000\<rparr>"

definition INTENSITY_PROFILES :: "(py_str \<times> governor_limits) list" where
  "INTENSITY_PROFILES =
     [(''polite'', \<lparr>global_concurrency = 20, per_host_concurrency = 4,
        connections_per_second = 5, connect_timeout = 3, per_host_budget = 200,
        per_scan_budget = 2000\<rparr>),
      (''normal'', \<lparr>global_concurrency = 60, per_host_concurrency = 10,
        connections_per_second = 15, connect_timeout = 3, per_host_budget = 300,
        per_scan_budget = 3000\<rparr>),
      (''thorough'', \<lparr>global_concurrency = 150, per_host_concurrency = 16,
        connections_per_second = 30, connect_timeout = 4, per_host_budget = 500,
        per_scan_budget = 5000\<rparr>)]"

definition within_ceiling :: "governor_limits \<Rightarrow> bool" where
  "within_ceiling l \<longleftrightarrow>
     0 < global_concurrency l \<and> global_concurrency l \<le> 200
     \<and> 0 < per_host_concurrency l \<and> per_host_concurrency l \<le> 20
     \<and> 0 < connections_per_second l \<and> connections_per_second l \<le> 50
     \<and> 0 < connect_timeout l \<and> connect_timeout l \<le> 5
     \<and> 0 < per_host_budget l \<and> per_host_budget l \<le> 500
     \<and> 0 < per_scan_budget l \<and> per_scan_budget l \<le> 5000"

lemma validate_hard_ceiling_iff: "validate_against l HARD_CEILING = Inr () \<longleftrightarrow> within_ceiling l"
  by (auto simp: validate_against_def limit_fields_def HARD_CEILING_def within_ceiling_def not_le
      not_less)

text \<open>The check the module runs at import time, over every profile.\<close>

lemma profiles_validate:
  "list_all (\<lambda>(_, l). validate_against l HARD_CEILING = Inr ()) INTENSITY_PROFILES"
  by (simp add: validate_hard_ceiling_iff within_ceiling_def INTENSITY_PROFILES_def)

section \<open>The token bucket\<close>

record token_bucket =
  rate :: rat
  tokens :: rat
  updated :: rat

definition new_bucket :: "rat \<Rightarrow> rat \<Rightarrow> token_bucket" where
  "new_bucket r now = \<lparr>rate = r, tokens = r, updated = now\<rparr>"

text \<open>
  One turn of the loop in \<open>acquire\<close>: the bucket is refilled, and either a token is taken or the
  loop sleeps for the returned time.
\<close>

definition bucket_try :: "rat \<Rightarrow> token_bucket \<Rightarrow> rat option \<times> token_bucket" where
  "bucket_try now b =
     (let t = min (rate b) (tokens b + (now - updated b) * rate b)
      in if t \<ge> 1 then (None, b\<lparr>tokens := t - 1, updated := now\<rparr>)
         else (Some ((1 - t) / rate b), b\<lparr>tokens := t, updated := now\<rparr>))"

text \<open>
  The loop itself, over the readings of the clock: the number of turns it took and the bucket
  after it, or \<open>None\<close> when the readings end before a token was there.
\<close>

fun bucket_acquire :: "rat list \<Rightarrow> token_bucket \<Rightarrow> (nat \<times> token_bucket) option" where
  "bucket_acquire [] b = None"
| "bucket_acquire (now # later) b =
     (case bucket_try now b of
        (None, b') \<Rightarrow> Some (1, b')
      | (Some _, b') \<Rightarrow> map_option (\<lambda>(n, c). (Suc n, c)) (bucket_acquire later b'))"

definition bucket_ok :: "token_bucket \<Rightarrow> bool" where
  "bucket_ok b \<longleftrightarrow> 0 < rate b \<and> 0 \<le> tokens b \<and> tokens b \<le> rate b"

lemma bucket_try_rate [simp, frame_simps]: "rate (snd (bucket_try now b)) = rate b"
  by (simp add: bucket_try_def Let_def)

lemma bucket_try_updated [simp]: "updated (snd (bucket_try now b)) = now"
  by (simp add: bucket_try_def Let_def)

lemma bucket_try_ok:
  assumes "bucket_ok b" and "updated b \<le> now"
  shows "bucket_ok (snd (bucket_try now b))"
  using assms by (auto simp: bucket_ok_def bucket_try_def Let_def min_def)

text \<open>What a turn does to the tokens: at most the refill comes in, a grant takes one out.\<close>

lemma bucket_try_tokens:
  assumes "bucket_ok b" and "updated b \<le> now"
  shows "tokens (snd (bucket_try now b)) + of_bool (fst (bucket_try now b) = None)
    \<le> tokens b + (now - updated b) * rate b"
  using assms by (auto simp: bucket_try_def Let_def min_def)

text \<open>Sleeping for the time the loop computes is enough, whenever the rate is at least one.\<close>

lemma bucket_wait_enough:
  assumes "bucket_try now b = (Some d, b')" and "bucket_ok b" and "updated b \<le> now"
    and "1 \<le> rate b" and "now + d \<le> later"
  shows "fst (bucket_try later b') = None"
proof -
  from assms(1) have d: "d = (1 - tokens b') / rate b'" and r: "rate b' = rate b"
      and u: "updated b' = now"
    by (auto simp: bucket_try_def Let_def split: if_splits)
  have "(1 - tokens b') / rate b' \<le> later - now" using assms(5) d by simp
  then have "1 - tokens b' \<le> (later - now) * rate b'"
    using assms(4) r by (simp add: pos_divide_le_eq)
  then show ?thesis using assms(4) r u by (simp add: bucket_try_def Let_def)
qed

interpretation bucket: polling bucket_try bucket_acquire "\<lambda>now b. bucket_ok b \<and> 1 \<le> rate b \<and> updated b \<le> now"
  by unfold_locales (use bucket_wait_enough in auto)


definition empty_bucket :: token_bucket where
  "empty_bucket = \<lparr>rate = 5, tokens = 0, updated = 0\<rparr>"


text \<open>A rate below one never grants.  A bucket whose rate is below one token per second, which
  the hard ceiling accepts, never holds a whole token: however often the loop turns, \<open>acquire\<close>
  does not return.\<close>

theorem bucket_slow_rate_blocks:
  assumes "rate b < 1"
  shows "bucket_acquire ts b = None"
  using assms
proof (induction ts arbitrary: b)
  case (Cons t ts)
  then have "fst (bucket_try t b) \<noteq> None" by (auto simp: bucket_try_def Let_def)
  moreover have "bucket_acquire ts (snd (bucket_try t b)) = None" using Cons by simp
  ultimately show ?case by (cases "bucket_try t b") auto
qed simp

lemma bucket_slow_rate_blocks_witness:
  "bucket_acquire [0, 10, 100] \<lparr>rate = 1 / 2, tokens = 1 / 2, updated = 0\<rparr> = None"
  by (rule bucket_slow_rate_blocks) simp

text \<open>Attempts at increasing times, and how many of them were granted.\<close>

fun bucket_grants :: "rat list \<Rightarrow> token_bucket \<Rightarrow> nat" where
  "bucket_grants [] b = 0"
| "bucket_grants (t # ts) b =
     (case bucket_try t b of (r, b') \<Rightarrow> of_bool (r = None) + bucket_grants ts b')"

lemma bucket_grants_bound:
  assumes "bucket_ok b" and "sorted (updated b # ts)"
  shows "of_nat (bucket_grants ts b) \<le> tokens b + rate b * (last (updated b # ts) - updated b)"
  using assms
proof (induction ts arbitrary: b)
  case Nil
  then show ?case by (simp add: bucket_ok_def)
next
  case (Cons t ts)
  obtain r b' where tr: "bucket_try t b = (r, b')" by (cases "bucket_try t b")
  have b': "rate b' = rate b" "updated b' = t" "bucket_ok b'"
    using bucket_try_rate [of t b] bucket_try_updated [of t b] bucket_try_ok [of b t] Cons.prems tr
    by auto
  have "of_nat (bucket_grants ts b') \<le> tokens b' + rate b' * (last (updated b' # ts) - updated b')"
    using Cons.prems b' by (intro Cons.IH) auto
  moreover have "tokens b' + of_bool (r = None) \<le> tokens b + (t - updated b) * rate b"
    using bucket_try_tokens [of b t] Cons.prems tr by simp
  ultimately show ?case
    using tr b' by (auto simp: algebra_simps)
qed

section \<open>The governor\<close>

datatype os_error = ConnectionRefused | TimedOut | OtherOsError | OtherException py_str

datatype guard_exn = TargetRejected py_str py_str | BudgetExceeded py_str int | OsExn os_error

record governor =
  gov_profile :: py_str
  gov_limits :: governor_limits
  global_free :: int
  host_free :: "(py_str \<times> int) list"
  gov_bucket :: token_bucket
  host_counts :: "(py_str \<times> int) list"
  scan_count :: int
  gov_backoff :: "(py_str \<times> rat) list"

definition MAX_BACKOFF_SECONDS :: rat where "MAX_BACKOFF_SECONDS = 2"
definition INITIAL_BACKOFF_SECONDS :: rat where "INITIAL_BACKOFF_SECONDS = 1 / 20"

definition new_governor ::
  "py_str \<Rightarrow> (py_str \<times> governor_limits) list option \<Rightarrow> rat \<Rightarrow> governor_config_error + governor" where
  "new_governor name profiles now =
     (let catalog = (case profiles of None \<Rightarrow> INTENSITY_PROFILES | Some p \<Rightarrow> p) in
      case map_of catalog name of
        None \<Rightarrow> Inl (UnknownProfile name)
      | Some l \<Rightarrow>
         (case validate_against l HARD_CEILING of
            Inl e \<Rightarrow> Inl e
          | Inr _ \<Rightarrow> Inr \<lparr>gov_profile = name, gov_limits = l, global_free = global_concurrency l,
              host_free = [], gov_bucket = new_bucket (connections_per_second l) now,
              host_counts = [], scan_count = 0, gov_backoff = []\<rparr>))"

definition probes_made :: "governor \<Rightarrow> int" where
  "probes_made g = scan_count g"

definition hosts_touched :: "governor \<Rightarrow> int" where
  "hosts_touched g = int (length (host_counts g))"

definition probes_made_against :: "governor \<Rightarrow> py_str \<Rightarrow> int" where
  "probes_made_against g host = dict_get (host_counts g) host 0"

definition report_error :: "governor \<Rightarrow> py_str \<Rightarrow> governor" where
  "report_error g host =
     (let current = dict_get (gov_backoff g) host 0
      in g\<lparr>gov_backoff := dict_set (gov_backoff g) host
             (min MAX_BACKOFF_SECONDS
                (if current \<noteq> 0 then current * 2 else INITIAL_BACKOFF_SECONDS))\<rparr>)"

definition report_success :: "governor \<Rightarrow> py_str \<Rightarrow> governor" where
  "report_success g host = g\<lparr>gov_backoff := dict_pop (gov_backoff g) host\<rparr>"

definition backoff_for :: "governor \<Rightarrow> py_str \<Rightarrow> rat" where
  "backoff_for g host = dict_get (gov_backoff g) host 0"

definition host_semaphore :: "governor \<Rightarrow> py_str \<Rightarrow> int" where
  "host_semaphore g host = dict_get (host_free g) host (per_host_concurrency (gov_limits g))"

text \<open>\<open>_acquire\<close>, part by part: the budget checks, the global slot, the host slot and the counts.\<close>

definition acquire_check :: "governor \<Rightarrow> py_str \<Rightarrow> guard_exn + rat" where
  "acquire_check g host =
     (if scan_count g \<ge> per_scan_budget (gov_limits g)
        then Inl (BudgetExceeded ''per-scan'' (per_scan_budget (gov_limits g)))
      else if dict_get (host_counts g) host 0 \<ge> per_host_budget (gov_limits g)
        then Inl (BudgetExceeded (''per-host ('' @ host @ '')'') (per_host_budget (gov_limits g)))
      else Inr (dict_get (gov_backoff g) host 0))"

definition take_global :: "governor \<Rightarrow> governor" where
  "take_global g = g\<lparr>global_free := global_free g - 1\<rparr>"

definition give_global :: "governor \<Rightarrow> governor" where
  "give_global g = g\<lparr>global_free := global_free g + 1\<rparr>"

definition take_host :: "governor \<Rightarrow> py_str \<Rightarrow> governor" where
  "take_host g host =
     g\<lparr>host_free := dict_set (host_free g) host (host_semaphore g host - 1),
       scan_count := scan_count g + 1,
       host_counts := dict_set (host_counts g) host (dict_get (host_counts g) host 0 + 1)\<rparr>"

definition release :: "governor \<Rightarrow> py_str \<Rightarrow> governor" where
  "release g host =
     give_global (g\<lparr>host_free := dict_set (host_free g) host (host_semaphore g host + 1)\<rparr>)"

text \<open>
  The slot as one operation, when no other task touches the governor meanwhile: the budget
  checks, one token, both semaphores and the counts.  \<open>None\<close> is a semaphore with no free slot.
\<close>

definition enter_slot :: "governor \<Rightarrow> py_str \<Rightarrow> (guard_exn + governor) option" where
  "enter_slot g host =
     (case acquire_check g host of
        Inl e \<Rightarrow> Some (Inl e)
      | Inr _ \<Rightarrow>
         if global_free g \<le> 0 \<or> host_semaphore g host \<le> 0 then None
         else Some (Inr (take_host (take_global g) host)))"

lemma new_governor_within_ceiling:
  "new_governor name profiles now = Inr g \<Longrightarrow> within_ceiling (gov_limits g)"
  by (auto simp: new_governor_def Let_def validate_hard_ceiling_iff [symmetric]
      split: option.splits sum.splits)

section \<open>What an operation leaves alone\<close>

lemmas gov_ops = take_global_def give_global_def take_host_def release_def report_error_def
  report_success_def Let_def



lemma host_semaphore_frame [frame_simps]:
  "host_semaphore (take_global g) h = host_semaphore g h"
  "host_semaphore (give_global g) h = host_semaphore g h"
  "host_semaphore (report_error g h') h = host_semaphore g h"
  "host_semaphore (report_success g h') h = host_semaphore g h"
  "host_semaphore (g\<lparr>gov_bucket := b\<rparr>) h = host_semaphore g h"
  "host_semaphore (take_host g h') h = host_semaphore g h - of_bool (h = h')"
  "host_semaphore (release g h') h = host_semaphore g h + of_bool (h = h')"
  by (simp_all add: host_semaphore_def gov_ops)

lemma probes_against_frame [frame_simps]:
  "probes_made_against (take_global g) h = probes_made_against g h"
  "probes_made_against (give_global g) h = probes_made_against g h"
  "probes_made_against (report_error g h') h = probes_made_against g h"
  "probes_made_against (report_success g h') h = probes_made_against g h"
  "probes_made_against (release g h') h = probes_made_against g h"
  "probes_made_against (g\<lparr>gov_bucket := b\<rparr>) h = probes_made_against g h"
  "probes_made_against (take_host g h') h = probes_made_against g h + of_bool (h = h')"
  by (simp_all add: probes_made_against_def gov_ops)

lemma scalars_frame [frame_simps]:
  "gov_limits (take_global g) = gov_limits g" "gov_limits (give_global g) = gov_limits g"
  "gov_limits (report_error g h) = gov_limits g" "gov_limits (report_success g h) = gov_limits g"
  "gov_limits (release g h) = gov_limits g" "gov_limits (take_host g h) = gov_limits g"
  "gov_bucket (take_global g) = gov_bucket g" "gov_bucket (give_global g) = gov_bucket g"
  "gov_bucket (report_error g h) = gov_bucket g" "gov_bucket (report_success g h) = gov_bucket g"
  "gov_bucket (release g h) = gov_bucket g" "gov_bucket (take_host g h) = gov_bucket g"
  "scan_count (take_global g) = scan_count g" "scan_count (give_global g) = scan_count g"
  "scan_count (report_error g h) = scan_count g" "scan_count (report_success g h) = scan_count g"
  "scan_count (release g h) = scan_count g" "scan_count (take_host g h) = scan_count g + 1"
  "global_free (take_global g) = global_free g - 1"
  "global_free (give_global g) = global_free g + 1"
  "global_free (report_error g h) = global_free g"
  "global_free (report_success g h) = global_free g"
  "global_free (release g h) = global_free g + 1" "global_free (take_host g h) = global_free g"
  by (simp_all add: gov_ops)

lemma backoff_frame [frame_simps]:
  "backoff_for (take_global g) h = backoff_for g h"
  "backoff_for (give_global g) h = backoff_for g h"
  "backoff_for (release g h') h = backoff_for g h"
  "backoff_for (g\<lparr>gov_bucket := b\<rparr>) h = backoff_for g h"
  "backoff_for (take_host g h') h = backoff_for g h"
  by (simp_all add: backoff_for_def gov_ops)

lemma counts_frame [frame_simps]:
  "host_counts (take_global g) = host_counts g" "host_counts (give_global g) = host_counts g"
  "host_counts (report_error g h) = host_counts g"
  "host_counts (report_success g h) = host_counts g" "host_counts (release g h) = host_counts g"
  by (simp_all add: gov_ops)

lemma counts_take_host [frame_simps]:
  "host_counts (take_host g h) = dict_set (host_counts g) h (dict_get (host_counts g) h 0 + 1)"
  by (simp add: take_host_def)

section \<open>Backoff stays between its bounds and is cleared by a success\<close>

lemma report_error_backoff [simp]:
  "backoff_for (report_error g host) host' =
     (if host' = host
      then min 2 (if backoff_for g host \<noteq> 0 then backoff_for g host * 2 else 1 / 20)
      else backoff_for g host')"
  by (simp add: backoff_for_def report_error_def Let_def MAX_BACKOFF_SECONDS_def
      INITIAL_BACKOFF_SECONDS_def)

lemma report_success_backoff [simp]:
  "backoff_for (report_success g host) host' = (if host' = host then 0 else backoff_for g host')"
  by (simp add: backoff_for_def report_success_def)

text \<open>Backoff doubles up to its cap.  From a host without errors, after \<open>n + 1\<close> consecutive errors
  the wait before its next probe is a twentieth of a second doubled \<open>n\<close> times, and two seconds at
  most.\<close>

theorem backoff_after_errors:
  assumes "backoff_for g host = 0"
  shows "backoff_for (((\<lambda>g. report_error g host) ^^ Suc n) g) host = min 2 (2 ^ n / 20)"
proof (induction n)
  case 0
  then show ?case using assms by simp
next
  case (Suc n)
  let ?b = "backoff_for (((\<lambda>g. report_error g host) ^^ Suc n) g) host"
  have "?b \<noteq> 0" using Suc by (simp add: min_def)
  then have "backoff_for (((\<lambda>g. report_error g host) ^^ Suc (Suc n)) g) host = min 2 (?b * 2)"
    by simp
  also have "\<dots> = min 2 (2 ^ Suc n / 20)" by (simp only: Suc) (simp add: min_def)
  finally show ?case .
qed

lemma backoff_after_errors_witness:
  "\<exists>g. backoff_for (((\<lambda>g. report_error g ''h'') ^^ Suc 2) g) ''h'' = 1 / 5"
proof -
  obtain g where "new_governor ''polite'' None 0 = Inr g"
    by (auto simp: new_governor_def INTENSITY_PROFILES_def validate_hard_ceiling_iff [THEN iffD2]
        within_ceiling_def)
  then have "backoff_for g ''h'' = 0"
    by (auto simp: new_governor_def backoff_for_def split: option.splits sum.splits)
  from backoff_after_errors [OF this, of 2] show ?thesis by auto
qed

end
