(* ===== verification/Governor_System.thy ===== *)
theory Governor_System
  imports Governor
begin

text \<open>
  The interleavings of \<open>backend/app/scan/governor.py\<close>: several tasks of one scan inside
  \<open>async with governor.slot(host)\<close> at once.  A slot is a task's host and the point it has reached
  in \<open>_GovernorSlot.__aenter__\<close>, the body or \<open>__aexit__\<close>; the points are the suspension points of
  \<open>_acquire\<close>, so a step of the relation is what one task does between two of them.  The invariant
  is the governor's contract; the closing section shows the one promise it does not keep.
\<close>

section \<open>States and steps\<close>

datatype slot_phase = Entering | Waiting | HasToken | HasGlobal | Holding | Failing | Over

record gov_sys =
  gov :: governor
  slots :: "(py_str \<times> slot_phase) list"

definition set_phase :: "nat \<Rightarrow> slot_phase \<Rightarrow> gov_sys \<Rightarrow> gov_sys" where
  "set_phase i p s = s\<lparr>slots := (slots s)[i := (fst (slots s ! i), p)]\<rparr>"

definition at_phase :: "gov_sys \<Rightarrow> nat \<Rightarrow> py_str \<Rightarrow> slot_phase \<Rightarrow> bool" where
  "at_phase s i h p \<longleftrightarrow> i < length (slots s) \<and> slots s ! i = (h, p)"

text \<open>
  The governor's part of each step, by the phase the task leaves: the budget checks let it in or
  raise; the bucket grants a token or makes it sleep; a semaphore is taken when it has a free
  slot; a task cancelled between the two semaphores gives the global one back; the body ends in
  success, reported after the release, or in an error, reported before it.
\<close>

inductive gov_step :: "gov_sys \<Rightarrow> gov_sys \<Rightarrow> bool" where
  enter: "at_phase s i h Entering \<Longrightarrow> acquire_check (gov s) h = Inr d \<Longrightarrow>
     gov_step s (set_phase i Waiting s)"
| refuse: "at_phase s i h Entering \<Longrightarrow> acquire_check (gov s) h = Inl e \<Longrightarrow>
     gov_step s (set_phase i Over s)"
| sleep: "at_phase s i h Waiting \<Longrightarrow> updated (gov_bucket (gov s)) \<le> now \<Longrightarrow>
     bucket_try now (gov_bucket (gov s)) = (Some d, b) \<Longrightarrow>
     gov_step s (s\<lparr>gov := (gov s)\<lparr>gov_bucket := b\<rparr>\<rparr>)"
| token: "at_phase s i h Waiting \<Longrightarrow> updated (gov_bucket (gov s)) \<le> now \<Longrightarrow>
     bucket_try now (gov_bucket (gov s)) = (None, b) \<Longrightarrow>
     gov_step s (set_phase i HasToken (s\<lparr>gov := (gov s)\<lparr>gov_bucket := b\<rparr>\<rparr>))"
| global: "at_phase s i h HasToken \<Longrightarrow> 0 < global_free (gov s) \<Longrightarrow>
     gov_step s (set_phase i HasGlobal (s\<lparr>gov := take_global (gov s)\<rparr>))"
| host: "at_phase s i h HasGlobal \<Longrightarrow> 0 < host_semaphore (gov s) h \<Longrightarrow>
     gov_step s (set_phase i Holding (s\<lparr>gov := take_host (gov s) h\<rparr>))"
| cancel: "at_phase s i h p \<Longrightarrow> p \<in> {Entering, Waiting, HasToken} \<Longrightarrow>
     gov_step s (set_phase i Over s)"
| cancel_global: "at_phase s i h HasGlobal \<Longrightarrow>
     gov_step s (set_phase i Over (s\<lparr>gov := give_global (gov s)\<rparr>))"
| succeed: "at_phase s i h Holding \<Longrightarrow>
     gov_step s (set_phase i Over (s\<lparr>gov := report_success (release (gov s) h) h\<rparr>))"
| fail: "at_phase s i h Holding \<Longrightarrow>
     gov_step s (set_phase i Failing (s\<lparr>gov := report_error (gov s) h\<rparr>))"
| leave: "at_phase s i h Failing \<Longrightarrow>
     gov_step s (set_phase i Over (s\<lparr>gov := release (gov s) h\<rparr>))"
| again: "at_phase s i h Over \<Longrightarrow>
     gov_step s (s\<lparr>slots := (slots s)[i := (h', Entering)]\<rparr>)"

definition gov_start :: "governor \<Rightarrow> py_str list \<Rightarrow> gov_sys" where
  "gov_start g hosts = \<lparr>gov = g, slots = map (\<lambda>h. (h, Entering)) hosts\<rparr>"

inductive gov_reach :: "governor \<Rightarrow> py_str list \<Rightarrow> gov_sys \<Rightarrow> bool" for g0 hosts where
  start: "gov_reach g0 hosts (gov_start g0 hosts)"
| step: "gov_reach g0 hosts s \<Longrightarrow> gov_step s s' \<Longrightarrow> gov_reach g0 hosts s'"

section \<open>The invariant\<close>

fun has_global :: "py_str \<times> slot_phase \<Rightarrow> bool" where
  "has_global (_, p) \<longleftrightarrow> p \<in> {HasGlobal, Holding, Failing}"

fun has_host :: "py_str \<Rightarrow> py_str \<times> slot_phase \<Rightarrow> bool" where
  "has_host h (h', p) \<longleftrightarrow> h' = h \<and> p \<in> {Holding, Failing}"

fun pending :: "py_str \<times> slot_phase \<Rightarrow> bool" where
  "pending (_, p) \<longleftrightarrow> p \<in> {Waiting, HasToken, HasGlobal}"

fun pending_on :: "py_str \<Rightarrow> py_str \<times> slot_phase \<Rightarrow> bool" where
  "pending_on h (h', p) \<longleftrightarrow> h' = h \<and> p \<in> {Waiting, HasToken, HasGlobal}"

fun granted :: "py_str \<times> slot_phase \<Rightarrow> bool" where
  "granted (_, p) \<longleftrightarrow> p \<in> {HasToken, HasGlobal}"

text \<open>
  Semaphores: free slots and the tasks inside add up to the limit.  Budgets: the connections
  counted and the tasks that passed the checks without being counted yet.  Rate: the connections
  counted, the tokens handed out and those left in the bucket against the time elapsed.
\<close>

definition semaphores_ok :: "gov_sys \<Rightarrow> bool" where
  "semaphores_ok s \<longleftrightarrow>
     0 \<le> global_free (gov s)
     \<and> global_free (gov s) + how_many has_global (slots s) = global_concurrency (gov_limits (gov s))
     \<and> (\<forall>h. 0 \<le> host_semaphore (gov s) h
          \<and> host_semaphore (gov s) h + how_many (has_host h) (slots s)
              = per_host_concurrency (gov_limits (gov s)))"

definition budgets_ok :: "gov_sys \<Rightarrow> bool" where
  "budgets_ok s \<longleftrightarrow>
     scan_count (gov s) + how_many pending (slots s)
       < per_scan_budget (gov_limits (gov s)) + max 1 (int (length (slots s)))
     \<and> (\<forall>h. probes_made_against (gov s) h + how_many (pending_on h) (slots s)
          < per_host_budget (gov_limits (gov s)) + max 1 (int (length (slots s))))"

definition rate_ok :: "rat \<Rightarrow> gov_sys \<Rightarrow> bool" where
  "rate_ok t0 s \<longleftrightarrow> (let b = gov_bucket (gov s) in
     bucket_ok b \<and> t0 \<le> updated b \<and> rate b = connections_per_second (gov_limits (gov s))
     \<and> of_int (scan_count (gov s) + how_many granted (slots s)) + tokens b
         \<le> rate b * (1 + (updated b - t0)))"

definition counts_ok :: "gov_sys \<Rightarrow> bool" where
  "counts_ok s \<longleftrightarrow>
     distinct (map fst (host_counts (gov s)))
     \<and> sum_list (map snd (host_counts (gov s))) = scan_count (gov s)
     \<and> (\<forall>h. 0 \<le> probes_made_against (gov s) h)
     \<and> (\<forall>h. 0 \<le> backoff_for (gov s) h \<and> backoff_for (gov s) h \<le> MAX_BACKOFF_SECONDS)"

definition gov_inv :: "rat \<Rightarrow> gov_sys \<Rightarrow> bool" where
  "gov_inv t0 s \<longleftrightarrow> semaphores_ok s \<and> budgets_ok s \<and> rate_ok t0 s \<and> counts_ok s"

lemma gov_set_phase [simp]: "gov (set_phase i p s) = gov s"
  by (simp add: set_phase_def)

lemma length_set_phase [simp]: "length (slots (set_phase i p s)) = length (slots s)"
  by (simp add: set_phase_def)

lemma how_many_set_phase:
  "at_phase s i h q \<Longrightarrow> how_many P (slots (set_phase i p s))
     = how_many P (slots s) - of_bool (P (h, q)) + of_bool (P (h, p))"
  by (simp add: at_phase_def set_phase_def how_many_update)

lemma how_many_again:
  "at_phase s i h q \<Longrightarrow> how_many P ((slots s)[i := (h', p)])
     = how_many P (slots s) - of_bool (P (h, q)) + of_bool (P (h', p))"
  by (simp add: at_phase_def how_many_update)

lemma at_phase_gov [simp]: "at_phase (s\<lparr>gov := g\<rparr>) i h p = at_phase s i h p"
  by (simp add: at_phase_def)

lemma how_many_at_phase: "at_phase s i h q \<Longrightarrow> P (h, q) \<Longrightarrow> 0 < how_many P (slots s)"
  by (rule how_many_pos [of i]) (auto simp: at_phase_def)

lemma how_many_not_at_phase:
  "at_phase s i h q \<Longrightarrow> \<not> P (h, q) \<Longrightarrow> how_many P (slots s) < int (length (slots s))"
  by (rule how_many_less [of i]) (auto simp: at_phase_def)

lemmas phase_counts = how_many_set_phase how_many_again


section \<open>Every step keeps the invariant\<close>

lemma semaphores_step:
  assumes "gov_step s s'" and "semaphores_ok s"
  shows "semaphores_ok s'"
  using assms by (cases rule: gov_step.cases)
    (auto simp: semaphores_ok_def frame_simps phase_counts)

lemma rate_step:
  assumes "gov_step s s'" and "rate_ok t0 s"
  shows "rate_ok t0 s'"
proof -
  let ?b = "gov_bucket (gov s)"
  note turn = bucket_try_ok [of ?b] bucket_try_tokens [of ?b] bucket_try_rate [where b = ?b]
    bucket_try_updated [where b = ?b]
  from assms(1) show ?thesis
  proof (cases rule: gov_step.cases)
    case (sleep i h now d b)
    then show ?thesis
      using assms(2) turn [of now] by (auto simp: rate_ok_def Let_def algebra_simps)
  next
    case (token i h now b)
    then show ?thesis
      using assms(2) turn [of now]
      by (auto simp: rate_ok_def Let_def algebra_simps phase_counts)
  qed (use assms(2) in \<open>auto simp: rate_ok_def Let_def frame_simps phase_counts\<close>)
qed

lemma sum_counts_take:
  "distinct (map fst d) \<Longrightarrow> sum_list (map snd (dict_set d h (dict_get d h 0 + (1::int)))) = sum_list (map snd d) + 1"
  by (induction d) (auto simp: dict_get_def)

lemma counts_step:
  assumes "gov_step s s'" and "counts_ok s"
  shows "counts_ok s'"
  using assms
proof (cases rule: gov_step.cases)
  case (host i h)
  then show ?thesis using assms(2)
    by (auto simp: counts_ok_def frame_simps sum_counts_take distinct_update add_nonneg_nonneg)
next
  case (fail i h)
  then show ?thesis using assms(2)
    by (auto simp: counts_ok_def frame_simps MAX_BACKOFF_SECONDS_def)
qed (use assms(2) in \<open>auto simp: counts_ok_def frame_simps MAX_BACKOFF_SECONDS_def\<close>)

lemma budgets_mono:
  assumes "budgets_ok s" and "gov_limits (gov s') = gov_limits (gov s)"
    and "length (slots s') = length (slots s)"
    and "scan_count (gov s') + how_many pending (slots s')
      \<le> scan_count (gov s) + how_many pending (slots s)"
    and "\<And>h. probes_made_against (gov s') h + how_many (pending_on h) (slots s')
      \<le> probes_made_against (gov s) h + how_many (pending_on h) (slots s)"
  shows "budgets_ok s'"
  unfolding budgets_ok_def assms(2,3)
  using assms(1,4) assms(5)[THEN le_less_trans] by (auto simp: budgets_ok_def)

lemma budgets_step:
  assumes "gov_step s s'" and "budgets_ok s"
  shows "budgets_ok s'"
  using assms
proof (cases rule: gov_step.cases)
  case (enter i h d)
  have "how_many pending (slots s) < int (length (slots s))"
    "how_many (pending_on h) (slots s) < int (length (slots s))"
    by (rule how_many_not_at_phase [OF enter(2)], simp)+
  then show ?thesis using assms(2) enter
    by (auto simp: budgets_ok_def acquire_check_def probes_made_against_def phase_counts split: if_splits)
qed (use assms(2) in \<open>auto intro!: budgets_mono [OF assms(2)] simp: frame_simps phase_counts\<close>)

lemma gov_inv_step: "gov_step s s' \<Longrightarrow> gov_inv t0 s \<Longrightarrow> gov_inv t0 s'"
  unfolding gov_inv_def
  using semaphores_step budgets_step rate_step counts_step by blast

lemma how_many_start [simp]: "(\<And>h. \<not> P (h, Entering)) \<Longrightarrow> how_many P (map (\<lambda>h. (h, Entering)) hosts) = 0"
  by (induction hosts) (auto simp: how_many_def)

lemma new_governor_fields:
  assumes "new_governor name profiles t0 = Inr g"
  shows "\<exists>l. within_ceiling l \<and> g = \<lparr>gov_profile = name, gov_limits = l,
    global_free = global_concurrency l, host_free = [],
    gov_bucket = new_bucket (connections_per_second l) t0,
    host_counts = [], scan_count = 0, gov_backoff = []\<rparr>"
  using assms by (auto simp: new_governor_def Let_def validate_hard_ceiling_iff [symmetric]
    split: option.splits sum.splits)

lemma gov_inv_start:
  assumes "new_governor name profiles t0 = Inr g"
  shows "gov_inv t0 (gov_start g hosts)"
proof -
  obtain l where l: "within_ceiling l" and g: "g = \<lparr>gov_profile = name, gov_limits = l,
    global_free = global_concurrency l, host_free = [],
    gov_bucket = new_bucket (connections_per_second l) t0,
    host_counts = [], scan_count = 0, gov_backoff = []\<rparr>"
    using new_governor_fields [OF assms] by blast
  from l have pos: "0 < global_concurrency l" "0 < per_host_concurrency l"
    "0 < connections_per_second l" "0 < per_host_budget l" "0 < per_scan_budget l"
    by (simp_all add: within_ceiling_def)
  show ?thesis using pos
   by (simp add: g gov_inv_def gov_start_def semaphores_ok_def budgets_ok_def rate_ok_def counts_ok_def
      host_semaphore_def probes_made_against_def add_pos_nonneg add_pos_pos backoff_for_def MAX_BACKOFF_SECONDS_def
      new_bucket_def bucket_ok_def)
qed

lemma gov_step_limits: "gov_step s s' \<Longrightarrow> gov_limits (gov s') = gov_limits (gov s)
   \<and> length (slots s') = length (slots s)"
  by (cases rule: gov_step.cases) (auto simp: frame_simps)

lemma gov_reach_frame: "gov_reach g0 hosts s \<Longrightarrow> gov_limits (gov s) = gov_limits g0
   \<and> length (slots s) = length hosts"
  by (induction rule: gov_reach.induct) (auto simp: gov_start_def dest: gov_step_limits)

lemma gov_reach_inv:
  assumes "gov_reach g0 hosts s" and "new_governor name profiles t0 = Inr g0"
  shows "gov_inv t0 s"
  using assms by (induction rule: gov_reach.induct) (auto intro: gov_inv_start gov_inv_step)

lemma holder_exists: "0 < how_many P xs \<Longrightarrow> \<exists>i < length xs. P (xs ! i)"
  unfolding how_many_def by (auto simp: filter_empty_conv in_set_conv_nth)


section \<open>A scheduler, to run examples\<close>

text \<open>
  A scheduler: the next step of one task at a given time, or no change when it cannot move.
\<close>

definition advance :: "rat \<Rightarrow> nat \<Rightarrow> gov_sys \<Rightarrow> gov_sys" where
  "advance now i s =
     (if i < length (slots s) then
        (let (h, p) = slots s ! i; g = gov s in
         case p of
           Entering \<Rightarrow> (case acquire_check g h of Inr _ \<Rightarrow> set_phase i Waiting s
                                               | Inl _ \<Rightarrow> set_phase i Over s)
         | Waiting \<Rightarrow>
             (if updated (gov_bucket g) \<le> now then
                (case bucket_try now (gov_bucket g) of
                   (None, b) \<Rightarrow> set_phase i HasToken (s\<lparr>gov := g\<lparr>gov_bucket := b\<rparr>\<rparr>)
                 | (Some _, b) \<Rightarrow> s\<lparr>gov := g\<lparr>gov_bucket := b\<rparr>\<rparr>)
              else s)
         | HasToken \<Rightarrow>
             (if 0 < global_free g then set_phase i HasGlobal (s\<lparr>gov := take_global g\<rparr>) else s)
         | HasGlobal \<Rightarrow>
             (if 0 < host_semaphore g h then set_phase i Holding (s\<lparr>gov := take_host g h\<rparr>) else s)
         | Holding \<Rightarrow> set_phase i Over (s\<lparr>gov := report_success (release g h) h\<rparr>)
         | Failing \<Rightarrow> set_phase i Over (s\<lparr>gov := release g h\<rparr>)
         | Over \<Rightarrow> s)
      else s)"

lemma advance_reach:
  assumes r: "gov_reach g0 hosts s" shows "gov_reach g0 hosts (advance now i s)"
proof (cases "i < length (slots s)")
  case True
  obtain h p where hp: "slots s ! i = (h, p)" by (cases "slots s ! i")
  with True have at: "at_phase s i h p" by (simp add: at_phase_def)
  note st = gov_reach.step [OF r]
  show ?thesis
    using at True hp r
    by (cases p) (auto simp: advance_def Let_def split: sum.splits prod.splits option.splits
      intro: st gov_step.intros)
qed (use r in \<open>simp add: advance_def\<close>)

fun run_tasks :: "(rat \<times> nat) list \<Rightarrow> gov_sys \<Rightarrow> gov_sys" where
  "run_tasks [] s = s"
| "run_tasks ((now, i) # ts) s = run_tasks ts (advance now i s)"

lemma run_tasks_reach: "gov_reach g0 hosts s \<Longrightarrow> gov_reach g0 hosts (run_tasks ts s)"
  by (induction ts s rule: run_tasks.induct) (simp_all add: advance_reach)


section \<open>What the governor promises\<close>

text \<open>C16. The concurrency ceilings are hard.  In every reachable state of every interleaving, the
  tasks inside the global semaphore are at most the profile's limit and at most the ceiling of
  200, and the tasks connected to one host at most the per-host limit and at most 20.\<close>

theorem governor_concurrency:
  assumes "new_governor name profiles t0 = Inr g0" and "gov_reach g0 hosts s"
  shows "how_many has_global (slots s) \<le> global_concurrency (gov_limits g0)
    \<and> how_many has_global (slots s) \<le> 200
    \<and> how_many (has_host h) (slots s) \<le> per_host_concurrency (gov_limits g0)
    \<and> how_many (has_host h) (slots s) \<le> 20"
proof -
  have "semaphores_ok s" using gov_reach_inv [OF assms(2,1)] by (simp add: gov_inv_def)
  then have "how_many has_global (slots s) \<le> global_concurrency (gov_limits g0)"
    and "how_many (has_host h) (slots s) \<le> per_host_concurrency (gov_limits g0)"
    using gov_reach_frame [OF assms(2)] by (simp_all add: semaphores_ok_def) smt+
  then show ?thesis
    using new_governor_within_ceiling [OF assms(1)] by (simp add: within_ceiling_def)
qed

text \<open>C17. The rate is bounded.  The connections a scan has counted by the bucket's last reading of the
  clock are at most the profile's rate times the seconds since the start plus one: one second's
  burst, then the rate, whatever the interleaving of the tasks.\<close>

theorem governor_rate:
  assumes "new_governor name profiles t0 = Inr g0" and "gov_reach g0 hosts s"
  shows "of_int (probes_made (gov s))
    \<le> connections_per_second (gov_limits g0) * (1 + (updated (gov_bucket (gov s)) - t0))"
proof -
  have "rate_ok t0 s" using gov_reach_inv [OF assms(2,1)] by (simp add: gov_inv_def)
  then have "of_int (scan_count (gov s)) + of_int (how_many granted (slots s))
      + tokens (gov_bucket (gov s))
      \<le> connections_per_second (gov_limits g0) * (1 + (updated (gov_bucket (gov s)) - t0))"
    and "0 \<le> tokens (gov_bucket (gov s))"
    using gov_reach_frame [OF assms(2)] by (auto simp: rate_ok_def Let_def bucket_ok_def)
  moreover have "(0 :: rat) \<le> of_int (how_many granted (slots s))" by simp
  ultimately show ?thesis unfolding probes_made_def by linarith
qed

text \<open>C18. The budgets are bounded, up to the tasks in flight.  With \<open>n\<close> concurrent tasks the
  connections of a scan stay below its budget plus \<open>n\<close>, and those of a host below the host's
  budget plus \<open>n\<close>; with one task the budgets are exact.\<close>

theorem governor_budget_bound:
  assumes "new_governor name profiles t0 = Inr g0" and "gov_reach g0 hosts s"
  shows "probes_made (gov s) < per_scan_budget (gov_limits g0) + max 1 (int (length hosts))
    \<and> probes_made_against (gov s) h < per_host_budget (gov_limits g0) + max 1 (int (length hosts))"
proof -
  have "budgets_ok s" using gov_reach_inv [OF assms(2,1)] by (simp add: gov_inv_def)
  then have
    "scan_count (gov s) + how_many pending (slots s)
       < per_scan_budget (gov_limits g0) + max 1 (int (length hosts))"
    "probes_made_against (gov s) h + how_many (pending_on h) (slots s)
       < per_host_budget (gov_limits g0) + max 1 (int (length hosts))"
    using gov_reach_frame [OF assms(2)] by (simp_all add: budgets_ok_def)
  moreover have "0 \<le> how_many pending (slots s)" and "0 \<le> how_many (pending_on h) (slots s)"
    by simp_all
  ultimately show ?thesis unfolding probes_made_def by linarith
qed

definition can_advance :: "gov_sys \<Rightarrow> nat \<Rightarrow> bool" where
  "can_advance s i \<longleftrightarrow> i < length (slots s) \<and> (case slots s ! i of
      (h, HasToken) \<Rightarrow> 0 < global_free (gov s)
    | (h, HasGlobal) \<Rightarrow> 0 < host_semaphore (gov s) h
    | (h, Holding) \<Rightarrow> True | (h, Failing) \<Rightarrow> True | _ \<Rightarrow> False)"

text \<open>C19. No deadlock.  In every reachable state of a governor that was accepted, if some task
  has its token and has not left its slot, then some task can move on: it holds its slots and can
  leave, or the semaphore it waits for has a free slot.\<close>

theorem governor_no_deadlock:
  assumes "gov_reach g0 hosts s" and "new_governor name profiles t0 = Inr g0"
   and "at_phase s i h p" and "p \<in> {HasToken, HasGlobal, Holding, Failing}"
  shows "\<exists>j. can_advance s j"
proof (rule ccontr)
  assume stuck: "\<nexists>j. can_advance s j"
  have inv: "semaphores_ok s" using gov_reach_inv[OF assms(1,2)] by (simp add: gov_inv_def)
  have lim: "within_ceiling (gov_limits (gov s))"
    using gov_reach_frame[OF assms(1)] new_governor_within_ceiling[OF assms(2)] by simp
  have nohold: "how_many (has_host h') (slots s) = 0" for h'
  proof (rule ccontr)
    assume "how_many (has_host h') (slots s) \<noteq> 0"
    then have "0 < how_many (has_host h') (slots s)" using how_many_nonneg [of "has_host h'" "slots s"] by linarith
    then obtain j where "j < length (slots s)" "has_host h' (slots s ! j)" using holder_exists by blast
    then have "can_advance s j" by (cases "slots s ! j") (auto simp: can_advance_def)
    with stuck show False by blast
  qed
  have free: "0 < host_semaphore (gov s) h'" for h'
    using inv nohold lim by (auto simp: semaphores_ok_def within_ceiling_def)
  have noglob: "how_many has_global (slots s) = 0"
  proof (rule ccontr)
    assume "how_many has_global (slots s) \<noteq> 0"
    then have "0 < how_many has_global (slots s)" using how_many_nonneg [of has_global "slots s"] by linarith
    then obtain j where "j < length (slots s)" "has_global (slots s ! j)" using holder_exists by blast
    then have "can_advance s j" using free by (cases "slots s ! j") (auto simp: can_advance_def)
    with stuck show False by blast
  qed
  then have "0 < global_free (gov s)" using inv lim by (simp add: semaphores_ok_def within_ceiling_def)
  then have "can_advance s i" using assms(3,4) free by (auto simp: can_advance_def at_phase_def)
  with stuck show False by blast
qed

section \<open>The budget can be overrun\<close>

text \<open>
  The budgets are checked before the first suspension and counted after the last one.  Three
  tasks under a budget of two: the first connects, the second passes the check and waits for its
  token, the third passes the check behind it; all three are counted.
\<close>

definition tight_profile :: governor_limits where
  "tight_profile = \<lparr>global_concurrency = 20, per_host_concurrency = 4,
     connections_per_second = 1, connect_timeout = 3, per_host_budget = 200,
     per_scan_budget = 2\<rparr>"

definition tight_governor :: governor where
  "tight_governor = projr (new_governor ''tight'' (Some [(''tight'', tight_profile)]) 0)"

definition three_hosts :: "py_str list" where
  "three_hosts = [''10.0.0.1'', ''10.0.0.2'', ''10.0.0.3'']"

definition overshoot_schedule :: "(rat \<times> nat) list" where
  "overshoot_schedule = [(0, 0), (0, 0), (0, 0), (0, 0), (0, 1), (0, 1), (0, 2),
     (1, 1), (1, 1), (1, 1), (2, 2), (2, 2), (2, 2)]"

lemma tight_governor_new:
  "new_governor ''tight'' (Some [(''tight'', tight_profile)]) 0 = Inr tight_governor"
  by (simp add: tight_governor_def new_governor_def validate_hard_ceiling_iff [THEN iffD2]
      within_ceiling_def tight_profile_def)

lemma overshoot_run:
  "probes_made (gov (run_tasks overshoot_schedule (gov_start tight_governor three_hosts))) = 3"
  by code_simp

text \<open>The per-scan budget is not hard.  There is a profile the hard ceiling accepts, with a
  per-scan budget of two, and an interleaving of three tasks in which three connections are
  counted.\<close>

theorem governor_budget_overrun:
  "\<exists>g s. new_governor ''tight'' (Some [(''tight'', tight_profile)]) 0 = Inr g
     \<and> gov_reach g three_hosts s \<and> per_scan_budget (gov_limits g) = 2 \<and> probes_made (gov s) = 3"
proof -
  let ?s = "run_tasks overshoot_schedule (gov_start tight_governor three_hosts)"
  have "gov_reach tight_governor three_hosts ?s"
    by (intro run_tasks_reach gov_reach.start)
  moreover have "per_scan_budget (gov_limits tight_governor) = 2" by code_simp
  ultimately show ?thesis using tight_governor_new overshoot_run by blast
qed

text \<open>The witnesses of the properties above run the same schedule.\<close>

lemma overshoot_reach:
  "gov_reach tight_governor three_hosts
     (run_tasks (take 8 overshoot_schedule) (gov_start tight_governor three_hosts))"
  by (intro run_tasks_reach gov_reach.start)

lemma governor_concurrency_witness:
  "how_many has_global (slots (run_tasks (take 8 overshoot_schedule)
     (gov_start tight_governor three_hosts))) \<le> 200"
  using governor_concurrency [OF tight_governor_new overshoot_reach] by blast

lemma governor_rate_witness:
  "of_int (probes_made (gov (run_tasks (take 8 overshoot_schedule)
     (gov_start tight_governor three_hosts)))) \<le> (2 :: rat)"
proof -
  let ?s = "run_tasks (take 8 overshoot_schedule) (gov_start tight_governor three_hosts)"
  have "connections_per_second (gov_limits tight_governor)
      * (1 + (updated (gov_bucket (gov ?s)) - 0)) = 2"
    by code_simp
  then show ?thesis using governor_rate [OF tight_governor_new overshoot_reach] by simp
qed

lemma governor_budget_bound_witness:
  "probes_made (gov (run_tasks (take 8 overshoot_schedule)
     (gov_start tight_governor three_hosts))) < 5"
proof -
  have "per_scan_budget (gov_limits tight_governor) + max 1 (int (length three_hosts)) = 5"
    by code_simp
  then show ?thesis using governor_budget_bound [OF tight_governor_new overshoot_reach] by simp
qed

lemma governor_no_deadlock_witness:
  "\<exists>j. can_advance (run_tasks (take 8 overshoot_schedule)
     (gov_start tight_governor three_hosts)) j"
proof (rule governor_no_deadlock [OF overshoot_reach tight_governor_new])
  show "at_phase (run_tasks (take 8 overshoot_schedule) (gov_start tight_governor three_hosts))
      0 ''10.0.0.1'' Holding"
    by code_simp
qed simp

end
