(* ===== verification/Ip_Address.thy ===== *)
theory Ip_Address
  imports Py_Str
begin

text \<open>
  The part of Python's \<open>ipaddress\<close> module that the sources use, on values: addresses and
  networks of both versions, membership, overlap, containment, and the classification predicates
  (\<open>is_multicast\<close>, \<open>is_unspecified\<close>, \<open>is_private\<close>, \<open>is_global\<close>) with the registry tables of the
  standard library shipped with Python 3.11.10 (3.11 is one of the two versions the repository
  is tested on).  An address of version 4 is a 32-bit word and one of version 6 a 128-bit word
  with its optional zone identifier; the module checks the range whenever it builds an address,
  so the words carry the invariant in their type.
\<close>

section \<open>Addresses and networks\<close>

datatype ip_address = IPv4 "32 word" | IPv6 "128 word" "py_str option"

datatype ip_network = Net4 "32 word" nat | Net6 "128 word" "py_str option" nat

fun version :: "ip_address \<Rightarrow> nat" where
  "version (IPv4 _) = 4"
| "version (IPv6 _ _) = 6"

fun net_version :: "ip_network \<Rightarrow> nat" where
  "net_version (Net4 _ _) = 4"
| "net_version (Net6 _ _ _) = 6"

fun prefixlen :: "ip_network \<Rightarrow> nat" where
  "prefixlen (Net4 _ p) = p"
| "prefixlen (Net6 _ _ p) = p"

fun network_address :: "ip_network \<Rightarrow> ip_address" where
  "network_address (Net4 n _) = IPv4 n"
| "network_address (Net6 n z _) = IPv6 n z"

text \<open>The broadcast address is built from an integer, so it never has a zone.\<close>

fun broadcast_address :: "ip_network \<Rightarrow> ip_address" where
  "broadcast_address (Net4 n p) = IPv4 (last_word n p)"
| "broadcast_address (Net6 n _ p) = IPv6 (last_word n p) None"

fun num_addresses :: "ip_network \<Rightarrow> int" where
  "num_addresses (Net4 n p) = int (unat (last_word n p)) - int (unat n) + 1"
| "num_addresses (Net6 n _ p) = int (unat (last_word n p)) - int (unat n) + 1"

text \<open>What the constructor of a network guarantees: no host bits, and a prefix in range.\<close>

fun wf_network :: "ip_network \<Rightarrow> bool" where
  "wf_network (Net4 n p) = (aligned n p \<and> p \<le> 32)"
| "wf_network (Net6 n _ p) = (aligned n p \<and> p \<le> 128)"

text \<open>\<open>address in network\<close> (\<open>_BaseNetwork.__contains__\<close>); zones play no part.\<close>

fun in_network :: "ip_address \<Rightarrow> ip_network \<Rightarrow> bool" where
  "in_network (IPv4 a) (Net4 n p) = (a AND netmask p = n)"
| "in_network (IPv6 a _) (Net6 n _ p) = (a AND netmask p = n)"
| "in_network _ _ = False"

text \<open>
  The order of \<open>functools.total_ordering\<close>: \<open><\<close> compares the integers, \<open><=\<close> is \<open><\<close> or equal with
  equality looking at the zone too, \<open>>=\<close> is the negation of \<open><\<close>.  Both are only reached on two
  addresses of one version.
\<close>

fun addr_lt :: "ip_address \<Rightarrow> ip_address \<Rightarrow> bool" where
  "addr_lt (IPv4 a) (IPv4 b) = (a < b)"
| "addr_lt (IPv6 a _) (IPv6 b _) = (a < b)"
| "addr_lt _ _ = False"

definition addr_le :: "ip_address \<Rightarrow> ip_address \<Rightarrow> bool" where
  "addr_le a b \<longleftrightarrow> addr_lt a b \<or> a = b"

definition addr_ge :: "ip_address \<Rightarrow> ip_address \<Rightarrow> bool" where
  "addr_ge a b \<longleftrightarrow> \<not> addr_lt a b"

text \<open>\<open>a.subnet_of(b)\<close> for networks of one version.\<close>

definition subnet_of :: "ip_network \<Rightarrow> ip_network \<Rightarrow> bool" where
  "subnet_of a b \<longleftrightarrow> addr_le (network_address b) (network_address a)
     \<and> addr_ge (broadcast_address b) (broadcast_address a)"

definition overlaps :: "ip_network \<Rightarrow> ip_network \<Rightarrow> bool" where
  "overlaps a b \<longleftrightarrow> in_network (network_address a) b \<or> in_network (broadcast_address a) b
     \<or> in_network (network_address b) a \<or> in_network (broadcast_address b) a"

section \<open>The address classes\<close>

definition ip4 :: "nat \<Rightarrow> nat \<Rightarrow> nat \<Rightarrow> nat \<Rightarrow> 32 word" where
  "ip4 a b c d = of_nat (((a * 256 + b) * 256 + c) * 256 + d)"

definition ip6 :: "nat \<Rightarrow> nat \<Rightarrow> nat \<Rightarrow> nat \<Rightarrow> nat \<Rightarrow> nat \<Rightarrow> nat \<Rightarrow> nat \<Rightarrow> 128 word" where
  "ip6 a b c d e f g h = of_nat (((((((a * 65536 + b) * 65536 + c) * 65536 + d) * 65536 + e)
      * 65536 + f) * 65536 + g) * 65536 + h)"

definition net4 :: "nat \<Rightarrow> nat \<Rightarrow> nat \<Rightarrow> nat \<Rightarrow> nat \<Rightarrow> ip_network" where
  "net4 a b c d p = Net4 (ip4 a b c d) p"

definition net6 :: "nat \<Rightarrow> nat \<Rightarrow> nat \<Rightarrow> nat \<Rightarrow> nat \<Rightarrow> nat \<Rightarrow> nat \<Rightarrow> nat \<Rightarrow> nat \<Rightarrow> ip_network" where
  "net6 a b c d e f g h p = Net6 (ip6 a b c d e f g h) None p"

lemmas net_const_defs = net4_def net6_def ip4_def ip6_def

definition private_networks4 :: "ip_network list" where
  "private_networks4 =
     [net4 0 0 0 0 8, net4 10 0 0 0 8, net4 127 0 0 0 8, net4 169 254 0 0 16, net4 172 16 0 0 12,
      net4 192 0 0 0 24, net4 192 0 0 170 31, net4 192 0 2 0 24, net4 192 168 0 0 16,
      net4 198 18 0 0 15, net4 198 51 100 0 24, net4 203 0 113 0 24, net4 240 0 0 0 4,
      net4 255 255 255 255 32]"

definition private_exceptions4 :: "ip_network list" where
  "private_exceptions4 = [net4 192 0 0 9 32, net4 192 0 0 10 32]"

definition private_networks6 :: "ip_network list" where
  "private_networks6 =
     [net6 0 0 0 0 0 0 0 1 128, net6 0 0 0 0 0 0 0 0 128, net6 0 0 0 0 0 0xffff 0 0 96,
      net6 0x64 0xff9b 1 0 0 0 0 0 48, net6 0x100 0 0 0 0 0 0 0 64, net6 0x2001 0 0 0 0 0 0 0 23,
      net6 0x2001 0xdb8 0 0 0 0 0 0 32, net6 0x2002 0 0 0 0 0 0 0 16, net6 0xfc00 0 0 0 0 0 0 0 7,
      net6 0xfe80 0 0 0 0 0 0 0 10]"

definition private_exceptions6 :: "ip_network list" where
  "private_exceptions6 =
     [net6 0x2001 1 0 0 0 0 0 1 128, net6 0x2001 1 0 0 0 0 0 2 128, net6 0x2001 3 0 0 0 0 0 0 32,
      net6 0x2001 4 0x112 0 0 0 0 0 48, net6 0x2001 0x20 0 0 0 0 0 0 28,
      net6 0x2001 0x30 0 0 0 0 0 0 28]"

definition multicast4 :: ip_network where "multicast4 = net4 224 0 0 0 4"
definition multicast6 :: ip_network where "multicast6 = net6 0xff00 0 0 0 0 0 0 0 8"
definition shared4 :: ip_network where "shared4 = net4 100 64 0 0 10"

text \<open>An IPv4 address embedded as \<open>::ffff:a.b.c.d\<close>.\<close>

definition ipv4_mapped :: "128 word \<Rightarrow> 32 word option" where
  "ipv4_mapped a = (if drop_bit 32 a = 0xFFFF then Some (ucast (a AND 0xFFFFFFFF)) else None)"

definition is_private4 :: "32 word \<Rightarrow> bool" where
  "is_private4 a \<longleftrightarrow> list_ex (in_network (IPv4 a)) private_networks4
     \<and> list_all (\<lambda>n. \<not> in_network (IPv4 a) n) private_exceptions4"

fun is_private :: "ip_address \<Rightarrow> bool" where
  "is_private (IPv4 a) = is_private4 a"
| "is_private (IPv6 a z) =
     (case ipv4_mapped a of Some b \<Rightarrow> is_private4 b
      | None \<Rightarrow> list_ex (in_network (IPv6 a z)) private_networks6
               \<and> list_all (\<lambda>n. \<not> in_network (IPv6 a z) n) private_exceptions6)"

fun is_global :: "ip_address \<Rightarrow> bool" where
  "is_global (IPv4 a) = (\<not> in_network (IPv4 a) shared4 \<and> \<not> is_private (IPv4 a))"
| "is_global (IPv6 a z) = (\<not> is_private (IPv6 a z))"

fun is_multicast :: "ip_address \<Rightarrow> bool" where
  "is_multicast (IPv4 a) = in_network (IPv4 a) multicast4"
| "is_multicast (IPv6 a z) = in_network (IPv6 a z) multicast6"

fun is_unspecified :: "ip_address \<Rightarrow> bool" where
  "is_unspecified (IPv4 a) = (a = 0)"
| "is_unspecified (IPv6 a z) = (a = 0)"

definition net_is_multicast :: "ip_network \<Rightarrow> bool" where
  "net_is_multicast n \<longleftrightarrow>
     is_multicast (network_address n) \<and> is_multicast (broadcast_address n)"

definition net_is_unspecified :: "ip_network \<Rightarrow> bool" where
  "net_is_unspecified n \<longleftrightarrow>
     is_unspecified (network_address n) \<and> is_unspecified (broadcast_address n)"

fun private_tables :: "ip_network \<Rightarrow> ip_network list \<times> ip_network list" where
  "private_tables (Net4 _ _) = (private_networks4, private_exceptions4)"
| "private_tables (Net6 _ _ _) = (private_networks6, private_exceptions6)"

definition net_is_private :: "ip_network \<Rightarrow> bool" where
  "net_is_private n \<longleftrightarrow>
     list_ex (\<lambda>p. in_network (network_address n) p \<and> in_network (broadcast_address n) p)
       (fst (private_tables n))
     \<and> list_all (\<lambda>e. \<not> in_network (network_address n) e \<and> \<not> in_network (broadcast_address n) e)
       (snd (private_tables n))"

fun net_is_global :: "ip_network \<Rightarrow> bool" where
  "net_is_global (Net4 n p) =
     (\<not> (in_network (network_address (Net4 n p)) shared4
         \<and> in_network (broadcast_address (Net4 n p)) shared4)
      \<and> \<not> net_is_private (Net4 n p))"
| "net_is_global (Net6 n z p) = (\<not> net_is_private (Net6 n z p))"

text \<open>
  The facts that evaluate the operations on closed networks: the simplifier computes on word
  numerals once the masks are written out.
\<close>

lemmas net_eval = net_const_defs aligned_def netmask_eq hostmask_eq mask_eq_exp_minus_1
  last_word_def overlaps_def

section \<open>Membership, containment and overlap as statements about addresses\<close>

text \<open>The numeric value, for interval reasoning across both versions.\<close>

fun addr_nat :: "ip_address \<Rightarrow> nat" where
  "addr_nat (IPv4 a) = unat a"
| "addr_nat (IPv6 a _) = unat a"

fun drop_zone :: "ip_address \<Rightarrow> ip_address" where
  "drop_zone (IPv4 a) = IPv4 a"
| "drop_zone (IPv6 a _) = IPv6 a None"

lemma in_network_iff [net_simps]:
  "wf_network n \<Longrightarrow> in_network a n \<longleftrightarrow>
     version a = net_version n \<and> addr_nat (network_address n) \<le> addr_nat a
     \<and> addr_nat a \<le> addr_nat (broadcast_address n)"
  by (cases n; cases a) (simp_all add: prefix_match_interval word_le_nat_alt)

lemma in_network_version: "in_network a n \<Longrightarrow> version a = net_version n"
  by (cases n; cases a) auto

lemma in_network_drop_zone: "in_network (drop_zone a) n = in_network a n"
  by (cases n; cases a) auto

lemma version_of_network [simp]:
  "version (network_address n) = net_version n" "version (broadcast_address n) = net_version n"
  by (cases n; simp)+

lemma network_nat_le_broadcast [simp]:
  "wf_network n \<Longrightarrow> addr_nat (network_address n) \<le> addr_nat (broadcast_address n)"
  by (cases n) (auto simp flip: word_le_nat_alt)

lemma network_address_in [simp]: "wf_network n \<Longrightarrow> in_network (network_address n) n"
  by (simp add: in_network_iff)

lemma broadcast_address_in [simp]: "wf_network n \<Longrightarrow> in_network (broadcast_address n) n"
  by (simp add: in_network_iff)

lemma addr_lt_nat:
  "version a = version b \<Longrightarrow> addr_lt a b \<longleftrightarrow> addr_nat a < addr_nat b"
  by (cases a; cases b) (simp_all add: word_less_nat_alt)

lemma addr_le_nat: "version a = version b \<Longrightarrow> addr_le a b \<Longrightarrow> addr_nat a \<le> addr_nat b"
  by (auto simp: addr_le_def addr_lt_nat)

text \<open>\<open>subnet_of\<close> proves that every member is inside.\<close>

lemma subnet_of_members:
  assumes "wf_network a" and "wf_network b" and "net_version a = net_version b"
    and "subnet_of a b" and "in_network x a"
  shows "in_network x b"
proof -
  from assms have "addr_nat (network_address b) \<le> addr_nat (network_address a)"
    using addr_le_nat [of "network_address b" "network_address a"] by (simp add: subnet_of_def)
  moreover from assms have "addr_nat (broadcast_address a) \<le> addr_nat (broadcast_address b)"
    by (auto simp: subnet_of_def addr_ge_def addr_lt_nat)
  ultimately show ?thesis using assms by (auto simp: in_network_iff)
qed

text \<open>Conversely, on networks without a zone, containment of all members is \<open>subnet_of\<close>.\<close>

fun zone_free :: "ip_network \<Rightarrow> bool" where
  "zone_free (Net4 _ _) = True"
| "zone_free (Net6 _ z _) = (z = None)"

lemma addr_nat_inject:
  "version a = version b \<Longrightarrow> drop_zone a = a \<Longrightarrow> drop_zone b = b \<Longrightarrow>
     addr_nat a = addr_nat b \<Longrightarrow> a = b"
  by (cases a; cases b) (auto simp: word_unat_eq_iff)

lemma subnet_of_complete:
  assumes "wf_network a" and "wf_network b" and "zone_free a" and "zone_free b"
    and "\<forall>x. in_network x a \<longrightarrow> in_network x b"
  shows "net_version a = net_version b \<and> subnet_of a b"
proof -
  from assms have na: "in_network (network_address a) b" and ba: "in_network (broadcast_address a) b"
    by auto
  then have v: "net_version a = net_version b" by (auto dest: in_network_version)
  have z: "drop_zone (network_address a) = network_address a"
      "drop_zone (network_address b) = network_address b"
    using assms(3,4) by (cases a; cases b; simp)+
  have "addr_nat (network_address b) \<le> addr_nat (network_address a)"
    using na assms by (simp add: in_network_iff)
  then have "addr_le (network_address b) (network_address a)"
    using v z addr_nat_inject [of "network_address b" "network_address a"]
    by (auto simp: addr_le_def addr_lt_nat le_less)
  with ba assms v show ?thesis
    by (auto simp: subnet_of_def addr_ge_def addr_lt_nat in_network_iff)
qed

text \<open>\<open>overlaps\<close> decides whether two networks share an address.\<close>

lemma overlaps_iff:
  assumes "wf_network a" and "wf_network b"
  shows "overlaps a b \<longleftrightarrow> (\<exists>x. in_network x a \<and> in_network x b)"
proof
  assume "overlaps a b"
  with assms show "\<exists>x. in_network x a \<and> in_network x b"
    by (auto simp: overlaps_def intro: network_address_in broadcast_address_in)
next
  assume "\<exists>x. in_network x a \<and> in_network x b"
  with assms show "overlaps a b"
    by (auto simp: overlaps_def in_network_iff)
qed

lemma overlapsI: "wf_network a \<Longrightarrow> wf_network b \<Longrightarrow> in_network x a \<Longrightarrow> in_network x b \<Longrightarrow> overlaps a b"
  by (auto simp: overlaps_iff)

text \<open>
  Disjointness of two tables of networks, compared by the numeric ends of each block: evaluating
  a closed instance computes every end once.
\<close>

definition span :: "ip_network \<Rightarrow> nat \<times> nat \<times> nat" where
  "span n = (net_version n, addr_nat (network_address n), addr_nat (broadcast_address n))"

fun spans_meet :: "nat \<times> nat \<times> nat \<Rightarrow> nat \<times> nat \<times> nat \<Rightarrow> bool" where
  "spans_meet (v, lo, hi) (w, lo', hi') = (v = w \<and> lo \<le> hi' \<and> lo' \<le> hi)"

lemma overlaps_span:
  assumes "wf_network a" and "wf_network b"
  shows "overlaps a b \<longleftrightarrow> spans_meet (span a) (span b)"
proof
  assume "overlaps a b"
  with assms show "spans_meet (span a) (span b)"
    by (auto simp: overlaps_iff in_network_iff span_def)
next
  assume "spans_meet (span a) (span b)"
  with assms show "overlaps a b"
    by (cases "addr_nat (network_address a) \<le> addr_nat (network_address b)")
       (auto simp: overlaps_def in_network_iff span_def)
qed

definition all_apart :: "ip_network list \<Rightarrow> ip_network list \<Rightarrow> bool" where
  "all_apart xs ys \<longleftrightarrow> list_all (\<lambda>x. list_all (\<lambda>y. \<not> overlaps x y) ys) xs"

lemma all_apart_spans:
  assumes "list_all wf_network xs" and "list_all wf_network ys"
  shows "all_apart xs ys
     \<longleftrightarrow> list_all (\<lambda>s. list_all (\<lambda>t. \<not> spans_meet s t) (map span ys)) (map span xs)"
  using assms by (auto simp: all_apart_def list_all_iff overlaps_span)

text \<open>The embedded addresses are exactly the block \<open>::ffff:0:0/96\<close>.\<close>

lemma ipv4_mapped_iff:
  "ipv4_mapped a \<noteq> None \<longleftrightarrow> in_network (IPv6 a z) (net6 0 0 0 0 0 0xffff 0 0 96)"
proof -
  have "drop_bit 32 a = 0xFFFF \<longleftrightarrow> push_bit 32 (drop_bit 32 a) = push_bit 32 (0xFFFF :: 128 word)"
  proof
    assume "push_bit 32 (drop_bit 32 a) = push_bit 32 (0xFFFF :: 128 word)"
    then have "drop_bit 32 (push_bit 32 (drop_bit 32 a)) = drop_bit 32 (push_bit 32 (0xFFFF :: 128 word))"
      by simp
    moreover have "drop_bit 32 (push_bit 32 (drop_bit 32 a)) = drop_bit 32 a"
      by (rule bit_word_eqI) (auto simp: bit_simps dest: bit_imp_le_length)
    ultimately show "drop_bit 32 a = 0xFFFF" by simp
  qed simp
  then show ?thesis
    by (simp add: ipv4_mapped_def net6_def ip6_def and_netmask_eq push_bit_eq_mult)
qed

end
