(* ===== verification/Net_Ranges.thy ===== *)
theory Net_Ranges
  imports Ip_Address
begin

text \<open>
  \<open>backend/app/guard/ranges.py\<close>: the code-defined range tables, the two always-denied checks,
  containment in the allowed ranges and the breadth limits.  The closing lemmas show that the
  two always-denied checks agree on the networks a scope profile can hold: a network that passes
  the network check has no member the address check would refuse.
\<close>

section \<open>The constant tables\<close>

definition BASE_ALLOWED_RANGES :: "ip_network list" where
  "BASE_ALLOWED_RANGES =
     [net4 10 0 0 0 8, net4 172 16 0 0 12, net4 192 168 0 0 16, net6 0xfc00 0 0 0 0 0 0 0 7,
      net4 127 0 0 0 8, net6 0 0 0 0 0 0 0 1 128]"

definition CGNAT_RANGE :: ip_network where
  "CGNAT_RANGE = net4 100 64 0 0 10"

definition LINK_LOCAL_RANGES :: "ip_network list" where
  "LINK_LOCAL_RANGES = [net4 169 254 0 0 16, net6 0xfe80 0 0 0 0 0 0 0 10]"

definition CLOUD_METADATA_NETWORKS :: "ip_network list" where
  "CLOUD_METADATA_NETWORKS =
     [net4 169 254 169 254 32, net6 0xfd00 0xec2 0 0 0 0 0 0x254 128]"

definition DOCUMENTATION_RANGES :: "ip_network list" where
  "DOCUMENTATION_RANGES = [net4 192 0 2 0 24, net4 198 51 100 0 24, net4 203 0 113 0 24]"

definition LIMITED_BROADCAST :: ip_address where
  "LIMITED_BROADCAST = IPv4 (ip4 255 255 255 255)"

definition MIN_IPV4_PREFIX_LENGTH :: nat where "MIN_IPV4_PREFIX_LENGTH = 16"
definition MIN_IPV6_PREFIX_LENGTH :: nat where "MIN_IPV6_PREFIX_LENGTH = 64"

lemmas range_tables = BASE_ALLOWED_RANGES_def CGNAT_RANGE_def LINK_LOCAL_RANGES_def
  CLOUD_METADATA_NETWORKS_def DOCUMENTATION_RANGES_def

section \<open>The checks\<close>

definition allowed_ranges_for :: "bool \<Rightarrow> bool \<Rightarrow> ip_network list" where
  "allowed_ranges_for allow_cgnat allow_link_local =
     BASE_ALLOWED_RANGES @ (if allow_cgnat then [CGNAT_RANGE] else [])
       @ (if allow_link_local then LINK_LOCAL_RANGES else [])"

definition is_always_denied :: "ip_address \<Rightarrow> py_str option" where
  "is_always_denied address =
     (if list_ex (in_network address) CLOUD_METADATA_NETWORKS
        then Some ''cloud-metadata address''
      else if is_multicast address then Some ''multicast address''
      else if address = LIMITED_BROADCAST then Some ''broadcast address''
      else if is_unspecified address then Some ''unspecified address''
      else if list_ex (in_network address) DOCUMENTATION_RANGES
        then Some ''documentation/example address''
      else if is_global address then Some ''public/globally routable address''
      else None)"

definition overlaps_any :: "ip_network \<Rightarrow> ip_network list \<Rightarrow> bool" where
  "overlaps_any network = list_ex (\<lambda>d. net_version network = net_version d \<and> overlaps network d)"

definition network_always_denied :: "ip_network \<Rightarrow> py_str option" where
  "network_always_denied network =
     (if overlaps_any network CLOUD_METADATA_NETWORKS
        then Some ''overlaps the cloud-metadata address''
      else if net_is_multicast network then Some ''multicast range''
      else if net_version network = 4 \<and> overlaps network (net4 255 255 255 255 32)
        then Some ''includes the broadcast address''
      else if net_is_unspecified network then Some ''unspecified address range''
      else if overlaps_any network DOCUMENTATION_RANGES
        then Some ''overlaps a documentation/example range''
      else if net_is_global network then Some ''public/globally routable range''
      else None)"

definition network_within_allowed :: "ip_network \<Rightarrow> ip_network list \<Rightarrow> bool" where
  "network_within_allowed network allowed =
     list_ex (\<lambda>c. net_version network = net_version c \<and> subnet_of network c) allowed"

definition check_prefix_breadth :: "ip_network \<Rightarrow> py_str option" where
  "check_prefix_breadth network =
     (if net_version network = 4 \<and> prefixlen network < MIN_IPV4_PREFIX_LENGTH
        then Some (''/'' @ str_of_nat (prefixlen network)
               @ '' is broader than the MVP limit of /'' @ str_of_nat MIN_IPV4_PREFIX_LENGTH
               @ '' for IPv4'')
      else if net_version network = 6 \<and> prefixlen network < MIN_IPV6_PREFIX_LENGTH
        then Some (''/'' @ str_of_nat (prefixlen network)
               @ '' is broader than the MVP limit of /'' @ str_of_nat MIN_IPV6_PREFIX_LENGTH
               @ '' for IPv6'')
      else None)"

section \<open>What the tables contain\<close>

text \<open>Every range a profile may ever draw from, with both opt-ins.\<close>

abbreviation all_allowed :: "ip_network list" where
  "all_allowed \<equiv> allowed_ranges_for True True"

lemma allowed_ranges_subset: "set (allowed_ranges_for c l) \<subseteq> set all_allowed"
  by (auto simp: allowed_ranges_for_def)

lemma allowed_wf: "r \<in> set (allowed_ranges_for c l) \<Longrightarrow> wf_network r \<and> zone_free r"
proof -
  have "list_all (\<lambda>r. wf_network r \<and> zone_free r) all_allowed"
    by (simp add: allowed_ranges_for_def range_tables net_eval)
  then show "r \<in> set (allowed_ranges_for c l) \<Longrightarrow> wf_network r \<and> zone_free r"
    using allowed_ranges_subset [of c l] by (auto simp: list_all_iff)
qed

lemma tables_wf:
  "list_all wf_network (CLOUD_METADATA_NETWORKS @ DOCUMENTATION_RANGES @ private_networks4
     @ private_exceptions4 @ private_networks6 @ private_exceptions6
     @ [multicast4, multicast6, shared4, net4 255 255 255 255 32])"
  by (simp add: range_tables private_networks4_def private_exceptions4_def private_networks6_def
      private_exceptions6_def multicast4_def multicast6_def shared4_def net_eval)

text \<open>
  The allowed ranges meet none of: the multicast blocks, the broadcast and unspecified
  addresses, the documentation blocks, the exceptions of the private registry and the block of
  embedded IPv4 addresses.
\<close>

definition foreign_blocks :: "ip_network list" where
  "foreign_blocks = [multicast4, multicast6, net4 255 255 255 255 32, net4 0 0 0 0 32,
     net6 0 0 0 0 0 0 0 0 128, net6 0 0 0 0 0 0xffff 0 0 96] @ DOCUMENTATION_RANGES
     @ private_exceptions4 @ private_exceptions6"

lemma foreign_wf: "list_all wf_network foreign_blocks"
  by (simp add: foreign_blocks_def range_tables private_exceptions4_def private_exceptions6_def
      multicast4_def multicast6_def net_eval)

lemma allowed_apart: "all_apart all_allowed foreign_blocks"
proof -
  have wf: "list_all wf_network all_allowed"
    using allowed_wf by (simp add: list_all_iff)
  show ?thesis
    unfolding all_apart_spans [OF wf foreign_wf]
    by (simp add: foreign_blocks_def allowed_ranges_for_def range_tables private_exceptions4_def
        private_exceptions6_def multicast4_def multicast6_def span_def net_eval)
qed

lemma allowed_not_foreign:
  assumes "r \<in> set (allowed_ranges_for c l)" and "in_network a r" and "f \<in> set foreign_blocks"
  shows "\<not> in_network a f"
proof
  assume "in_network a f"
  with assms have "overlaps r f"
    using allowed_wf foreign_wf by (intro overlapsI [of r f a]) (auto simp: list_all_iff)
  moreover have "r \<in> set all_allowed" using assms(1) allowed_ranges_subset by blast
  ultimately show False using allowed_apart assms(3) by (auto simp: all_apart_def list_all_iff)
qed

text \<open>Each allowed range is a row of the private registry, or the shared CGNAT block.\<close>

lemma allowed_registered:
  "set all_allowed \<subseteq> set (private_networks4 @ private_networks6) \<union> {shared4}"
  by (simp add: allowed_ranges_for_def range_tables private_networks4_def private_networks6_def
      shared4_def)

lemma allowed_not_mapped:
  assumes "r \<in> set (allowed_ranges_for c l)" and "in_network (IPv6 w z) r"
  shows "ipv4_mapped w = None"
  using allowed_not_foreign [OF assms, of "net6 0 0 0 0 0 0xffff 0 0 96"] ipv4_mapped_iff [of w z]
  by (auto simp: foreign_blocks_def)

lemma allowed_not_global:
  assumes r: "r \<in> set (allowed_ranges_for c l)" and a: "in_network a r"
  shows "\<not> is_global a"
proof (cases a)
  case (IPv4 w)
  have "\<not> list_ex (in_network a) private_exceptions4"
    using allowed_not_foreign [OF r a] by (auto simp: foreign_blocks_def list_ex_iff)
  moreover have "list_ex (in_network a) private_networks4 \<or> in_network a shared4"
    using allowed_registered allowed_ranges_subset [of c l] r a tables_wf in_network_version [OF a]
    by (auto simp: list_ex_iff IPv4 private_networks6_def net6_def)
  ultimately show ?thesis by (auto simp: IPv4 is_private4_def list_ex_iff list_all_iff)
next
  case (IPv6 w z)
  have "\<not> list_ex (in_network a) private_exceptions6"
    using allowed_not_foreign [OF r a] by (auto simp: foreign_blocks_def list_ex_iff)
  moreover have "list_ex (in_network a) private_networks6"
    using allowed_registered allowed_ranges_subset [of c l] r a
    by (auto simp: list_ex_iff IPv6 private_networks4_def shared4_def net4_def)
  moreover have "ipv4_mapped w = None"
    using allowed_not_mapped [OF r] a by (simp add: IPv6)
  ultimately show ?thesis by (auto simp: IPv6 list_ex_iff list_all_iff)
qed

text \<open>
  Inside the allowed ranges the address check refuses exactly the cloud-metadata addresses.
\<close>

lemma always_denied_in_allowed:
  assumes r: "r \<in> set (allowed_ranges_for c l)" and a: "in_network a r"
  shows "is_always_denied a =
    (if list_ex (in_network a) CLOUD_METADATA_NETWORKS then Some ''cloud-metadata address''
     else None)"
proof -
  note apart = allowed_not_foreign [OF r a]
  have "\<not> is_multicast a"
    using apart [of multicast4] apart [of multicast6] by (cases a) (auto simp: foreign_blocks_def)
  moreover have "a \<noteq> LIMITED_BROADCAST"
    using apart [of "net4 255 255 255 255 32"]
    by (auto simp: foreign_blocks_def LIMITED_BROADCAST_def net_eval)
  moreover have "\<not> is_unspecified a"
    using apart [of "net4 0 0 0 0 32"] apart [of "net6 0 0 0 0 0 0 0 0 128"]
    by (cases a) (auto simp: foreign_blocks_def net_eval)
  moreover have "\<not> list_ex (in_network a) DOCUMENTATION_RANGES"
    using apart by (auto simp: foreign_blocks_def list_ex_iff)
  moreover have "\<not> is_global a" by (rule allowed_not_global [OF r a])
  ultimately show ?thesis by (simp add: is_always_denied_def)
qed

lemma metadata_version: "d \<in> set CLOUD_METADATA_NETWORKS \<Longrightarrow> wf_network d"
  using tables_wf by (auto simp: list_all_iff)

text \<open>A network the network check lets through holds no cloud-metadata address.\<close>

lemma not_denied_no_metadata:
  assumes "wf_network n" and "network_always_denied n = None" and "in_network a n"
  shows "\<not> list_ex (in_network a) CLOUD_METADATA_NETWORKS"
proof
  assume "list_ex (in_network a) CLOUD_METADATA_NETWORKS"
  then obtain d where d: "d \<in> set CLOUD_METADATA_NETWORKS" "in_network a d"
    by (auto simp: list_ex_iff)
  then have "overlaps n d"
    using assms(1,3) metadata_version by (auto intro: overlapsI)
  moreover have "net_version n = net_version d"
    using d(2) assms(3) by (metis in_network_version)
  ultimately have "net_version n = net_version d \<and> overlaps n d" by simp
  with d assms(2) show False
    by (auto simp: network_always_denied_def overlaps_any_def list_ex_iff split: if_splits)
qed

lemma within_allowed_members:
  assumes "network_within_allowed n rs" and "wf_network n" and "\<forall>r \<in> set rs. wf_network r"
    and "in_network a n"
  shows "\<exists>r \<in> set rs. in_network a r"
  using assms by (auto simp: network_within_allowed_def list_ex_iff intro: subnet_of_members)

text \<open>The network check is sound for the address check.  No member of a network that passed both
  network checks, always-denied and containment in the allowed ranges, is refused by the check
  every single connection makes: a CIDR is accepted or refused as a whole, without enumeration.\<close>

theorem network_checks_cover_members:
  assumes "wf_network n" and "network_always_denied n = None"
    and "network_within_allowed n (allowed_ranges_for c l)" and "in_network a n"
  shows "is_always_denied a = None"
proof -
  obtain r where "r \<in> set (allowed_ranges_for c l)" "in_network a r"
    using within_allowed_members assms allowed_wf by blast
  then show ?thesis
    using assms not_denied_no_metadata by (simp add: always_denied_in_allowed)
qed

lemma network_checks_cover_members_witness:
  "is_always_denied (IPv4 (ip4 192 168 1 10)) = None"
proof (rule network_checks_cover_members)
  let ?n = "net4 192 168 1 0 24"
  show "wf_network ?n" by (simp add: net_eval)
  show "network_always_denied ?n = None"
    by (simp add: network_always_denied_def overlaps_any_def range_tables net_is_multicast_def
        multicast4_def net_is_unspecified_def net_is_private_def shared4_def
        private_networks4_def private_exceptions4_def net_eval)
  show "network_within_allowed ?n (allowed_ranges_for False False)"
    by (simp add: network_within_allowed_def allowed_ranges_for_def range_tables net_eval
        subnet_of_def addr_le_def addr_ge_def)
  show "in_network (IPv4 (ip4 192 168 1 10)) ?n" by (simp add: net_eval)
qed

end
