(* ===== verification/Ip_Text.thy ===== *)
theory Ip_Text
  imports Ip_Address
begin

text \<open>
  Reading and printing addresses and networks: the standard library's \<open>ip_address\<close>,
  \<open>ip_network(text, strict=False)\<close> and \<open>str\<close>, step by step.  A value of \<open>None\<close> is the
  \<open>ValueError\<close> the module raises; its only text the callers can see is the one of
  \<open>not_an_address\<close> and \<open>not_a_network\<close> below.
\<close>

section \<open>Version 4\<close>

definition parse_octet :: "py_str \<Rightarrow> nat option" where
  "parse_octet s =
     (if s = [] then None
      else if \<not> list_all is_digit s then None
      else if length s > 3 then None
      else if s \<noteq> ''0'' \<and> hd s = CHR ''0'' then None
      else if nat_of_digits s > 255 then None
      else Some (nat_of_digits s))"

definition ip4_of_string :: "py_str \<Rightarrow> 32 word option" where
  "ip4_of_string s =
     (if s = [] then None
      else case map parse_octet (split_on CHR ''.'' s) of
        [Some a, Some b, Some c, Some d] \<Rightarrow> Some (ip4 a b c d)
      | _ \<Rightarrow> None)"

definition string_of_ip4 :: "32 word \<Rightarrow> py_str" where
  "string_of_ip4 w =
     join ''.'' (map str_of_nat
       [unat w div 16777216, unat w div 65536 mod 256, unat w div 256 mod 256, unat w mod 256])"

text \<open>Prefix lengths: decimal digits, or for version 4 a dotted netmask or hostmask.\<close>

definition prefix_of_digits :: "nat \<Rightarrow> py_str \<Rightarrow> nat option" where
  "prefix_of_digits width s =
     (if s \<noteq> [] \<and> list_all is_digit s \<and> nat_of_digits s \<le> width then Some (nat_of_digits s)
      else None)"

fun trailing_zeros :: "nat \<Rightarrow> nat" where
  "trailing_zeros n = (if n = 0 \<or> odd n then 0 else Suc (trailing_zeros (n div 2)))"

declare trailing_zeros.simps [simp del]

definition prefix_of_mask :: "nat \<Rightarrow> nat option" where
  "prefix_of_mask n =
     (let tz = (if n = 0 then 32 else min 32 (trailing_zeros n)); p = 32 - tz
      in if n div 2 ^ tz = 2 ^ p - 1 then Some p else None)"

definition prefix_of_ip_string :: "py_str \<Rightarrow> nat option" where
  "prefix_of_ip_string s =
     (case ip4_of_string s of
        None \<Rightarrow> None
      | Some m \<Rightarrow>
         (case prefix_of_mask (unat m) of
            Some p \<Rightarrow> Some p
          | None \<Rightarrow> prefix_of_mask (unat (m XOR all_ones))))"

section \<open>Version 6\<close>

definition parse_hextet :: "py_str \<Rightarrow> nat option" where
  "parse_hextet s =
     (if list_all is_hex_digit s \<and> length s \<le> 4 \<and> s \<noteq> [] then Some (nat_of_hex s) else None)"

fun parse_hextets :: "py_str list \<Rightarrow> nat list option" where
  "parse_hextets [] = Some []"
| "parse_hextets (p # ps) =
     (case parse_hextet p of None \<Rightarrow> None
      | Some v \<Rightarrow> (case parse_hextets ps of None \<Rightarrow> None | Some vs \<Rightarrow> Some (v # vs)))"

text \<open>An IPv4 suffix is replaced by its two hextets.\<close>

definition expand_suffix :: "py_str list \<Rightarrow> py_str list option" where
  "expand_suffix parts =
     (if CHR ''.'' \<in> set (last parts) then
        (case ip4_of_string (last parts) of None \<Rightarrow> None
         | Some w \<Rightarrow> Some (butlast parts
             @ [hex_of_nat (unat w div 65536 mod 65536), hex_of_nat (unat w mod 65536)]))
      else Some parts)"

text \<open>The inner positions that are empty, from \<open>::\<close>.\<close>

definition skips :: "py_str list \<Rightarrow> nat list" where
  "skips parts = filter (\<lambda>i. parts ! i = []) [1..<length parts - 1]"

text \<open>How many parts are read before and after the \<open>::\<close>, and how many zeros it stands for.\<close>

definition layout :: "py_str list \<Rightarrow> (nat \<times> nat \<times> nat) option" where
  "layout parts =
     (case skips parts of
        [] \<Rightarrow>
         (if length parts \<noteq> 8 then None
          else if hd parts = [] then None
          else if last parts = [] then None
          else Some (8, 0, 0))
      | [k] \<Rightarrow>
         (let hi = (if hd parts = [] then k - 1 else k);
              lo = (if last parts = [] then length parts - k - 2 else length parts - k - 1)
          in if hd parts = [] \<and> hi \<noteq> 0 then None
             else if last parts = [] \<and> lo \<noteq> 0 then None
             else if 8 < hi + lo + 1 then None
             else Some (hi, lo, 8 - (hi + lo)))
      | _ \<Rightarrow> None)"

definition ip6_of_string :: "py_str \<Rightarrow> 128 word option" where
  "ip6_of_string s =
     (if s = [] then None
      else let parts = split_on CHR '':'' s in
        if length parts < 3 then None
        else case expand_suffix parts of None \<Rightarrow> None
        | Some parts \<Rightarrow>
           (if length parts > 9 then None
            else case layout parts of None \<Rightarrow> None
            | Some (hi, lo, skipped) \<Rightarrow>
               (case (parse_hextets (take hi parts),
                      parse_hextets (drop (length parts - lo) parts)) of
                  (Some hs, Some ls) \<Rightarrow>
                    Some (of_nat (foldl (\<lambda>n v. n * 65536 + v) 0 (hs @ replicate skipped 0 @ ls)))
                | _ \<Rightarrow> None)))"

definition split_scope_id :: "py_str \<Rightarrow> (py_str \<times> py_str option) option" where
  "split_scope_id s =
     (case partition_on CHR 0x25 s of
        (a, False, _) \<Rightarrow> Some (a, None)
      | (a, True, z) \<Rightarrow> if z = [] \<or> CHR 0x25 \<in> set z then None else Some (a, Some z))"

text \<open>
  Printing: the longest run of at least two zero hextets becomes \<open>::\<close>, the first one of several
  of the same length.  The state of the scan is the best run and the current one.
\<close>

fun scan_zeros :: "nat \<Rightarrow> py_str list \<Rightarrow> int \<times> nat \<Rightarrow> int \<times> nat \<Rightarrow> int \<times> nat" where
  "scan_zeros i [] best cur = best"
| "scan_zeros i (h # hs) (bs, bl) (cs, cl) =
     (if h = ''0'' then
        (let cl' = cl + 1; cs' = (if cs = -1 then int i else cs)
         in if cl' > bl then scan_zeros (i + 1) hs (cs', cl') (cs', cl')
            else scan_zeros (i + 1) hs (bs, bl) (cs', cl'))
      else scan_zeros (i + 1) hs (bs, bl) (-1, 0))"

definition compress_hextets :: "py_str list \<Rightarrow> py_str list" where
  "compress_hextets hs =
     (case scan_zeros 0 hs (-1, 0) (-1, 0) of (bs, bl) \<Rightarrow>
        if bl > 1 then
          (let s = nat bs; e = s + bl;
               hs' = (if e = length hs then hs @ [[]] else hs);
               mid = take s hs' @ [[]] @ drop e hs'
           in if s = 0 then [] # mid else mid)
        else hs)"

definition hextets_of :: "128 word \<Rightarrow> nat list" where
  "hextets_of w = map (\<lambda>i. unat w div 65536 ^ (7 - i) mod 65536) [0..<8]"

definition string_of_ip6 :: "128 word \<Rightarrow> py_str" where
  "string_of_ip6 w = join '':'' (compress_hextets (map hex_of_nat (hextets_of w)))"

section \<open>The module's entry points\<close>

fun str_addr :: "ip_address \<Rightarrow> py_str" where
  "str_addr (IPv4 w) = string_of_ip4 w"
| "str_addr (IPv6 w z) =
     (case z of None \<Rightarrow> string_of_ip6 w
      | Some zone \<Rightarrow> if zone = [] then string_of_ip6 w else string_of_ip6 w @ CHR 0x25 # zone)"

definition str_network :: "ip_network \<Rightarrow> py_str" where
  "str_network n = str_addr (network_address n) @ CHR ''/'' # str_of_nat (prefixlen n)"

definition IPv4Address :: "py_str \<Rightarrow> 32 word option" where
  "IPv4Address s = (if CHR ''/'' \<in> set s then None else ip4_of_string s)"

definition IPv6Address :: "py_str \<Rightarrow> (128 word \<times> py_str option) option" where
  "IPv6Address s =
     (if CHR ''/'' \<in> set s then None
      else case split_scope_id s of None \<Rightarrow> None
      | Some (a, z) \<Rightarrow> map_option (\<lambda>w. (w, z)) (ip6_of_string a))"

definition py_ip_address :: "py_str \<Rightarrow> ip_address option" where
  "py_ip_address s =
     (case IPv4Address s of
        Some w \<Rightarrow> Some (IPv4 w)
      | None \<Rightarrow> map_option (\<lambda>(w, z). IPv6 w z) (IPv6Address s))"

definition IPv4Network :: "py_str \<Rightarrow> ip_network option" where
  "IPv4Network s =
     (let build = (\<lambda>addr p. map_option (\<lambda>w. Net4 (w AND netmask p) p) (IPv4Address addr)) in
      case split_on CHR ''/'' s of
        [addr] \<Rightarrow> build addr 32
      | [addr, m] \<Rightarrow>
         (case prefix_of_digits 32 m of
            Some p \<Rightarrow> build addr p
          | None \<Rightarrow> (case prefix_of_ip_string m of Some p \<Rightarrow> build addr p | None \<Rightarrow> None))
      | _ \<Rightarrow> None)"

definition IPv6Network :: "py_str \<Rightarrow> ip_network option" where
  "IPv6Network s =
     (let build = (\<lambda>addr p. map_option (\<lambda>(w, z).
            if w AND netmask p = w then Net6 w z p else Net6 (w AND netmask p) None p)
            (IPv6Address addr)) in
      case split_on CHR ''/'' s of
        [addr] \<Rightarrow> build addr 128
      | [addr, m] \<Rightarrow>
         (case prefix_of_digits 128 m of Some p \<Rightarrow> build addr p | None \<Rightarrow> None)
      | _ \<Rightarrow> None)"

definition py_ip_network :: "py_str \<Rightarrow> ip_network option" where
  "py_ip_network s = (case IPv4Network s of Some n \<Rightarrow> Some n | None \<Rightarrow> IPv6Network s)"

definition not_an_address :: "py_str \<Rightarrow> py_str" where
  "not_an_address s = py_repr s @ '' does not appear to be an IPv4 or IPv6 address''"

definition not_a_network :: "py_str \<Rightarrow> py_str" where
  "not_a_network s = py_repr s @ '' does not appear to be an IPv4 or IPv6 network''"

section \<open>Reading back what was printed\<close>

lemma parse_octet_str_of_nat: "n < 256 \<Longrightarrow> parse_octet (str_of_nat n) = Some n"
proof -
  assume n: "n < 256"
  have "str_of_nat n = ''0''" if "hd (str_of_nat n) = CHR ''0''"
  proof -
    from that have "str_of_nat n = digit_char 0 # tl (str_of_nat n)"
      by (metis digit_char_0 list.collapse str_of_nat_not_Nil)
    then show ?thesis by (metis str_of_nat_no_leading_zero str_of_nat_0)
  qed
  then show ?thesis
    using n length_str_of_nat_le3 [of n] by (auto simp: parse_octet_def list_all_digits)
qed

lemma ip4_octets:
  "ip4 (unat w div 16777216) (unat w div 65536 mod 256) (unat w div 256 mod 256) (unat w mod 256) = w"
proof -
  let ?u = "unat w"
  have "?u div 65536 = ?u div 256 div 256" "?u div 16777216 = ?u div 65536 div 256"
    by (simp_all flip: div_mult2_eq)
  then have "((?u div 16777216 * 256 + ?u div 65536 mod 256) * 256 + ?u div 256 mod 256) * 256
      + ?u mod 256 = ?u"
    by (simp only: div_mult_mod_eq)
  then show ?thesis by (simp only: ip4_def) simp
qed

lemma ip4_round_trip: "ip4_of_string (string_of_ip4 w) = Some w"
proof -
  have lt: "unat w < 4294967296" using unsigned_less [where w = w and 'a = nat] by simp
  have "split_on CHR ''.'' (string_of_ip4 w) = map str_of_nat
       [unat w div 16777216, unat w div 65536 mod 256, unat w div 256 mod 256, unat w mod 256]"
    unfolding string_of_ip4_def by (rule split_on_join) (auto simp: str_of_nat_no_char is_digit_def)
  moreover have "string_of_ip4 w \<noteq> []" by (simp add: string_of_ip4_def)
  ultimately show ?thesis
    using lt ip4_octets [of w] by (simp add: ip4_of_string_def parse_octet_str_of_nat less_mult_imp_div_less)
qed

lemma string_of_ip4_chars: "c \<in> set (string_of_ip4 w) \<Longrightarrow> is_digit c \<or> c = CHR ''.''"
  using set_join [of "''.''"] unfolding string_of_ip4_def by (fastforce dest: str_of_nat_digits)

lemma py_ip_address_str4: "py_ip_address (str_addr (IPv4 w)) = Some (IPv4 w)"
  using string_of_ip4_chars [of "CHR ''/''" w]
  by (auto simp: py_ip_address_def IPv4Address_def ip4_round_trip is_digit_def)

section \<open>Networks are well formed, and read back\<close>

lemma prefix_of_digits_le: "prefix_of_digits w s = Some p \<Longrightarrow> p \<le> w"
  by (auto simp: prefix_of_digits_def split: if_splits)

lemma prefix_of_ip_string_le: "prefix_of_ip_string s = Some p \<Longrightarrow> p \<le> 32"
  by (auto simp: prefix_of_ip_string_def prefix_of_mask_def Let_def split: if_splits option.splits)

lemma py_ip_network_wf: "py_ip_network s = Some n \<Longrightarrow> wf_network n"
  by (auto simp: py_ip_network_def IPv4Network_def IPv6Network_def Let_def aligned_def
      dest: prefix_of_digits_le prefix_of_ip_string_le split: option.splits list.splits if_splits)

lemma prefix_of_digits_str: "p \<le> w \<Longrightarrow> prefix_of_digits w (str_of_nat p) = Some p"
  by (simp add: prefix_of_digits_def list_all_digits)

lemma py_ip_network_str4:
  assumes "wf_network (Net4 n p)"
  shows "py_ip_network (str_network (Net4 n p)) = Some (Net4 n p)"
proof -
  have "CHR ''/'' \<notin> set (string_of_ip4 n)"
    using string_of_ip4_chars [of "CHR ''/''" n] by (auto simp: is_digit_def)
  moreover have "CHR ''/'' \<notin> set (str_of_nat p)" by (simp add: str_of_nat_no_char is_digit_def)
  ultimately show ?thesis using assms
    by (simp add: py_ip_network_def IPv4Network_def str_network_def split_on_append split_on_no_sep
        prefix_of_digits_str IPv4Address_def ip4_round_trip aligned_def)
qed

text \<open>Distinct version 4 addresses print differently, so the printed form can be a key.\<close>

lemma str_addr4_inject: "str_addr (IPv4 v) = str_addr (IPv4 w) \<longleftrightarrow> v = w"
  by (metis ip_address.inject(1) option.inject py_ip_address_str4)

lemma str_addr4_chars: "c \<in> set (str_addr (IPv4 w)) \<Longrightarrow> is_digit c \<or> c = CHR ''.''"
  using string_of_ip4_chars by simp

lemma str_addr4_plain:
  "str_addr (IPv4 w) \<noteq> []" "CHR ''/'' \<notin> set (str_addr (IPv4 w))"
  "py_strip (str_addr (IPv4 w)) = str_addr (IPv4 w)"
proof -
  show "CHR ''/'' \<notin> set (str_addr (IPv4 w))"
    using str_addr4_chars [of "CHR ''/''" w] by (auto simp: is_digit_def)
  show "py_strip (str_addr (IPv4 w)) = str_addr (IPv4 w)"
    using str_addr4_chars is_digit_not_space
    by (intro py_strip_no_space) (fastforce simp: is_space_def)
  show "str_addr (IPv4 w) \<noteq> []"
    using py_ip_address_str4 [of w] by (auto simp: py_ip_address_def IPv4Address_def ip4_of_string_def
        IPv6Address_def split: option.splits)
qed

lemma str_net4_plain:
  "CHR ''/'' \<in> set (str_network (Net4 n p))" "str_network (Net4 n p) \<noteq> []"
  "py_strip (str_network (Net4 n p)) = str_network (Net4 n p)"
proof -
  show "CHR ''/'' \<in> set (str_network (Net4 n p))" "str_network (Net4 n p) \<noteq> []"
    by (simp_all add: str_network_def)
  have "\<not> is_space c" if "c \<in> set (str_network (Net4 n p))" for c
    using that str_addr4_chars [of c n] str_of_nat_digits [of c p] is_digit_not_space [of c]
    by (auto simp: str_network_def is_space_def simp del: str_addr.simps)
  then show "py_strip (str_network (Net4 n p)) = str_network (Net4 n p)"
    by (intro py_strip_no_space) simp
qed

end
