(* ===== verification/Ledger.thy ===== *)
theory Ledger
  imports Domain
begin

text \<open>
  \<open>backend/app/guard/ledger.py\<close>: the entries of the audit ledger, the write interface the guard
  records through, and the in-process sink.  The interface is a locale: whatever the sink, a
  record is an append to the log, and nothing that was logged is lost or changed.  The database
  sink of \<open>db/ledger.py\<close> is its other provider, in \<open>Database_Ledger\<close>.
\<close>

datatype decision = Allowed | Denied

fun decision_str :: "decision \<Rightarrow> py_str" where
  "decision_str Allowed = ''allowed''"
| "decision_str Denied = ''denied''"

text \<open>The arguments of \<open>LedgerSink.record\<close>; \<open>recorded_at\<close> is the sink's business.\<close>

record ledger_args =
  le_destination :: py_str
  le_port :: "int option"
  le_module :: py_str
  le_decision :: decision
  le_reason :: py_str
  le_outcome :: py_str

record ledger_entry = ledger_args +
  le_recorded_at :: int

section \<open>The write interface\<close>

text \<open>
  \<open>ok\<close> is what the sink needs of its storage: the in-process one nothing, the database the row of
  the scan it records for.
\<close>

locale ledger_sink =
  fixes sink :: "ledger_args \<Rightarrow> 'l \<Rightarrow> 'l"
    and logged :: "'l \<Rightarrow> ledger_args list"
    and ok :: "'l \<Rightarrow> bool"
  assumes sink_appends: "ok l \<Longrightarrow> logged (sink e l) = logged l @ [e]"
    and sink_ok: "ok l \<Longrightarrow> ok (sink e l)"
begin

lemma sink_all_ok: "ok l \<Longrightarrow> ok (fold sink es l)"
  by (induction es arbitrary: l) (simp_all add: sink_ok)

lemma sink_all_appends: "ok l \<Longrightarrow> logged (fold sink es l) = logged l @ es"
  by (induction es arbitrary: l) (simp_all add: sink_appends sink_ok)

end

section \<open>The in-process sink\<close>

text \<open>
  The clock is the sequence of readings of \<open>datetime.now(UTC)\<close>; the entry that is appended at
  position \<open>n\<close> carries the \<open>n\<close>-th reading.
\<close>

record mem_ledger =
  entries :: "ledger_entry list"
  clock :: "nat \<Rightarrow> int"

definition stamp :: "ledger_args \<Rightarrow> int \<Rightarrow> ledger_entry" where
  "stamp e t = ledger_args.extend e \<lparr>le_recorded_at = t\<rparr>"

definition mem_record :: "ledger_args \<Rightarrow> mem_ledger \<Rightarrow> mem_ledger" where
  "mem_record e l = l\<lparr>entries := entries l @ [stamp e (clock l (length (entries l)))]\<rparr>"

definition mem_denied :: "mem_ledger \<Rightarrow> ledger_entry list" where
  "mem_denied l = filter (\<lambda>e. le_decision e = Denied) (entries l)"

definition mem_allowed :: "mem_ledger \<Rightarrow> ledger_entry list" where
  "mem_allowed l = filter (\<lambda>e. le_decision e = Allowed) (entries l)"

definition mem_log :: "mem_ledger \<Rightarrow> ledger_args list" where
  "mem_log l = map ledger_args.truncate (entries l)"

lemma truncate_stamp [simp]: "ledger_args.truncate (stamp e t) = e"
  by (simp add: stamp_def ledger_args.defs)

interpretation mem: ledger_sink mem_record mem_log "\<lambda>_. True"
  by unfold_locales (simp_all add: mem_record_def mem_log_def)

text \<open>Every entry is on exactly one of the two views.\<close>

lemma not_denied [simp]: "d \<noteq> Denied \<longleftrightarrow> d = Allowed"
  by (cases d) simp_all

lemma mem_views_partition:
  "length (mem_denied l) + length (mem_allowed l) = length (entries l)"
  using sum_length_filter_compl [of "\<lambda>e. le_decision e = Denied" "entries l"]
  by (simp add: mem_denied_def mem_allowed_def)

end
