(* ===== verification/Scan_Guard.thy ===== *)
theory Scan_Guard
  imports Net_Ranges Ip_Text Ledger Governor
begin

text \<open>
  \<open>backend/app/guard/scanguard.py\<close> and \<open>backend/app/guard/resolver.py\<close>: scope profiles, the
  validation of a target and the only operation that opens a socket to one.  The operating
  system (\<open>getaddrinfo\<close>, the outcome of a connect, the outcome of the stream upgrade) and the
  ledger behind the sink are parameters.  A method that may raise returns \<open>Inl\<close> of the exception.
\<close>

section \<open>The resolver\<close>

datatype resolver_exn = ResolutionError py_str | BadAddress py_str

text \<open>\<open>dict.fromkeys\<close>: the first occurrence of each element, in order.\<close>

fun first_occurrences :: "'a list \<Rightarrow> 'a list" where
  "first_occurrences [] = []"
| "first_occurrences (x # xs) = x # first_occurrences (filter (\<lambda>y. y \<noteq> x) xs)"

definition resolve_hostname ::
  "(py_str \<Rightarrow> py_str + py_str list) \<Rightarrow> py_str \<Rightarrow> resolver_exn + ip_address list" where
  "resolve_hostname getaddrinfo hostname =
     (case getaddrinfo hostname of
        Inl e \<Rightarrow> Inl (ResolutionError (''could not resolve '' @ py_repr hostname @ '': '' @ e))
      | Inr infos \<Rightarrow>
          (case map_sum_list (\<lambda>t. case py_ip_address t of None \<Rightarrow> Inl (BadAddress (not_an_address t))
                                                       | Some a \<Rightarrow> Inr a) infos of
             Inl e \<Rightarrow> Inl e
           | Inr addrs \<Rightarrow>
               (if first_occurrences addrs = []
                then Inl (ResolutionError (py_repr hostname @ '' resolved to no addresses''))
                else Inr (first_occurrences addrs))))"

lemma set_first_occurrences [simp]: "set (first_occurrences xs) = set xs"
  by (induction xs rule: first_occurrences.induct) auto

lemma distinct_first_occurrences [simp]: "distinct (first_occurrences xs)"
  by (induction xs rule: first_occurrences.induct) auto

section \<open>Scope profiles\<close>

record scope_profile =
  sp_name :: py_str
  sp_entries :: "py_str list"
  sp_networks :: "ip_network list"
  sp_allow_cgnat :: bool
  sp_allow_link_local :: bool

text \<open>The error is the message of \<open>ScopeValidationError\<close>.\<close>

definition parse_scope_entry :: "py_str \<Rightarrow> py_str + ip_network" where
  "parse_scope_entry raw =
     (let txt = py_strip raw in
      if txt = [] then Inl ''an empty scope entry is not valid''
      else (case py_ip_network txt of
              Some n \<Rightarrow> Inr n
            | None \<Rightarrow> Inl (py_repr raw @ '' is not a valid IP address or CIDR - scope profiles accept ''
                            @ ''literal addresses and CIDRs only'')))"

definition check_entry :: "ip_network list \<Rightarrow> py_str \<Rightarrow> py_str + ip_network" where
  "check_entry allowed raw =
     bind_sum (parse_scope_entry raw) (\<lambda>network.
       case check_prefix_breadth network of
         Some problem \<Rightarrow> Inl (py_repr raw @ '' is too broad: '' @ problem)
       | None \<Rightarrow>
           if \<not> network_within_allowed network allowed
           then Inl (py_repr raw @ '' is not inside the allowed private ranges ''
                  @ ''(RFC1918, IPv6 ULA, loopback; CGNAT and link-local require opt-in)'')
           else Inr network)"

definition create_scope :: "py_str \<Rightarrow> py_str list \<Rightarrow> bool \<Rightarrow> bool \<Rightarrow> py_str + scope_profile" where
  "create_scope name raw_entries allow_cgnat allow_link_local =
     (if raw_entries = [] then Inl ''a scope profile needs at least one entry''
      else bind_sum (map_sum_list (check_entry (allowed_ranges_for allow_cgnat allow_link_local))
                       raw_entries)
        (\<lambda>networks. Inr \<lparr>sp_name = name, sp_entries = raw_entries, sp_networks = networks,
           sp_allow_cgnat = allow_cgnat, sp_allow_link_local = allow_link_local\<rparr>))"

definition contains_address :: "scope_profile \<Rightarrow> ip_address \<Rightarrow> bool" where
  "contains_address scope address = list_ex (in_network address) (sp_networks scope)"

definition contains_network :: "scope_profile \<Rightarrow> ip_network \<Rightarrow> bool" where
  "contains_network scope network = network_within_allowed network (sp_networks scope)"

section \<open>Validated targets\<close>

record validated_target =
  vt_raw :: py_str
  vt_kind :: target_type
  vt_addresses :: "ip_address list"
  vt_network :: "ip_network option"

definition covers :: "validated_target \<Rightarrow> ip_address \<Rightarrow> bool" where
  "covers target address =
     (case vt_network target of
        Some network \<Rightarrow> in_network address network
      | None \<Rightarrow> address \<in> set (vt_addresses target))"

definition MODULE_NAME :: py_str where "MODULE_NAME = ''scanguard''"

definition in_scope_reason :: py_str where
  "in_scope_reason = ''inside the active scope profile''"

definition denied_entry :: "py_str \<Rightarrow> int option \<Rightarrow> py_str \<Rightarrow> ledger_args" where
  "denied_entry destination port reason =
     \<lparr>le_destination = destination, le_port = port, le_module = MODULE_NAME,
      le_decision = Denied, le_reason = reason, le_outcome = ''rejected''\<rparr>"

definition allowed_entry :: "py_str \<Rightarrow> int option \<Rightarrow> py_str \<Rightarrow> ledger_args" where
  "allowed_entry destination port outcome =
     \<lparr>le_destination = destination, le_port = port, le_module = MODULE_NAME,
      le_decision = Allowed, le_reason = in_scope_reason, le_outcome = outcome\<rparr>"

type_synonym 'l sink = "ledger_args \<Rightarrow> 'l \<Rightarrow> 'l"
type_synonym resolver = "py_str \<Rightarrow> resolver_exn + ip_address list"

definition deny :: "'l sink \<Rightarrow> py_str \<Rightarrow> int option \<Rightarrow> py_str \<Rightarrow> 'l \<Rightarrow> (guard_exn + 'b) \<times> 'l" where
  "deny sink destination port reason l =
     (Inl (TargetRejected destination reason), sink (denied_entry destination port reason) l)"

text \<open>The two questions asked of an address and of a network: \<open>None\<close> is permission.\<close>

definition address_denial :: "scope_profile \<Rightarrow> ip_address \<Rightarrow> py_str option" where
  "address_denial scope address =
     (case is_always_denied address of
        Some d \<Rightarrow> Some d
      | None \<Rightarrow> if contains_address scope address then None
               else Some ''outside the active scope profile'')"

definition network_denial :: "scope_profile \<Rightarrow> ip_network \<Rightarrow> py_str option" where
  "network_denial scope network =
     (case network_always_denied network of
        Some d \<Rightarrow> Some d
      | None \<Rightarrow> if contains_network scope network then None
               else Some ''outside the active scope profile'')"

definition classify :: "resolver \<Rightarrow> py_str \<Rightarrow>
    guard_exn + (target_type \<times> ip_address list \<times> ip_network option)" where
  "classify resolver raw_target =
     (let txt = py_strip raw_target in
      if txt = [] then Inl (TargetRejected raw_target ''target is empty'')
      else if CHR ''/'' \<in> set txt then
        (case py_ip_network txt of
           None \<Rightarrow> Inl (TargetRejected raw_target (''not a valid CIDR: '' @ not_a_network txt))
         | Some network \<Rightarrow> Inr (TargetCidr, [], Some network))
      else (case py_ip_address txt of
              Some a \<Rightarrow> Inr (TargetIp, [a], None)
            | None \<Rightarrow>
                (case resolver txt of
                   Inl (ResolutionError e) \<Rightarrow> Inl (TargetRejected raw_target e)
                 | Inl (BadAddress e) \<Rightarrow> Inl (OsExn (OtherException e))
                 | Inr addresses \<Rightarrow> Inr (TargetHost, addresses, None))))"

definition validate_network ::
  "'l sink \<Rightarrow> scope_profile \<Rightarrow> ip_network \<Rightarrow> 'l \<Rightarrow> (guard_exn + unit) \<times> 'l" where
  "validate_network sink scope network l =
     (case check_prefix_breadth network of
        Some problem \<Rightarrow> deny sink (str_network network) None problem l
      | None \<Rightarrow>
          (case network_denial scope network of
             Some denial \<Rightarrow> deny sink (str_network network) None denial l
           | None \<Rightarrow> (Inr (), sink (allowed_entry (str_network network) None ''validated'') l)))"

definition from_target :: "py_str \<Rightarrow> py_str \<Rightarrow> py_str" where
  "from_target denial raw_target = denial @ '' (from target '' @ raw_target @ '')''"

fun deny_first :: "'l sink \<Rightarrow> scope_profile \<Rightarrow> py_str \<Rightarrow> ip_address list \<Rightarrow> 'l \<Rightarrow>
    (guard_exn + unit) \<times> 'l" where
  "deny_first sink scope raw_target [] l = (Inr (), l)"
| "deny_first sink scope raw_target (a # as) l =
     (case address_denial scope a of
        Some denial \<Rightarrow>
          deny sink (str_addr a) None (from_target denial raw_target) l
      | None \<Rightarrow> deny_first sink scope raw_target as l)"

definition validate_addresses ::
  "'l sink \<Rightarrow> scope_profile \<Rightarrow> py_str \<Rightarrow> ip_address list \<Rightarrow> 'l \<Rightarrow> (guard_exn + unit) \<times> 'l" where
  "validate_addresses sink scope raw_target addresses l =
     (if addresses = [] then (Inl (TargetRejected raw_target ''target resolved to no addresses''), l)
      else (case deny_first sink scope raw_target addresses l of
              (Inl e, l1) \<Rightarrow> (Inl e, l1)
            | (Inr _, l1) \<Rightarrow>
                (Inr (), fold (\<lambda>a. sink (allowed_entry (str_addr a) None ''validated'')) addresses l1)))"

definition validate_target :: "'l sink \<Rightarrow> resolver \<Rightarrow> scope_profile \<Rightarrow> py_str \<Rightarrow> 'l \<Rightarrow>
    (guard_exn + validated_target) \<times> 'l" where
  "validate_target sink resolver scope raw_target l =
     (case classify resolver raw_target of
        Inl e \<Rightarrow> (Inl e, l)
      | Inr (kind, address_candidates, Some network) \<Rightarrow>
          (case validate_network sink scope network l of
             (Inl e, l1) \<Rightarrow> (Inl e, l1)
           | (Inr _, l1) \<Rightarrow>
               (Inr \<lparr>vt_raw = raw_target, vt_kind = kind, vt_addresses = [],
                     vt_network = Some network\<rparr>, l1))
      | Inr (kind, address_candidates, None) \<Rightarrow>
          (case validate_addresses sink scope raw_target address_candidates l of
             (Inl e, l1) \<Rightarrow> (Inl e, l1)
           | (Inr _, l1) \<Rightarrow>
               (Inr \<lparr>vt_raw = raw_target, vt_kind = kind, vt_addresses = address_candidates,
                     vt_network = None\<rparr>, l1)))"

section \<open>Connecting\<close>

text \<open>
  What a connection touches: the governor, the ledger, the context variable
  \<open>NETWORK_GUARD_ACTIVE\<close>, and the attempts, each the arguments the operating system was given
  and the value of the context variable at that moment.
\<close>

record connect_attempt =
  at_family :: nat
  at_host :: py_str
  at_port :: int
  at_guarded :: bool

record 'l guard_world =
  w_governor :: governor
  w_ledger :: 'l
  w_guard_active :: bool
  w_attempts :: "connect_attempt list"

text \<open>The operating system's answer to a connect: a socket, or the exception.\<close>

type_synonym 'k os_connect = "nat \<Rightarrow> py_str \<Rightarrow> int \<Rightarrow> os_error + 'k"

definition try_connect :: "'k os_connect \<Rightarrow> ip_address \<Rightarrow> int \<Rightarrow> 'l guard_world \<Rightarrow>
    (os_error + 'k) \<times> 'l guard_world" where
  "try_connect os address port w =
     (let token = w_guard_active w;
          w1 = w\<lparr>w_guard_active := True\<rparr>;
          w2 = w1\<lparr>w_attempts := w_attempts w1 @
                 [\<lparr>at_family = version address, at_host = str_addr address, at_port = port,
                   at_guarded = w_guard_active w1\<rparr>]\<rparr>
      in (os (version address) (str_addr address) port, w2\<lparr>w_guard_active := token\<rparr>))"

text \<open>
  \<open>connect\<close>, for a task that no other task interrupts; \<open>None\<close> is a task left waiting for a
  semaphore.  The error path reports and records before the slot is released, the success path
  after.
\<close>

definition connect :: "'l sink \<Rightarrow> scope_profile \<Rightarrow> 'k os_connect \<Rightarrow> validated_target \<Rightarrow> ip_address \<Rightarrow>
    int \<Rightarrow> 'l guard_world \<Rightarrow> ((guard_exn + 'k) \<times> 'l guard_world) option" where
  "connect sink scope os target address port w =
     (if \<not> (0 < port \<and> port \<le> 65535)
      then Some (Inl (TargetRejected (str_addr address @ '':'' @ str_of_int port)
                   ''port is outside 1-65535''), w)
      else if \<not> covers target address
      then (case deny sink (str_addr address) (Some port)
                   ''address is not part of the validated target'' (w_ledger w) of
              (r, l) \<Rightarrow> Some (r, w\<lparr>w_ledger := l\<rparr>))
      else
        (case address_denial scope address of
           Some denial \<Rightarrow>
             (case deny sink (str_addr address) (Some port) denial (w_ledger w) of
                (r, l) \<Rightarrow> Some (r, w\<lparr>w_ledger := l\<rparr>))
         | None \<Rightarrow>
             (let host_key = str_addr address in
              (case enter_slot (w_governor w) host_key of
                 None \<Rightarrow> None
               | Some (Inl e) \<Rightarrow> Some (Inl e, w)
               | Some (Inr g) \<Rightarrow>
                   (case try_connect os address port (w\<lparr>w_governor := g\<rparr>) of
                      (Inl e, w1) \<Rightarrow>
                        Some (Inl (OsExn e),
                          w1\<lparr>w_governor := release (report_error (w_governor w1) host_key) host_key,
                             w_ledger := sink (allowed_entry host_key (Some port) ''connect_failed'')
                               (w_ledger w1)\<rparr>)
                    | (Inr sock, w1) \<Rightarrow>
                        Some (Inr sock,
                          w1\<lparr>w_governor := report_success (release (w_governor w1) host_key) host_key,
                             w_ledger := sink (allowed_entry host_key (Some port) ''connected'')
                               (w_ledger w1)\<rparr>))))))"

section \<open>Streams\<close>

record tls_info =
  certificate_der :: "nat list option"
  tls_protocol :: "py_str option"
  tls_cipher :: "py_str option"

record 'k guarded_stream =
  stream_socket :: 'k
  stream_tls :: "tls_info option"

text \<open>
  The upgrade the library performs on the connected socket: an exception, or the facts of the
  TLS session, \<open>None\<close> where there is none.
\<close>

type_synonym 'k os_open = "'k \<Rightarrow> py_str option \<Rightarrow> os_error + tls_info option"

definition open_stream :: "'l sink \<Rightarrow> scope_profile \<Rightarrow> 'k os_connect \<Rightarrow> 'k os_open \<Rightarrow>
    validated_target \<Rightarrow> ip_address \<Rightarrow> int \<Rightarrow> bool \<Rightarrow> 'l guard_world \<Rightarrow>
    ((guard_exn + 'k guarded_stream) \<times> 'k list \<times> 'l guard_world) option" where
  "open_stream sink scope os upgrade target address port use_tls w =
     (case connect sink scope os target address port w of
        None \<Rightarrow> None
      | Some (Inl e, w1) \<Rightarrow> Some (Inl e, [], w1)
      | Some (Inr sock, w1) \<Rightarrow>
          (case upgrade sock (if use_tls then Some (str_addr address) else None) of
             Inl e \<Rightarrow> Some (Inl (OsExn e), [sock], w1)
           | Inr facts \<Rightarrow>
               Some (Inr \<lparr>stream_socket = sock, stream_tls =
                 (if use_tls
                  then Some (case facts of
                               None \<Rightarrow> \<lparr>certificate_der = None, tls_protocol = None, tls_cipher = None\<rparr>
                             | Some f \<Rightarrow> f)
                  else None)\<rparr>, [], w1)))"

end
