(* ===== verification/Guard_Contract.thy ===== *)
theory Guard_Contract
  imports Scan_Guard
begin

text \<open>
  What \<open>ScanGuard\<close> promises: a scope profile holds allowed private ranges only, a validated target
  covers permitted addresses only, and a socket is opened only to a permitted address of the
  validated target.  The facts about the ledger are proved for the plain log and hold for every
  sink through the simulations of the locale.
\<close>

section \<open>The guard over any sink simulates the guard over the plain log\<close>

definition log_sink :: "ledger_args \<Rightarrow> ledger_args list \<Rightarrow> ledger_args list" where
  "log_sink e l = l @ [e]"

definition map_ledger :: "('l \<Rightarrow> 'm) \<Rightarrow> 'l guard_world \<Rightarrow> 'm guard_world" where
  "map_ledger f w = \<lparr>w_governor = w_governor w, w_ledger = f (w_ledger w),
     w_guard_active = w_guard_active w, w_attempts = w_attempts w\<rparr>"

lemma map_ledger_simps [simp]:
  "w_governor (map_ledger f w) = w_governor w" "w_ledger (map_ledger f w) = f (w_ledger w)"
  "w_guard_active (map_ledger f w) = w_guard_active w" "w_attempts (map_ledger f w) = w_attempts w"
  "map_ledger f (w\<lparr>w_ledger := x\<rparr>) = (map_ledger f w)\<lparr>w_ledger := f x\<rparr>"
  "map_ledger f (w\<lparr>w_governor := g\<rparr>) = (map_ledger f w)\<lparr>w_governor := g\<rparr>"
  "map_ledger f (w\<lparr>w_guard_active := b\<rparr>) = (map_ledger f w)\<lparr>w_guard_active := b\<rparr>"
  "map_ledger f (w\<lparr>w_attempts := as\<rparr>) = (map_ledger f w)\<lparr>w_attempts := as\<rparr>"
  by (simp_all add: map_ledger_def)

interpretation plain: ledger_sink log_sink "\<lambda>l. l" "\<lambda>_. True"
  by unfold_locales (simp_all add: log_sink_def)

context ledger_sink
begin

lemma logged_sink: "ok l \<Longrightarrow> logged (sink e l) = log_sink e (logged l)"
  by (simp add: sink_appends log_sink_def)

lemma logged_fold_sink:
  "ok l \<Longrightarrow> logged (fold (\<lambda>a. sink (f a)) as l) = fold (\<lambda>a. log_sink (f a)) as (logged l)"
  by (induction as arbitrary: l) (simp_all add: logged_sink sink_ok)

lemma deny_sim: "ok l \<Longrightarrow> apsnd logged (deny sink d p r l) = deny log_sink d p r (logged l)"
  by (simp add: deny_def logged_sink)

lemma deny_first_sim:
  "ok l \<Longrightarrow> apsnd logged (deny_first sink S t as l) = deny_first log_sink S t as (logged l)"
  by (induction as) (auto simp: logged_sink deny_def split: option.splits)

lemma deny_first_ok: "ok l \<Longrightarrow> ok (snd (deny_first sink S t as l))"
  by (induction as) (auto simp: sink_ok deny_def split: option.splits)

lemma validate_network_sim:
  "ok l \<Longrightarrow> apsnd logged (validate_network sink S n l) = validate_network log_sink S n (logged l)"
  by (auto simp: logged_sink validate_network_def deny_def split: option.splits)

lemma validate_addresses_sim:
  assumes "ok l"
  shows "apsnd logged (validate_addresses sink S t as l)
    = validate_addresses log_sink S t as (logged l)"
  using deny_first_sim [OF assms, of S t as] deny_first_ok [OF assms, of S t as] assms
  by (auto simp: logged_sink validate_addresses_def logged_fold_sink split: prod.splits sum.splits)

lemma validate_target_sim:
  assumes "ok l"
  shows "apsnd logged (validate_target sink R S t l) = validate_target log_sink R S t (logged l)"
  using validate_network_sim [OF assms, of S] validate_addresses_sim [OF assms, of S t]
  by (auto simp: validate_target_def
      simp flip: validate_network_sim [OF assms] validate_addresses_sim [OF assms]
      split: prod.splits sum.splits option.splits)

lemma connect_sim:
  assumes "ok (w_ledger w)"
  shows "map_option (apsnd (map_ledger logged)) (connect sink S os t a p w)
     = connect log_sink S os t a p (map_ledger logged w)"
  using assms by (auto simp: logged_sink connect_def deny_def try_connect_def Let_def
      split: prod.splits sum.splits option.splits)

end

section \<open>Scope profiles hold allowed private ranges only\<close>

definition created_scope :: "scope_profile \<Rightarrow> bool" where
  "created_scope scope \<longleftrightarrow>
     (\<exists>name entries. create_scope name entries (sp_allow_cgnat scope) (sp_allow_link_local scope)
        = Inr scope)"

lemma check_entry_Inr_iff: "check_entry allowed raw = Inr n \<longleftrightarrow>
   py_ip_network (py_strip raw) = Some n \<and> py_strip raw \<noteq> [] \<and> check_prefix_breadth n = None \<and> network_within_allowed n allowed"
  by (auto simp: check_entry_def bind_sum_Inr_iff parse_scope_entry_def Let_def split: option.splits if_splits)

lemma create_scope_Inr:
  assumes "create_scope name es c l = Inr scope"
  shows "sp_name scope = name \<and> sp_entries scope = es \<and> sp_allow_cgnat scope = c \<and> sp_allow_link_local scope = l
   \<and> list_all2 (\<lambda>e n. check_entry (allowed_ranges_for c l) e = Inr n) es (sp_networks scope)"
  using assms by (auto simp: create_scope_def bind_sum_Inr_iff map_sum_list_Inr_iff split: if_splits)

lemma created_scope_networks:
  assumes "created_scope scope" "n \<in> set (sp_networks scope)"
  shows "wf_network n \<and> network_within_allowed n (allowed_ranges_for (sp_allow_cgnat scope) (sp_allow_link_local scope))
    \<and> check_prefix_breadth n = None"
  using assms py_ip_network_wf
  by (fastforce simp: created_scope_def check_entry_Inr_iff list_all2_conv_all_nth in_set_conv_nth dest!: create_scope_Inr)

lemma created_scope_member:
  assumes "created_scope scope" "contains_address scope a"
  shows "\<exists>r \<in> set (allowed_ranges_for (sp_allow_cgnat scope) (sp_allow_link_local scope)). in_network a r"
proof -
  obtain n where n: "n \<in> set (sp_networks scope)" "in_network a n"
    using assms(2) by (auto simp: contains_address_def list_ex_iff)
  show ?thesis
    using created_scope_networks [OF assms(1) n(1)] n(2) allowed_wf
    by (intro within_allowed_members) auto
qed

lemma address_denial_None: "address_denial S a = None \<longleftrightarrow> is_always_denied a = None \<and> contains_address S a"
  by (auto simp: address_denial_def split: option.splits)

lemma network_denial_members:
  assumes "created_scope S" and "wf_network n" and "network_denial S n = None" and "in_network a n"
  shows "address_denial S a = None"
proof -
  from assms(3) have nd: "network_always_denied n = None" and cn: "contains_network S n"
    by (auto simp: network_denial_def split: option.splits if_splits)
  obtain m where "m \<in> set (sp_networks S)" "in_network a m"
    using cn assms created_scope_networks within_allowed_members unfolding contains_network_def by blast
  then have ca: "contains_address S a" by (auto simp: contains_address_def list_ex_iff)
  obtain r where "r \<in> set (allowed_ranges_for (sp_allow_cgnat S) (sp_allow_link_local S))" "in_network a r"
    using created_scope_member [OF assms(1) ca] by blast
  then show ?thesis
    using ca not_denied_no_metadata [OF assms(2) nd assms(4)] by (simp add: address_denial_None always_denied_in_allowed)
qed



lemma deny_first_Inr: "deny_first sink S t as l = (Inr u, l') \<Longrightarrow> l' = l \<and> (\<forall>a \<in> set as. address_denial S a = None)"
  by (induction as) (auto simp: deny_def split: option.splits)

lemma deny_first_Inl:
  "a \<in> set as \<Longrightarrow> address_denial S a \<noteq> None \<Longrightarrow>
     \<exists>d a'. a' \<in> set as \<and> address_denial S a' = Some d \<and>
       deny_first sink S t as l = deny sink (str_addr a') None (from_target d t) l"
  by (induction as) (auto split: option.splits)

lemma classify_network: "classify R t = Inr (k, as, Some n) \<Longrightarrow> wf_network n"
  by (auto simp: classify_def Let_def dest: py_ip_network_wf split: if_splits option.splits sum.splits resolver_exn.splits)

lemma validate_network_Inr:
  "validate_network sink S n l = (Inr u, l') \<longleftrightarrow> check_prefix_breadth n = None \<and> network_denial S n = None
     \<and> l' = sink (allowed_entry (str_network n) None ''validated'') l"
  by (auto simp: validate_network_def deny_def split: option.splits)

lemma validate_target_covers:
  assumes "created_scope S" and "validate_target sink R S t l = (Inr v, l')" and "covers v a"
  shows "address_denial S a = None"
  using assms(2,3)
  by (auto simp: validate_target_def validate_network_Inr validate_addresses_def covers_def
    dest: deny_first_Inr classify_network intro: network_denial_members [OF assms(1)] split: sum.splits prod.splits option.splits if_splits)

lemma covered_permitted:
  assumes "created_scope S" and "validate_target sink R S t l = (Inr v, l')" and "covers v a"
  shows "contains_address S a \<and> is_always_denied a = None \<and> \<not> is_global a"
proof -
  have "is_always_denied a = None" "contains_address S a"
    using validate_target_covers [OF assms] by (simp_all add: address_denial_None)
  then show ?thesis
    using created_scope_member [OF assms(1)] allowed_not_global by blast
qed

lemma validate_target_wf:
  assumes "validate_target sink R S t l = (Inr v, l')" and "vt_network v = Some n"
  shows "wf_network n"
  using assms
  by (auto simp: validate_target_def validate_network_Inr dest: classify_network
      split: sum.splits prod.splits option.splits)

lemma connect_attempts:
  assumes "connect sink S os v a p w = Some (r, w')"
  shows "w_guard_active w' = w_guard_active w \<and>
    (w_attempts w' = w_attempts w \<or>
     covers v a \<and> address_denial S a = None \<and> 0 < p \<and> p \<le> 65535
     \<and> w_attempts w' = w_attempts w @ [\<lparr>at_family = version a, at_host = str_addr a, at_port = p, at_guarded = True\<rparr>])"
  using assms by (auto simp: connect_def deny_def try_connect_def Let_def split: if_splits option.splits sum.splits prod.splits)

lemma connect_not_rejected:
  assumes "covers v a" "address_denial S a = None" "0 < p" "p \<le> 65535"
    and "connect sink S os v a p w = Some (Inl e, w')"
  shows "(\<exists>s n. e = BudgetExceeded s n) \<or> (\<exists>x. e = OsExn x \<and> os (version a) (str_addr a) p = Inl x)"
  using assms by (auto simp: connect_def deny_def try_connect_def enter_slot_def acquire_check_def Let_def split: if_splits option.splits sum.splits prod.splits)

lemma connect_slot_returned:
  assumes "connect sink S os v a p w = Some (r, w')"
  shows "global_free (w_governor w') = global_free (w_governor w)
    \<and> host_semaphore (w_governor w') h = host_semaphore (w_governor w) h
    \<and> scan_count (w_governor w') = scan_count (w_governor w) + (if w_attempts w' = w_attempts w then 0 else 1)"
  using assms by (auto simp: connect_def deny_def try_connect_def enter_slot_def acquire_check_def Let_def
   frame_simps split: if_splits option.splits sum.splits prod.splits)


lemma create_scope_created:
  assumes "create_scope name es c l = Inr scope"
  shows "created_scope scope \<and> sp_allow_cgnat scope = c \<and> sp_allow_link_local scope = l"
  using create_scope_Inr [OF assms] assms by (auto simp: created_scope_def)

section \<open>What validation and connecting do to the ledger\<close>

text \<open>The entries a connect adds, by its result.\<close>

fun connect_entries :: "ip_address \<Rightarrow> int \<Rightarrow> guard_exn + 'k \<Rightarrow> ledger_args list" where
  "connect_entries a p (Inr _) = [allowed_entry (str_addr a) (Some p) ''connected'']"
| "connect_entries a p (Inl (OsExn _)) = [allowed_entry (str_addr a) (Some p) ''connect_failed'']"
| "connect_entries a p (Inl (BudgetExceeded _ _)) = []"
| "connect_entries a p (Inl (TargetRejected d reason)) =
     (if 0 < p \<and> p \<le> 65535 then [denied_entry d (Some p) reason] else [])"

lemma connect_log:
  assumes "connect log_sink S os v a p w = Some (r, w')"
  shows "w_ledger w' = w_ledger w @ connect_entries a p r"
  using assms
  by (auto simp: connect_def deny_def try_connect_def enter_slot_def acquire_check_def log_sink_def
      Let_def split: if_splits option.splits sum.splits prod.splits)

lemma fold_log_sink: "fold (\<lambda>a. log_sink (f a)) as l = l @ map f as"
  by (induction as arbitrary: l) (simp_all add: log_sink_def)

context ledger_sink
begin

lemma connect_logged:
  assumes "connect sink S os v a p w = Some (r, w')" and "ok (w_ledger w)"
  shows "logged (w_ledger w') = logged (w_ledger w) @ connect_entries a p r"
proof -
  have "connect log_sink S os v a p (map_ledger logged w) = Some (r, map_ledger logged w')"
    using connect_sim [OF assms(2), of S os v a p] assms(1) by simp
  then show ?thesis by (auto dest: connect_log)
qed

lemma host_refused_logged:
  assumes "classify R t = Inr (k, as, None)" and "a \<in> set as" and "address_denial S a \<noteq> None"
    and "ok l"
  shows "\<exists>d a' l'. a' \<in> set as \<and> address_denial S a' = Some d
    \<and> validate_target sink R S t l
        = (Inl (TargetRejected (str_addr a') (from_target d t)), l')
    \<and> logged l' = logged l @ [denied_entry (str_addr a') None (from_target d t)]"
proof -
  obtain d a' where a': "a' \<in> set as" "address_denial S a' = Some d"
    and first: "deny_first sink S t as l
      = deny sink (str_addr a') None (from_target d t) l"
    using deny_first_Inl [OF assms(2,3), of sink t l] by auto
  have "as \<noteq> []" using assms(2) by auto
  then have "validate_target sink R S t l = (Inl (TargetRejected (str_addr a') (from_target d t)),
      sink (denied_entry (str_addr a') None (from_target d t)) l)"
    by (simp add: validate_target_def assms(1) validate_addresses_def first deny_def)
  with a' sink_appends [OF assms(4)] show ?thesis by metis
qed

lemma validated_logged:
  assumes "validate_target sink R S t l = (Inr v, l')" and "ok l"
  shows "logged l' = logged l @
    (case vt_network v of
       Some n \<Rightarrow> [allowed_entry (str_network n) None ''validated'']
     | None \<Rightarrow> map (\<lambda>a. allowed_entry (str_addr a) None ''validated'') (vt_addresses v))"
  using assms
  by (auto simp: validate_target_def validate_network_Inr validate_addresses_def sink_appends
      logged_fold_sink fold_log_sink dest: deny_first_Inr
      split: sum.splits prod.splits option.splits if_splits)

end


section \<open>A lab scope, for the witnesses\<close>

definition lab_scope :: scope_profile where
  "lab_scope = \<lparr>sp_name = ''lab'', sp_entries = [''192.168.1.0/24''],
     sp_networks = [net4 192 168 1 0 24], sp_allow_cgnat = False, sp_allow_link_local = False\<rparr>"

definition lab_host :: ip_address where
  "lab_host = IPv4 (ip4 192 168 1 10)"

definition dns_google :: ip_address where
  "dns_google = IPv4 (ip4 8 8 8 8)"

text \<open>A resolver that answers with a lab address and a public one.\<close>

definition split_resolver :: resolver where
  "split_resolver name = Inr [lab_host, dns_google]"

definition lab_target :: validated_target where
  "lab_target = \<lparr>vt_raw = ''192.168.1.10'', vt_kind = TargetIp, vt_addresses = [lab_host],
     vt_network = None\<rparr>"

lemma digit_chars:
  "digit_char 0 = CHR ''0''" "digit_char (Suc 0) = CHR ''1''" "digit_char 2 = CHR ''2''"
  "digit_char 3 = CHR ''3''" "digit_char 4 = CHR ''4''" "digit_char 5 = CHR ''5''"
  "digit_char 6 = CHR ''6''" "digit_char 7 = CHR ''7''" "digit_char 8 = CHR ''8''"
  "digit_char 9 = CHR ''9''"
  by code_simp+

lemmas text_eval = str_network_def string_of_ip4_def str_of_nat.simps join.simps digit_chars

lemma lab_network_text: "py_ip_network ''192.168.1.0/24'' = Some (net4 192 168 1 0 24)"
proof -
  have "str_network (net4 192 168 1 0 24) = ''192.168.1.0/24''"
    by (simp add: text_eval net_eval)
  moreover have "wf_network (net4 192 168 1 0 24)"
    by (simp add: net_eval)
  ultimately show ?thesis by (metis net4_def py_ip_network_str4)
qed

lemma lab_host_text [simp]: "str_addr lab_host = ''192.168.1.10''"
  by (simp add: lab_host_def text_eval net_eval)

lemma lab_host_version [simp]: "version lab_host = 4"
  by (simp add: lab_host_def)

lemma lab_scope_new: "create_scope ''lab'' [''192.168.1.0/24''] False False = Inr lab_scope"
proof -
  have "py_strip ''192.168.1.0/24'' = ''192.168.1.0/24''" by code_simp
  moreover have "check_prefix_breadth (net4 192 168 1 0 24) = None"
    by (simp add: check_prefix_breadth_def MIN_IPV4_PREFIX_LENGTH_def net_eval)
  moreover have "network_within_allowed (net4 192 168 1 0 24) (allowed_ranges_for False False)"
    by (simp add: network_within_allowed_def allowed_ranges_for_def range_tables net_eval
        subnet_of_def addr_le_def addr_ge_def)
  ultimately have "check_entry (allowed_ranges_for False False) ''192.168.1.0/24''
      = Inr (net4 192 168 1 0 24)"
    using lab_network_text by (simp add: check_entry_Inr_iff)
  then show ?thesis by (simp add: create_scope_def lab_scope_def)
qed

lemma lab_scope_created: "created_scope lab_scope"
  using lab_scope_new by (auto simp: created_scope_def lab_scope_def)

lemma lab_host_permitted: "address_denial lab_scope lab_host = None"
proof -
  have "contains_address lab_scope lab_host"
    by (simp add: contains_address_def lab_scope_def lab_host_def net_eval)
  then obtain r where "r \<in> set (allowed_ranges_for False False)" "in_network lab_host r"
    using created_scope_member [OF lab_scope_created] by (auto simp: lab_scope_def)
  then have "is_always_denied lab_host = None"
    by (simp add: always_denied_in_allowed) (simp add: CLOUD_METADATA_NETWORKS_def lab_host_def net_eval)
  with \<open>contains_address lab_scope lab_host\<close> show ?thesis by (simp add: address_denial_None)
qed

lemma dns_google_denied: "address_denial lab_scope dns_google \<noteq> None"
  by (simp add: address_denial_None contains_address_def lab_scope_def dns_google_def net_eval)

lemma lab_target_valid:
  "fst (validate_target mem_record R lab_scope ''192.168.1.10'' l) = Inr lab_target"
proof -
  have "py_strip ''192.168.1.10'' = ''192.168.1.10''" by code_simp
  moreover have "py_ip_address ''192.168.1.10'' = Some lab_host"
    using py_ip_address_str4 lab_host_text lab_host_def by metis
  ultimately show ?thesis
    using lab_host_permitted
    by (simp add: validate_target_def classify_def validate_addresses_def lab_target_def)
qed

lemma lab_name_classified:
  "classify split_resolver ''nas.lab'' = Inr (TargetHost, [lab_host, dns_google], None)"
proof -
  have "py_strip ''nas.lab'' = ''nas.lab''" and "py_ip_address ''nas.lab'' = None"
    by code_simp+
  then show ?thesis by (simp add: classify_def split_resolver_def)
qed

section \<open>What the guard promises\<close>

text \<open>C21. A scope profile never reaches beyond the allowed private ranges.  Whatever the entries a
  profile was created from, an address it contains lies in one of the ranges the two opt-ins
  allow, and none of those addresses is globally routable.\<close>

theorem scope_holds_private_ranges:
  assumes "create_scope name es cgnat link_local = Inr scope"
    and "contains_address scope a"
  shows "(\<exists>r \<in> set (allowed_ranges_for cgnat link_local). in_network a r) \<and> \<not> is_global a"
proof -
  from create_scope_created [OF assms(1)] have "created_scope scope"
    and "sp_allow_cgnat scope = cgnat" "sp_allow_link_local scope = link_local"
    by simp_all
  then show ?thesis
    using created_scope_member [OF _ assms(2)] allowed_not_global by blast
qed

lemma scope_holds_private_ranges_witness: "\<not> is_global lab_host"
proof -
  have "contains_address lab_scope lab_host"
    using lab_host_permitted by (simp add: address_denial_None)
  then show ?thesis using scope_holds_private_ranges [OF lab_scope_new] by blast
qed

text \<open>C6. A validated target is entirely in scope.  When \<open>validate_target\<close> accepts a target, be
  it an address, a CIDR or a name with all the addresses the resolver gave, then every address it
  covers is contained in the scope profile, is in no always-denied class and is not globally
  routable; the ledger behind the sink plays no part in it.\<close>

theorem validated_target_permitted:
  assumes "create_scope name es cgnat link_local = Inr scope"
    and "validate_target sink resolver scope t l = (Inr v, l')"
    and "covers v a"
  shows "contains_address scope a \<and> is_always_denied a = None \<and> \<not> is_global a"
  using covered_permitted [OF _ assms(2,3)] create_scope_created [OF assms(1)] by blast

lemma validated_target_permitted_witness: "is_always_denied lab_host = None"
proof -
  fix l :: mem_ledger
  obtain l' where "validate_target mem_record split_resolver lab_scope ''192.168.1.10'' l
      = (Inr lab_target, l')"
    using lab_target_valid [of split_resolver l] by (metis prod.collapse)
  then show ?thesis
    using validated_target_permitted [OF lab_scope_new, of mem_record split_resolver _ l lab_target]
    by (auto simp: covers_def lab_target_def)
qed

text \<open>C7. A socket is only opened to a permitted destination.  Each call of \<open>connect\<close>, with any
  target value whatever, hands the operating system at most one connection; when it does, the
  address is covered by the target, contained in the scope profile and in no always-denied class,
  the port lies in 1-65535, the strings handed over are those of that address and port, and the
  context variable that unlocks sockets was set; afterwards the variable has its old value.\<close>

theorem connect_reaches_permitted_only:
  assumes "connect sink scope os v a p w = Some (r, w')"
  shows "w_guard_active w' = w_guard_active w
    \<and> (w_attempts w' = w_attempts w
       \<or> covers v a \<and> contains_address scope a \<and> is_always_denied a = None
         \<and> 0 < p \<and> p \<le> 65535
         \<and> w_attempts w' = w_attempts w @ [\<lparr>at_family = version a, at_host = str_addr a,
             at_port = p, at_guarded = True\<rparr>])"
  using connect_attempts [OF assms] by (auto simp: address_denial_None)

text \<open>The governor and the world the witnesses start from.\<close>

definition lab_governor :: governor where
  "lab_governor = projr (new_governor ''polite'' None 0)"

lemma lab_governor_new: "new_governor ''polite'' None 0 = Inr lab_governor"
  by (simp add: lab_governor_def new_governor_def INTENSITY_PROFILES_def
      validate_hard_ceiling_iff [THEN iffD2] within_ceiling_def)

definition lab_world :: "mem_ledger guard_world" where
  "lab_world = \<lparr>w_governor = lab_governor, w_ledger = \<lparr>entries = [], clock = int\<rparr>,
     w_guard_active = False, w_attempts = []\<rparr>"

definition open_os :: "nat os_connect" where "open_os family host port = Inr 7"

lemma lab_slot: "\<exists>g. enter_slot lab_governor h = Some (Inr g)"
  by (simp add: enter_slot_def acquire_check_def lab_governor_def new_governor_def
      INTENSITY_PROFILES_def validate_hard_ceiling_iff [THEN iffD2] within_ceiling_def
      host_semaphore_def)

text \<open>The world after a connection to the lab host.\<close>

definition lab_after :: "mem_ledger guard_world" where
  "lab_after = snd (the (connect mem_record lab_scope open_os lab_target lab_host 22 lab_world))"

lemma lab_connect:
  "connect mem_record lab_scope open_os lab_target lab_host 22 lab_world = Some (Inr 7, lab_after)"
  "w_attempts lab_after
     = [\<lparr>at_family = 4, at_host = ''192.168.1.10'', at_port = 22, at_guarded = True\<rparr>]"
  using lab_slot [of "''192.168.1.10''"] lab_host_permitted
  by (auto simp: lab_after_def connect_def covers_def lab_target_def lab_world_def try_connect_def
      Let_def open_os_def)

lemma lab_attempted: "w_attempts lab_after \<noteq> w_attempts lab_world"
  by (simp add: lab_connect lab_world_def)

lemma connect_reaches_permitted_only_witness: "contains_address lab_scope lab_host"
  using connect_reaches_permitted_only [OF lab_connect(1)] lab_attempted by blast

text \<open>C20. Validation is enough.  For an address of a target that was validated under the
  scope, and a legal port, \<open>connect\<close> never refuses the target: it fails only with an exhausted
  budget or with the error the operating system gave.\<close>

theorem connect_never_refuses_validated:
  assumes "create_scope name es cgnat link_local = Inr scope"
    and "validate_target sink resolver scope t l = (Inr v, l')"
    and "covers v a" and "0 < p" and "p \<le> 65535"
    and "connect sink2 scope os v a p w = Some (Inl e, w')"
  shows "(\<exists>s n. e = BudgetExceeded s n) \<or> (\<exists>x. e = OsExn x \<and> os (version a) (str_addr a) p = Inl x)"
proof -
  have "created_scope scope"
    using create_scope_created [OF assms(1)] by simp
  then have "address_denial scope a = None"
    by (rule validate_target_covers [OF _ assms(2,3)])
  then show ?thesis using connect_not_rejected assms(3-6) by blast
qed

definition refusing_os :: "nat os_connect" where
  "refusing_os family host port = Inl ConnectionRefused"

lemma lab_connect_refused:
  "\<exists>w'. connect mem_record lab_scope refusing_os lab_target lab_host 22 lab_world
     = Some (Inl (OsExn ConnectionRefused), w')"
  using lab_slot [of "''192.168.1.10''"] lab_host_permitted
  by (auto simp: connect_def covers_def lab_target_def lab_world_def try_connect_def Let_def
      refusing_os_def)

lemma connect_never_refuses_validated_witness:
  "\<exists>x. OsExn ConnectionRefused = OsExn x \<and> refusing_os 4 ''192.168.1.10'' 22 = Inl x"
proof -
  fix l :: mem_ledger
  obtain l' where v: "validate_target mem_record split_resolver lab_scope ''192.168.1.10'' l
      = (Inr lab_target, l')"
    using lab_target_valid [of split_resolver l] by (metis prod.collapse)
  obtain w' where w': "connect mem_record lab_scope refusing_os lab_target lab_host 22 lab_world
     = Some (Inl (OsExn ConnectionRefused), w')"
    using lab_connect_refused by blast
  have c: "covers lab_target lab_host" by (simp add: covers_def lab_target_def)
  show ?thesis
    using connect_never_refuses_validated [OF lab_scope_new v c _ _ w'] lab_host_text by simp
qed

text \<open>The slot is always given back.  After a connect that returned or raised, both semaphores
  have the free slots they had before, and the scan's count has grown by one exactly when a
  connection was attempted.\<close>

theorem connect_slot_balanced:
  assumes "connect sink scope os v a p w = Some (r, w')"
  shows "global_free (w_governor w') = global_free (w_governor w)
    \<and> host_semaphore (w_governor w') h = host_semaphore (w_governor w) h
    \<and> probes_made (w_governor w')
        = probes_made (w_governor w) + (if w_attempts w' = w_attempts w then 0 else 1)"
  using connect_slot_returned [OF assms] by (simp add: probes_made_def)

lemma connect_slot_balanced_witness:
  "probes_made (w_governor lab_after) = probes_made (w_governor lab_world) + 1"
  using connect_slot_balanced [OF lab_connect(1)] lab_attempted by simp

text \<open>A name is refused whole.  When one of the addresses a target resolves to is not permitted,
  the target is rejected, the rejection names a refused address, and the ledger gains exactly that
  one denied entry: no address of the name is recorded as allowed.\<close>

theorem host_refused_whole:
  assumes "classify resolver t = Inr (kind, as, None)" and "a \<in> set as"
    and "address_denial scope a \<noteq> None"
  shows "\<exists>d a' l'. a' \<in> set as \<and> address_denial scope a' = Some d
    \<and> validate_target mem_record resolver scope t l
        = (Inl (TargetRejected (str_addr a') (from_target d t)), l')
    \<and> mem_log l' = mem_log l @ [denied_entry (str_addr a') None (from_target d t)]"
  by (rule mem.host_refused_logged [OF assms TrueI])

lemma host_refused_whole_witness:
  "\<exists>e. fst (validate_target mem_record split_resolver lab_scope ''nas.lab'' (w_ledger lab_world)) = Inl e"
proof -
  have "dns_google \<in> set [lab_host, dns_google]" by simp
  from host_refused_whole [OF lab_name_classified this dns_google_denied]
  show ?thesis by (metis fst_conv)
qed

text \<open>C35. Every connect leaves its exact trace.  The ledger after a connect is the ledger before
  with one entry appended, allowed with the outcome or denied with the reason, except that an
  exhausted budget and a port outside 1-65535 leave no entry; nothing recorded is ever lost.\<close>

theorem connect_ledger_exact:
  assumes "connect mem_record scope os v a p w = Some (r, w')"
  shows "mem_log (w_ledger w') = mem_log (w_ledger w) @ connect_entries a p r"
  by (rule mem.connect_logged [OF assms TrueI])

lemma connect_ledger_exact_witness:
  "mem_log (w_ledger lab_after) = [allowed_entry ''192.168.1.10'' (Some 22) ''connected'']"
  using connect_ledger_exact [OF lab_connect(1)] by (simp add: lab_world_def mem_log_def)

text \<open>Not every refusal is recorded.  A blank target is rejected and the ledger is left as it
  was, although the guard's own documentation has every decision written to it.\<close>

theorem blank_target_unrecorded:
  assumes "py_strip t = []"
  shows "validate_target mem_record resolver scope t l
    = (Inl (TargetRejected t ''target is empty''), l)"
  using assms by (simp add: validate_target_def classify_def)

lemma blank_target_unrecorded_witness:
  "validate_target mem_record split_resolver lab_scope ''  '' (w_ledger lab_world)
     = (Inl (TargetRejected ''  '' ''target is empty''), w_ledger lab_world)"
  by (rule blank_target_unrecorded) code_simp

text \<open>The stored target names what was validated.  The text the guard logs and a scan row
  stores for an IPv4 address or network classifies, whatever the resolver, as that very address
  or network, and as a scope entry it parses to that very network.\<close>

theorem normalized_target_round_trip:
  "classify resolver (str_addr (IPv4 w)) = Inr (TargetIp, [IPv4 w], None)
   \<and> (wf_network (Net4 n p) \<longrightarrow>
        classify resolver (str_network (Net4 n p)) = Inr (TargetCidr, [], Some (Net4 n p))
        \<and> parse_scope_entry (str_network (Net4 n p)) = Inr (Net4 n p))"
  by (simp add: classify_def parse_scope_entry_def str_addr4_plain str_net4_plain py_ip_address_str4
      py_ip_network_str4 Let_def del: str_addr.simps)

lemma normalized_target_round_trip_witness:
  "classify split_resolver (str_network (net4 10 0 0 0 8))
     = Inr (TargetCidr, [], Some (net4 10 0 0 0 8))"
proof -
  have "wf_network (Net4 (ip4 10 0 0 0) 8)" by (simp add: net_eval)
  then show ?thesis
    using normalized_target_round_trip [of split_resolver 0 "ip4 10 0 0 0" 8]
    by (simp only: net4_def simp_thms)
qed

end
