(* ===== verification/Findings.thy ===== *)
theory Findings
  imports Domain
begin

text \<open>
  \<open>backend/app/models/findings.py\<close>: the record every module returns and its fingerprint.  The
  hash is a parameter; what is proved is that the hashed text determines the identity of a
  finding and nothing else.
\<close>

record finding =
  f_host :: py_str
  f_category :: finding_category
  f_kind :: py_str
  f_title :: py_str
  f_summary :: py_str
  f_module :: py_str
  f_identity_key :: py_str
  f_port :: "int option"
  f_normalized_value :: json_object
  f_raw_evidence :: "py_str option"
  f_confidence :: "confidence option"
  f_sources :: "py_str list"
  f_observed_at :: int

definition fingerprint_parts :: "py_str \<Rightarrow> py_str \<Rightarrow> py_str \<Rightarrow> int option \<Rightarrow> py_str \<Rightarrow> py_str" where
  "fingerprint_parts module_name kind host port identity_key =
     join ''|'' [module_name, kind, host, (case port of None \<Rightarrow> '''' | Some p \<Rightarrow> str_of_int p),
       identity_key]"

text \<open>The hash is \<open>hashlib.sha256(...).hexdigest()\<close> of the encoded text.\<close>

definition compute_fingerprint ::
  "(py_str \<Rightarrow> py_str) \<Rightarrow> py_str \<Rightarrow> py_str \<Rightarrow> py_str \<Rightarrow> int option \<Rightarrow> py_str \<Rightarrow> py_str" where
  "compute_fingerprint sha256 module_name kind host port identity_key =
     sha256 (fingerprint_parts module_name kind host port identity_key)"

definition fingerprint :: "(py_str \<Rightarrow> py_str) \<Rightarrow> finding \<Rightarrow> py_str" where
  "fingerprint sha256 f =
     compute_fingerprint sha256 (f_module f) (f_kind f) (f_host f) (f_port f) (f_identity_key f)"

text \<open>The identity of an observation, as the module's documentation lists it.\<close>

definition finding_identity :: "finding \<Rightarrow> py_str \<times> py_str \<times> py_str \<times> int option \<times> py_str" where
  "finding_identity f = (f_module f, f_kind f, f_host f, f_port f, f_identity_key f)"

definition bar_free :: "py_str \<Rightarrow> bool" where
  "bar_free s \<longleftrightarrow> CHR ''|'' \<notin> set s"

lemma split_at_bar:
  assumes "bar_free a" and "bar_free b"
  shows "a @ CHR ''|'' # r = b @ CHR ''|'' # s \<longleftrightarrow> a = b \<and> r = s"
  using assms
proof (induction a arbitrary: b)
  case Nil
  then show ?case by (cases b) (auto simp: bar_free_def)
next
  case (Cons c a)
  then show ?case by (cases b) (auto simp: bar_free_def)
qed

lemma str_of_int_neg: "i < 0 \<Longrightarrow> \<exists>s. str_of_int i = CHR ''-'' # s"
  by (simp add: str_of_int_def)

lemma str_of_int_digits: "c \<in> set (str_of_int i) \<Longrightarrow> is_digit c \<or> c = CHR ''-''"
  by (auto simp: str_of_int_def dest: str_of_nat_digits split: if_splits)

lemma str_of_int_bar_free: "bar_free (str_of_int i)"
  using str_of_int_digits [of "CHR ''|''" i] by (auto simp: bar_free_def is_digit_def)

lemma minus_no_digit: "CHR ''-'' # s \<noteq> str_of_nat n"
proof
  assume "CHR ''-'' # s = str_of_nat n"
  then have "is_digit (CHR ''-'')"
    using str_of_nat_digits [of "CHR ''-''" n] by (metis list.set_intros(1))
  then show False by (simp add: is_digit_def)
qed

lemma str_of_int_inject [simp]: "str_of_int i = str_of_int j \<longleftrightarrow> i = j"
  using minus_no_digit minus_no_digit [symmetric] by (auto simp: str_of_int_def)

lemma fingerprint_parts_inject:
  assumes "bar_free m" "bar_free m'" "bar_free k" "bar_free k'" "bar_free h" "bar_free h'"
  shows "fingerprint_parts m k h p i = fingerprint_parts m' k' h' p' i'
    \<longleftrightarrow> (m, k, h, p, i) = (m', k', h', p', i')"
proof -
  have port: "bar_free (case p of None \<Rightarrow> '''' | Some x \<Rightarrow> str_of_int x)" for p :: "int option"
    using str_of_int_bar_free by (cases p) (auto simp: bar_free_def)
  have ne: "str_of_int x \<noteq> []" for x by (simp add: str_of_int_def)
  then have "(case p of None \<Rightarrow> '''' | Some x \<Rightarrow> str_of_int x)
      = (case p' of None \<Rightarrow> '''' | Some x \<Rightarrow> str_of_int x) \<longleftrightarrow> p = p'"
    using ne [symmetric] by (auto split: option.splits)
  then show ?thesis
    by (simp add: fingerprint_parts_def join.simps split_at_bar assms port)
qed

text \<open>A fingerprint is the identity of a finding.  For findings whose module, kind and host hold
  no \<open>|\<close>, and on texts the hash does not confuse, two findings have the same fingerprint exactly
  when they agree on module, kind, host, port and identity key: no other field plays a part, and
  a port cannot run into the key.\<close>

theorem fingerprint_is_identity:
  assumes "bar_free (f_module f)" "bar_free (f_kind f)" "bar_free (f_host f)"
    and "bar_free (f_module g)" "bar_free (f_kind g)" "bar_free (f_host g)"
    and "inj_on sha256 {fingerprint_parts (f_module x) (f_kind x) (f_host x) (f_port x)
           (f_identity_key x) | x. x = f \<or> x = g}"
  shows "fingerprint sha256 f = fingerprint sha256 g \<longleftrightarrow> finding_identity f = finding_identity g"
proof -
  have "fingerprint sha256 f = fingerprint sha256 g
      \<longleftrightarrow> fingerprint_parts (f_module f) (f_kind f) (f_host f) (f_port f) (f_identity_key f)
        = fingerprint_parts (f_module g) (f_kind g) (f_host g) (f_port g) (f_identity_key g)"
    unfolding fingerprint_def compute_fingerprint_def
    by (rule inj_on_eq_iff [OF assms(7)]) auto
  then show ?thesis using assms by (simp add: fingerprint_parts_inject finding_identity_def)
qed

text \<open>Two findings of one open port that differ in everything but their identity.\<close>

definition ssh_finding :: "py_str \<Rightarrow> int \<Rightarrow> finding" where
  "ssh_finding t seen = \<lparr>f_host = ''10.0.0.5'', f_category = FindPortService, f_kind = ''port.open'',
     f_title = t, f_summary = t, f_module = ''port_scan'', f_identity_key = ''tcp/22'',
     f_port = Some 22, f_normalized_value = [], f_raw_evidence = None, f_confidence = None,
     f_sources = [], f_observed_at = seen\<rparr>"

lemma fingerprint_is_identity_witness:
  "fingerprint (\<lambda>s. s) (ssh_finding ''a'' 1) = fingerprint (\<lambda>s. s) (ssh_finding ''b'' 2)"
  by (subst fingerprint_is_identity)
    (simp_all add: ssh_finding_def finding_identity_def bar_free_def)

end
