(* ===== verification/Database.thy ===== *)
theory Database
  imports Ledger Findings
begin

text \<open>
  \<open>backend/app/db/tables.py\<close>: the tables as lists of rows in insertion order, with the
  constraints SQLite enforces (\<open>db/session.py\<close> turns foreign keys on): unique columns, foreign
  keys, and the cascade of a deleted scan.  Identifiers are drawn from a supply and times from a
  clock, the \<open>uuid4()\<close> and \<open>datetime.now(UTC)\<close> of the source; times are microseconds.  A
  transaction is one function: what it returns with \<open>Inl\<close> was rolled back.
\<close>

section \<open>Rows\<close>

record scope_row =
  sr_id :: py_str
  sr_name :: py_str
  sr_entries :: "py_str list"
  sr_allow_cgnat :: bool
  sr_allow_link_local :: bool
  sr_created_at :: int
  sr_updated_at :: int

record scan_row =
  sc_id :: py_str
  sc_scope_id :: py_str
  sc_target_input :: py_str
  sc_target_normalized :: py_str
  sc_target_type :: target_type
  sc_resolved_addrs :: "py_str list"
  sc_intensity_profile :: py_str
  sc_selected_modules :: "py_str list"
  sc_module_options :: json_object
  sc_status :: scan_status
  sc_note :: "py_str option"
  sc_attestation_text :: py_str
  sc_attestation_version :: py_str
  sc_attestation_at :: int
  sc_cancel_requested :: bool
  sc_claimed_by :: "py_str option"
  sc_created_at :: int
  sc_started_at :: "int option"
  sc_finished_at :: "int option"

record run_row =
  rn_id :: py_str
  rn_scan_id :: py_str
  rn_module :: py_str
  rn_status :: module_status
  rn_attempt_count :: int
  rn_cache_hit :: bool
  rn_finding_count :: int
  rn_error_code :: "py_str option"
  rn_error_message :: "py_str option"
  rn_started_at :: "int option"
  rn_finished_at :: "int option"

record finding_row =
  fr_id :: py_str
  fr_scan_id :: py_str
  fr_host :: py_str
  fr_port :: "int option"
  fr_category :: finding_category
  fr_kind :: py_str
  fr_title :: py_str
  fr_summary :: py_str
  fr_normalized_value :: json_object
  fr_raw_evidence :: "py_str option"
  fr_module :: py_str
  fr_observed_at :: int
  fr_confidence :: "confidence option"
  fr_sources :: "py_str list"
  fr_fingerprint :: py_str

record ledger_row = ledger_args +
  lr_id :: py_str
  lr_scan_id :: "py_str option"
  lr_scope_id :: "py_str option"
  lr_created_at :: int

record event_row =
  ev_id :: int
  ev_scan_id :: py_str
  ev_sequence :: int
  ev_module :: "py_str option"
  ev_type :: scan_event_type
  ev_payload :: json_object
  ev_created_at :: int

record cache_row =
  ca_key :: py_str
  ca_source :: py_str
  ca_schema_version :: int
  ca_status :: py_str
  ca_response :: "json_object option"
  ca_normalized :: "json_object option"
  ca_retrieved_at :: int
  ca_expires_at :: int

record lock_row =
  lk_owner_id :: py_str
  lk_pid :: int
  lk_hostname :: py_str
  lk_acquired_at :: int
  lk_heartbeat_at :: int

record database =
  db_scopes :: "scope_row list"
  db_scans :: "scan_row list"
  db_runs :: "run_row list"
  db_findings :: "finding_row list"
  db_ledger :: "ledger_row list"
  db_events :: "event_row list"
  db_cache :: "cache_row list"
  db_lock :: "lock_row option"
  db_clock :: "nat \<Rightarrow> int"
  db_ticks :: nat
  db_uuids :: "nat \<Rightarrow> py_str"
  db_serial :: nat

section \<open>Clock and identifiers\<close>

definition utcnow :: "database \<Rightarrow> int" where
  "utcnow d = db_clock d (db_ticks d)"

definition tick :: "database \<Rightarrow> database" where
  "tick d = d\<lparr>db_ticks := Suc (db_ticks d)\<rparr>"

definition new_uuid :: "database \<Rightarrow> py_str" where
  "new_uuid d = db_uuids d (db_serial d)"

definition use_uuid :: "database \<Rightarrow> database" where
  "use_uuid d = d\<lparr>db_serial := Suc (db_serial d)\<rparr>"

section \<open>Reading\<close>

definition get_scope :: "database \<Rightarrow> py_str \<Rightarrow> scope_row option" where
  "get_scope d i = find (\<lambda>s. sr_id s = i) (db_scopes d)"

definition get_scan :: "database \<Rightarrow> py_str \<Rightarrow> scan_row option" where
  "get_scan d i = find (\<lambda>s. sc_id s = i) (db_scans d)"

definition runs_of :: "database \<Rightarrow> py_str \<Rightarrow> run_row list" where
  "runs_of d i = filter (\<lambda>r. rn_scan_id r = i) (db_runs d)"

definition scan_exists :: "database \<Rightarrow> py_str \<Rightarrow> bool" where
  "scan_exists d i = list_ex (\<lambda>s. sc_id s = i) (db_scans d)"

definition scope_exists :: "database \<Rightarrow> py_str \<Rightarrow> bool" where
  "scope_exists d i = list_ex (\<lambda>s. sr_id s = i) (db_scopes d)"

section \<open>Inserts, with the constraints\<close>

datatype db_error = IntegrityError py_str

definition insert_scope :: "scope_row \<Rightarrow> database \<Rightarrow> db_error + database" where
  "insert_scope r d =
     (if list_ex (\<lambda>s. sr_id s = sr_id r) (db_scopes d) then Inl (IntegrityError ''scope_profiles.id'')
      else if list_ex (\<lambda>s. sr_name s = sr_name r) (db_scopes d)
        then Inl (IntegrityError ''scope_profiles.name'')
      else Inr (d\<lparr>db_scopes := db_scopes d @ [r]\<rparr>))"

definition insert_scan :: "scan_row \<Rightarrow> database \<Rightarrow> db_error + database" where
  "insert_scan r d =
     (if scan_exists d (sc_id r) then Inl (IntegrityError ''scans.id'')
      else if \<not> scope_exists d (sc_scope_id r) then Inl (IntegrityError ''scans.scope_id'')
      else Inr (d\<lparr>db_scans := db_scans d @ [r]\<rparr>))"

definition insert_run :: "run_row \<Rightarrow> database \<Rightarrow> db_error + database" where
  "insert_run r d =
     (if \<not> scan_exists d (rn_scan_id r) then Inl (IntegrityError ''module_runs.scan_id'')
      else if list_ex (\<lambda>x. rn_scan_id x = rn_scan_id r \<and> rn_module x = rn_module r) (db_runs d)
        then Inl (IntegrityError ''uq_module_run_scan_module'')
      else Inr (d\<lparr>db_runs := db_runs d @ [r]\<rparr>))"

definition insert_finding :: "finding_row \<Rightarrow> database \<Rightarrow> db_error + database" where
  "insert_finding r d =
     (if \<not> scan_exists d (fr_scan_id r) then Inl (IntegrityError ''findings.scan_id'')
      else Inr (d\<lparr>db_findings := db_findings d @ [r]\<rparr>))"

definition insert_ledger :: "ledger_row \<Rightarrow> database \<Rightarrow> db_error + database" where
  "insert_ledger r d =
     (if (case lr_scan_id r of None \<Rightarrow> True | Some i \<Rightarrow> scan_exists d i)
      then Inr (d\<lparr>db_ledger := db_ledger d @ [r]\<rparr>)
      else Inl (IntegrityError ''scan_ledger.scan_id''))"

definition insert_event :: "event_row \<Rightarrow> database \<Rightarrow> db_error + database" where
  "insert_event r d =
     (if \<not> scan_exists d (ev_scan_id r) then Inl (IntegrityError ''scan_events.scan_id'')
      else if list_ex (\<lambda>x. ev_scan_id x = ev_scan_id r \<and> ev_sequence x = ev_sequence r) (db_events d)
        then Inl (IntegrityError ''uq_event_scan_sequence'')
      else Inr (d\<lparr>db_events := db_events d @ [r]\<rparr>))"

section \<open>Updates and deletes\<close>

text \<open>\<open>update(T).where(P).values(f)\<close>, and the number of rows it touched.\<close>

definition update_scans :: "(scan_row \<Rightarrow> bool) \<Rightarrow> (scan_row \<Rightarrow> scan_row) \<Rightarrow> database \<Rightarrow> database" where
  "update_scans P f d = d\<lparr>db_scans := map (\<lambda>s. if P s then f s else s) (db_scans d)\<rparr>"

definition update_runs :: "(run_row \<Rightarrow> bool) \<Rightarrow> (run_row \<Rightarrow> run_row) \<Rightarrow> database \<Rightarrow> database" where
  "update_runs P f d = d\<lparr>db_runs := map (\<lambda>r. if P r then f r else r) (db_runs d)\<rparr>"

definition matching_scans :: "(scan_row \<Rightarrow> bool) \<Rightarrow> database \<Rightarrow> nat" where
  "matching_scans P d = length (filter P (db_scans d))"

definition matching_runs :: "(run_row \<Rightarrow> bool) \<Rightarrow> database \<Rightarrow> nat" where
  "matching_runs P d = length (filter P (db_runs d))"

text \<open>\<open>delete(ScanRow).where(P)\<close>: \<open>ON DELETE CASCADE\<close> takes the dependent rows along.\<close>

definition delete_scans :: "(scan_row \<Rightarrow> bool) \<Rightarrow> database \<Rightarrow> database" where
  "delete_scans P d =
     (let gone = map sc_id (filter P (db_scans d)) in
      d\<lparr>db_scans := filter (\<lambda>s. \<not> P s) (db_scans d),
        db_runs := filter (\<lambda>r. rn_scan_id r \<notin> set gone) (db_runs d),
        db_findings := filter (\<lambda>r. fr_scan_id r \<notin> set gone) (db_findings d),
        db_ledger := filter (\<lambda>r. case lr_scan_id r of None \<Rightarrow> True | Some i \<Rightarrow> i \<notin> set gone)
          (db_ledger d),
        db_events := filter (\<lambda>r. ev_scan_id r \<notin> set gone) (db_events d)\<rparr>)"

section \<open>Integrity\<close>

text \<open>What the constraints keep: unique keys, and no row that refers to a scan or scope not there.\<close>

definition db_ok :: "database \<Rightarrow> bool" where
  "db_ok d \<longleftrightarrow>
     distinct (map sc_id (db_scans d)) \<and> distinct (map sr_id (db_scopes d))
     \<and> distinct (map sr_name (db_scopes d))
     \<and> distinct (map (\<lambda>r. (rn_scan_id r, rn_module r)) (db_runs d))
     \<and> distinct (map (\<lambda>r. (ev_scan_id r, ev_sequence r)) (db_events d))
     \<and> (\<forall>s \<in> set (db_scans d). scope_exists d (sc_scope_id s))
     \<and> (\<forall>r \<in> set (db_runs d). scan_exists d (rn_scan_id r))
     \<and> (\<forall>r \<in> set (db_findings d). scan_exists d (fr_scan_id r))
     \<and> (\<forall>r \<in> set (db_events d). scan_exists d (ev_scan_id r))
     \<and> (\<forall>r \<in> set (db_ledger d). \<forall>i. lr_scan_id r = Some i \<longrightarrow> scan_exists d i)"

definition empty_db :: "(nat \<Rightarrow> int) \<Rightarrow> (nat \<Rightarrow> py_str) \<Rightarrow> database" where
  "empty_db clk ids = \<lparr>db_scopes = [], db_scans = [], db_runs = [], db_findings = [],
     db_ledger = [], db_events = [], db_cache = [], db_lock = None, db_clock = clk, db_ticks = 0,
     db_uuids = ids, db_serial = 0\<rparr>"

lemmas insert_defs = insert_scope_def insert_scan_def insert_run_def insert_finding_def
  insert_ledger_def insert_event_def

lemma scan_exists_iff: "scan_exists d i \<longleftrightarrow> i \<in> sc_id ` set (db_scans d)"
  by (auto simp: scan_exists_def list_ex_iff)

lemma scope_exists_iff: "scope_exists d i \<longleftrightarrow> i \<in> sr_id ` set (db_scopes d)"
  by (auto simp: scope_exists_def list_ex_iff)

lemma get_scan_None_iff: "get_scan d i = None \<longleftrightarrow> \<not> scan_exists d i"
  by (auto simp: get_scan_def scan_exists_def list_ex_iff find_None_iff)

lemma get_scan_in: "get_scan d i = Some s \<Longrightarrow> s \<in> set (db_scans d) \<and> sc_id s = i"
  by (auto simp: get_scan_def find_Some_iff)

lemma empty_db_ok: "db_ok (empty_db clk ids)"
  by (simp add: db_ok_def empty_db_def)

section \<open>What the clock and the identifiers leave alone\<close>

lemma tick_fields [simp]:
  "db_scopes (tick d) = db_scopes d" "db_scans (tick d) = db_scans d" "db_runs (tick d) = db_runs d"
  "db_findings (tick d) = db_findings d" "db_ledger (tick d) = db_ledger d"
  "db_events (tick d) = db_events d" "db_cache (tick d) = db_cache d" "db_lock (tick d) = db_lock d"
  by (simp_all add: tick_def)

lemma uuid_fields [simp]:
  "db_scopes (use_uuid d) = db_scopes d" "db_scans (use_uuid d) = db_scans d"
  "db_runs (use_uuid d) = db_runs d" "db_findings (use_uuid d) = db_findings d"
  "db_ledger (use_uuid d) = db_ledger d" "db_events (use_uuid d) = db_events d"
  "db_cache (use_uuid d) = db_cache d" "db_lock (use_uuid d) = db_lock d"
  by (simp_all add: use_uuid_def)

section \<open>Every operation keeps the integrity\<close>


lemma insert_scope_ok: "insert_scope r d = Inr d' \<Longrightarrow> db_ok d \<Longrightarrow> db_ok d'"
  by (fastforce simp: insert_scope_def db_ok_def list_ex_iff scope_exists_iff scan_exists_iff split: if_splits)

lemma insert_scan_ok: "insert_scan r d = Inr d' \<Longrightarrow> db_ok d \<Longrightarrow> db_ok d'"
  by (auto simp: insert_scan_def db_ok_def scope_exists_iff scan_exists_iff split: if_splits)

lemma list_ex_key: "list_ex (\<lambda>x. f x = a \<and> g x = b) xs \<longleftrightarrow> (a, b) \<in> (\<lambda>x. (f x, g x)) ` set xs"
  by (auto simp: list_ex_iff)

lemma insert_run_ok: "insert_run r d = Inr d' \<Longrightarrow> db_ok d \<Longrightarrow> db_ok d'"
  by (simp add: insert_run_def db_ok_def list_ex_key scope_exists_iff scan_exists_iff split: if_splits)
    auto

lemma insert_finding_ok: "insert_finding r d = Inr d' \<Longrightarrow> db_ok d \<Longrightarrow> db_ok d'"
  by (auto simp: insert_finding_def db_ok_def scope_exists_iff scan_exists_iff split: if_splits)

lemma insert_ledger_ok: "insert_ledger r d = Inr d' \<Longrightarrow> db_ok d \<Longrightarrow> db_ok d'"
  by (auto simp: insert_ledger_def db_ok_def scope_exists_iff scan_exists_iff split: if_splits option.splits)

lemma insert_event_ok: "insert_event r d = Inr d' \<Longrightarrow> db_ok d \<Longrightarrow> db_ok d'"
  by (simp add: insert_event_def db_ok_def list_ex_key scope_exists_iff scan_exists_iff split: if_splits)
    auto

lemmas inserts_ok = insert_scope_ok insert_scan_ok insert_run_ok insert_finding_ok insert_ledger_ok insert_event_ok

text \<open>An update keeps the keys: a projection that the new values leave alone is unchanged.\<close>

lemma map_update: "(\<And>x. g (f x) = g x) \<Longrightarrow> map (g \<circ> (\<lambda>x. if P x then f x else x)) xs = map g xs"
  by simp

lemma image_update: "(\<And>x. g (f x) = g x) \<Longrightarrow> (\<lambda>x. g (if P x then f x else x)) ` A = g ` A"
  by (auto simp: image_iff)

lemma update_scans_exist [simp]:
  "(\<And>s. sc_id (f s) = sc_id s) \<Longrightarrow> scan_exists (update_scans P f d) = scan_exists d"
  using image_update [of sc_id f] by (auto simp: scan_exists_iff update_scans_def image_image
      simp del: if_image_distrib)

lemma other_updates_exist [simp]:
  "scope_exists (update_scans P f d) = scope_exists d"
  "scan_exists (update_runs Q g d) = scan_exists d"
  "scope_exists (update_runs Q g d) = scope_exists d"
  "scope_exists (delete_scans P d) = scope_exists d"
  by (rule ext, simp add: scope_exists_iff scan_exists_iff update_scans_def update_runs_def
      delete_scans_def Let_def)+

lemma update_scans_fields [simp]:
  "db_scopes (update_scans P f d) = db_scopes d" "db_runs (update_scans P f d) = db_runs d"
  "db_findings (update_scans P f d) = db_findings d" "db_ledger (update_scans P f d) = db_ledger d"
  "db_events (update_scans P f d) = db_events d" "db_cache (update_scans P f d) = db_cache d"
  "db_lock (update_scans P f d) = db_lock d"
  by (simp_all add: update_scans_def)

lemma update_runs_fields [simp]:
  "db_scopes (update_runs P g d) = db_scopes d" "db_scans (update_runs P g d) = db_scans d"
  "db_findings (update_runs P g d) = db_findings d" "db_ledger (update_runs P g d) = db_ledger d"
  "db_events (update_runs P g d) = db_events d" "db_cache (update_runs P g d) = db_cache d"
  "db_lock (update_runs P g d) = db_lock d"
  by (simp_all add: update_runs_def)

lemma update_scans_ok:
  assumes f: "\<And>s. sc_id (f s) = sc_id s" "\<And>s. sc_scope_id (f s) = sc_scope_id s" and "db_ok d"
  shows "db_ok (update_scans P f d)"
proof -
  have "distinct (map sc_id (db_scans (update_scans P f d)))"
    using assms by (simp add: db_ok_def update_scans_def map_update del: map_eq_conv)
  moreover have "scope_exists d (sc_scope_id s)" if "s \<in> set (db_scans (update_scans P f d))" for s
    using that assms by (auto simp: db_ok_def update_scans_def)
  ultimately show ?thesis
    using assms by (simp add: db_ok_def)
qed

lemma update_runs_ok:
  assumes g: "\<And>r. rn_scan_id (g r) = rn_scan_id r" "\<And>r. rn_module (g r) = rn_module r"
    and "db_ok d"
  shows "db_ok (update_runs P g d)"
proof -
  have "distinct (map (\<lambda>r. (rn_scan_id r, rn_module r)) (db_runs (update_runs P g d)))"
    using map_update [of "\<lambda>r. (rn_scan_id r, rn_module r)" g P "db_runs d"] assms
    by (simp add: db_ok_def update_runs_def del: map_eq_conv)
  moreover have "scan_exists d (rn_scan_id r)" if "r \<in> set (db_runs (update_runs P g d))" for r
    using that assms by (auto simp: db_ok_def update_runs_def)
  ultimately show ?thesis
    using assms by (simp add: db_ok_def)
qed

lemma delete_scans_exist:
  "scan_exists (delete_scans P d) i \<longleftrightarrow> (\<exists>s \<in> set (db_scans d). sc_id s = i \<and> \<not> P s)"
  by (auto simp: scan_exists_iff delete_scans_def Let_def)

lemma delete_scans_ok:
  assumes "db_ok d"
  shows "db_ok (delete_scans P d)"
proof -
  have kept: "scan_exists (delete_scans P d) i"
    if "scan_exists d i" "i \<notin> sc_id ` {s \<in> set (db_scans d). P s}" for i
    using that by (auto simp: scan_exists_iff [of d] delete_scans_exist)
  show ?thesis
    using assms kept
    by (simp add: db_ok_def) (auto simp: delete_scans_def Let_def distinct_map_filter)
qed

lemma tick_uuid_ok [simp]: "db_ok (tick d) = db_ok d" "db_ok (use_uuid d) = db_ok d"
  by (simp_all add: db_ok_def tick_def use_uuid_def scan_exists_def scope_exists_def)

end
