(* ===== verification/Database_Ledger.thy ===== *)
theory Database_Ledger
  imports Guard_Contract Database
begin

text \<open>
  \<open>backend/app/db/ledger.py\<close>: the sink that writes the audit ledger to the database, bound to one
  scan or to none.  It provides the interface the guard records through for as long as the row of
  its scan is there; without it the insert violates the foreign key and \<open>record\<close> raises.
\<close>

record database_ledger =
  dl_scan_id :: "py_str option"
  dl_scope_id :: "py_str option"

definition for_scan :: "database_ledger \<Rightarrow> py_str \<Rightarrow> database_ledger" where
  "for_scan b scan_id = b\<lparr>dl_scan_id := Some scan_id\<rparr>"

definition ledger_row_of :: "database_ledger \<Rightarrow> ledger_args \<Rightarrow> py_str \<Rightarrow> int \<Rightarrow> ledger_row" where
  "ledger_row_of b e i t = ledger_args.extend e
     \<lparr>lr_id = i, lr_scan_id = dl_scan_id b, lr_scope_id = dl_scope_id b, lr_created_at = t\<rparr>"

definition db_record :: "database_ledger \<Rightarrow> ledger_args \<Rightarrow> database \<Rightarrow> db_error + database" where
  "db_record b e d =
     insert_ledger (ledger_row_of b e (new_uuid d) (utcnow d)) (use_uuid (tick d))"

text \<open>The sink the guard is given; where \<open>record\<close> raises, the transaction left nothing behind.\<close>

definition db_sink :: "database_ledger \<Rightarrow> ledger_args \<Rightarrow> database \<Rightarrow> database" where
  "db_sink b e d = (case db_record b e d of Inr d' \<Rightarrow> d' | Inl _ \<Rightarrow> d)"

text \<open>The entries written under the two identifiers, in the order of writing.\<close>

definition db_log :: "database_ledger \<Rightarrow> database \<Rightarrow> ledger_args list" where
  "db_log b d = map ledger_args.truncate
     (filter (\<lambda>r. lr_scan_id r = dl_scan_id b \<and> lr_scope_id r = dl_scope_id b) (db_ledger d))"

definition recordable :: "database_ledger \<Rightarrow> database \<Rightarrow> bool" where
  "recordable b d = (case dl_scan_id b of None \<Rightarrow> True | Some i \<Rightarrow> scan_exists d i)"

lemma ledger_row_of_fields [simp]:
  "lr_scan_id (ledger_row_of b e i t) = dl_scan_id b"
  "lr_scope_id (ledger_row_of b e i t) = dl_scope_id b"
  "ledger_args.truncate (ledger_row_of b e i t) = e"
  by (simp_all add: ledger_row_of_def ledger_args.defs)

lemma recordable_record:
  assumes "recordable b d"
  shows "db_record b e d = Inr ((use_uuid (tick d))\<lparr>db_ledger :=
    db_ledger d @ [ledger_row_of b e (new_uuid d) (utcnow d)]\<rparr>)"
  using assms by (simp add: db_record_def insert_ledger_def recordable_def scan_exists_def tick_def
      use_uuid_def split: option.splits)

lemma recordable_iff: "recordable b d \<longleftrightarrow> (\<exists>d'. db_record b e d = Inr d')"
  by (auto simp: db_record_def insert_ledger_def recordable_def scan_exists_def tick_def
      use_uuid_def split: option.splits)

interpretation dbl: ledger_sink "db_sink b" "db_log b" "recordable b"
proof
  fix e d assume "recordable b d"
  note row = recordable_record [OF this, of e]
  show "db_log b (db_sink b e d) = db_log b d @ [e]"
    by (simp add: db_sink_def row db_log_def)
  show "recordable b (db_sink b e d)"
    using \<open>recordable b d\<close>
    by (simp add: db_sink_def row recordable_def scan_exists_def tick_def use_uuid_def
        split: option.splits)
qed

text \<open>What a sink leaves alone: every table but the ledger, and every ledger row already there.\<close>

lemma db_sink_tables [frame_simps]:
  "db_scopes (db_sink b e d) = db_scopes d" "db_scans (db_sink b e d) = db_scans d"
  "db_runs (db_sink b e d) = db_runs d" "db_findings (db_sink b e d) = db_findings d"
  "db_events (db_sink b e d) = db_events d" "db_cache (db_sink b e d) = db_cache d"
  "db_lock (db_sink b e d) = db_lock d"
  by (simp_all add: db_sink_def db_record_def insert_ledger_def tick_def use_uuid_def
      split: sum.splits)

lemma db_sink_extends: "\<exists>new. db_ledger (db_sink b e d) = db_ledger d @ new"
  by (auto simp: db_sink_def db_record_def insert_ledger_def tick_def use_uuid_def
      split: sum.splits if_splits)

lemma db_sink_ok: "db_ok d \<Longrightarrow> db_ok (db_sink b e d)"
  by (auto simp: db_sink_def db_record_def split: sum.splits dest: insert_ledger_ok)

text \<open>
  A state predicate that every record keeps is kept by a validation: the form in which the
  services use the guard.  The entries of a validation name no port.
\<close>

lemma fold_sink_keeps:
  "(\<And>a d. P d \<Longrightarrow> P (sink (f a) d)) \<Longrightarrow> P d \<Longrightarrow> P (fold (\<lambda>a. sink (f a)) as d)"
  by (induction as arbitrary: d) simp_all

lemma entry_ports [simp]:
  "le_port (denied_entry a p r) = p" "le_port (allowed_entry a p r) = p"
  "le_decision (denied_entry a p r) = Denied" "le_decision (allowed_entry a p r) = Allowed"
  "le_destination (denied_entry a p r) = a" "le_destination (allowed_entry a p r) = a"
  by (simp_all add: denied_entry_def allowed_entry_def)

lemma deny_first_keeps:
  "(\<And>e d. P d \<Longrightarrow> le_port e = None \<Longrightarrow> P (sink e d)) \<Longrightarrow> P d \<Longrightarrow> P (snd (deny_first sink S t as d))"
  by (induction as) (auto simp: deny_def split: option.splits)

lemma validate_target_keeps_portless:
  assumes keeps: "\<And>e d. P d \<Longrightarrow> le_port e = None \<Longrightarrow> P (sink e d)" and "P d"
  shows "P (snd (validate_target sink R S t d))"
proof -
  have net: "P (snd (validate_network sink S n d))" for n
    using assms by (auto simp: validate_network_def deny_def split: option.splits)
  have addrs: "P (snd (validate_addresses sink S t as d))" for as
  proof -
    have "P (fold (\<lambda>a. sink (allowed_entry (str_addr a) None ''validated'')) as l)" if "P l" for l
      by (rule fold_sink_keeps [of P sink, OF keeps that]) simp_all
    then show ?thesis
      using deny_first_keeps [of P sink d S t as, OF keeps \<open>P d\<close>]
      by (auto simp: validate_addresses_def \<open>P d\<close> split: prod.splits sum.splits)
  qed
  show ?thesis
    using \<open>P d\<close> by (auto simp: validate_target_def split: sum.splits option.splits prod.splits)
      (metis net addrs snd_conv)+
qed

lemma validate_target_keeps:
  assumes keeps: "\<And>e d. P d \<Longrightarrow> P (sink e d)" and "P d"
  shows "P (snd (validate_target sink R S t d))"
  by (rule validate_target_keeps_portless) (use assms in auto)

text \<open>
  The probes on record: under an identifier, the allowed entries that name a port, with where they
  went.
\<close>

definition probed :: "ledger_row \<Rightarrow> bool" where
  "probed r \<longleftrightarrow> le_decision r = Allowed \<and> le_port r \<noteq> None"

definition probe_rows :: "py_str option \<Rightarrow> database \<Rightarrow> (py_str \<times> int option) list" where
  "probe_rows i d = map (\<lambda>r. (le_destination r, le_port r)) (filter (\<lambda>r. lr_scan_id r = i \<and> probed r) (db_ledger d))"

lemma ledger_row_of_args [simp]:
  "le_decision (ledger_row_of b e i t) = le_decision e" "le_port (ledger_row_of b e i t) = le_port e"
  "le_destination (ledger_row_of b e i t) = le_destination e"
  by (simp_all add: ledger_row_of_def ledger_args.defs)

lemma db_sink_probes:
  "probe_rows i (db_sink b e d) = probe_rows i d
     @ (if recordable b d \<and> dl_scan_id b = i \<and> le_decision e = Allowed \<and> le_port e \<noteq> None
        then [(le_destination e, le_port e)] else [])"
proof (cases "recordable b d")
  case True
  then show ?thesis by (simp add: db_sink_def recordable_record [OF True] probe_rows_def probed_def)
next
  case False
  then have "db_sink b e d = d" using recordable_iff [of b d e] by (auto simp: db_sink_def split: sum.splits)
  with False show ?thesis by simp
qed

lemma validate_target_probes: "probe_rows i (snd (validate_target (db_sink b) R S t d)) = probe_rows i d"
  by (rule validate_target_keeps_portless) (simp_all add: db_sink_probes)


section \<open>The audit ledger of the database\<close>

text \<open>A refusal is recorded against the scope that made it.  When a name or address is refused
  before any scan exists, the ledger of the database gains exactly one row: denied, with the
  refused address and the reason, with the deciding scope and without a scan, and every row that
  was there stays.\<close>

theorem refusal_is_attributed:
  assumes "classify resolver t = Inr (kind, as, None)" and "a \<in> set as"
    and "address_denial scope a \<noteq> None"
  shows "\<exists>d' a' reason row.
      validate_target (db_sink \<lparr>dl_scan_id = None, dl_scope_id = Some i\<rparr>) resolver scope t d
        = (Inl (TargetRejected (str_addr a') reason), d')
    \<and> a' \<in> set as \<and> db_ledger d' = db_ledger d @ [row]
    \<and> le_decision row = Denied \<and> le_destination row = str_addr a' \<and> le_reason row = reason
    \<and> lr_scope_id row = Some i \<and> lr_scan_id row = None"
proof -
  let ?b = "\<lparr>dl_scan_id = None, dl_scope_id = Some i\<rparr>"
  have ok: "recordable ?b d" by (simp add: recordable_def)
  obtain r a' where a': "a' \<in> set as" "address_denial scope a' = Some r"
    and first: "deny_first (db_sink ?b) scope t as d
      = deny (db_sink ?b) (str_addr a') None (from_target r t) d"
    using deny_first_Inl [OF assms(2,3), of "db_sink ?b" t d] by auto
  have "as \<noteq> []" using assms(2) by auto
  then have "validate_target (db_sink ?b) resolver scope t d
      = (Inl (TargetRejected (str_addr a') (from_target r t)),
         db_sink ?b (denied_entry (str_addr a') None (from_target r t)) d)"
    by (simp add: validate_target_def assms(1) validate_addresses_def first deny_def)
  with a' show ?thesis
    by (auto simp: db_sink_def recordable_record [OF ok] ledger_row_of_def denied_entry_def
        ledger_args.defs)
qed

lemma refusal_is_attributed_witness:
  "\<exists>e d'. validate_target (db_sink \<lparr>dl_scan_id = None, dl_scope_id = Some ''s''\<rparr>) split_resolver
      lab_scope ''nas.lab'' (empty_db (\<lambda>_. 0) str_of_nat) = (Inl e, d') \<and> length (db_ledger d') = 1"
proof -
  have "dns_google \<in> set [lab_host, dns_google]" by simp
  from refusal_is_attributed [OF lab_name_classified this dns_google_denied]
  show ?thesis by (fastforce simp: empty_db_def)
qed

end
