(* ===== verification/Modules_Base.thy ===== *)
theory Modules_Base
  imports Guard_Contract Findings "HOL-Library.List_Lexorder" "HOL-Library.Char_ord"
begin

text \<open>
  \<open>backend/app/modules/base.py\<close> and \<open>backend/app/modules/registry.py\<close>: the contract of a scan
  module, what it is given and returns, and the registry with its launch catalog.  A module's
  \<open>run\<close> transforms a world \<open>'w\<close>, which the runner fixes: the database, the governor and whatever
  else happens while the module is awaited.
\<close>

section \<open>The module contract\<close>

definition MVP_RELEASE :: py_str where "MVP_RELEASE = ''mvp''"
definition NEXT_RELEASE :: py_str where "NEXT_RELEASE = ''1.1''"

record module_metadata =
  md_name :: py_str
  md_display_name :: py_str
  md_description :: py_str
  md_category :: module_category
  md_supported_targets :: "target_type list"
  md_release :: py_str
  md_optional_dependency :: "py_str option"
  md_timeout_seconds :: rat
  md_cache_ttl_seconds :: "int option"
  md_order :: int

text \<open>The class with its default values.\<close>

definition module_metadata_defaults ::
  "py_str \<Rightarrow> py_str \<Rightarrow> py_str \<Rightarrow> module_category \<Rightarrow> target_type list \<Rightarrow> module_metadata" where
  "module_metadata_defaults name display_name description category supported_targets =
     \<lparr>md_name = name, md_display_name = display_name, md_description = description,
      md_category = category, md_supported_targets = supported_targets, md_release = MVP_RELEASE,
      md_optional_dependency = None, md_timeout_seconds = 120, md_cache_ttl_seconds = None,
      md_order = 50\<rparr>"

record module_context =
  cx_scan_id :: py_str
  cx_target :: validated_target
  cx_scope :: scope_profile
  cx_options :: json_object
  cx_prior_findings :: "finding list"

text \<open>\<open>dict.setdefault(k, []).append(v)\<close>: the key keeps its place, the value joins its list.\<close>

definition append_at :: "'k \<Rightarrow> 'v \<Rightarrow> ('k \<times> 'v list) list \<Rightarrow> ('k \<times> 'v list) list" where
  "append_at k v d = dict_set d k (dict_get d k [] @ [v])"

definition open_ports_by_host :: "module_context \<Rightarrow> (py_str \<times> int list) list" where
  "open_ports_by_host cx =
     map (\<lambda>(host, ports). (host, sort ports))
       (fold (\<lambda>f found. case f_port f of
                Some p \<Rightarrow> if f_kind f = ''port.open'' then append_at (f_host f) p found else found
              | None \<Rightarrow> found)
         (cx_prior_findings cx) [])"

record module_result =
  mr_findings :: "finding list"
  mr_cache_hit :: bool
  mr_warnings :: "py_str list"

text \<open>
  How a run can end other than with a result: the exceptions the runner tells apart, and any
  other one.
\<close>

datatype run_exn = RunTimeout | RunBudget py_str int | RunModuleError app_error
  | RunTargetRejected py_str py_str | RunOther py_str

record 'w scan_module =
  sm_metadata :: module_metadata
  sm_dependency :: "bool option"
  sm_run :: "module_context \<Rightarrow> 'w \<Rightarrow> (run_exn + module_result) \<times> 'w"

definition sm_name :: "'w scan_module \<Rightarrow> py_str" where
  "sm_name m = md_name (sm_metadata m)"

definition applies_to :: "'w scan_module \<Rightarrow> target_type \<Rightarrow> bool" where
  "applies_to m target_type = (target_type \<in> set (md_supported_targets (sm_metadata m)))"

text \<open>\<open>sm_dependency\<close> is a subclass's override of \<open>dependency_available\<close>, if it has one.\<close>

definition dependency_available :: "'w scan_module \<Rightarrow> bool" where
  "dependency_available m =
     (case sm_dependency m of Some b \<Rightarrow> b | None \<Rightarrow> md_optional_dependency (sm_metadata m) = None)"

definition readiness :: "'w scan_module \<Rightarrow> module_readiness" where
  "readiness m =
     (if md_release (sm_metadata m) \<noteq> MVP_RELEASE then Release11
      else if md_optional_dependency (sm_metadata m) \<noteq> None \<and> \<not> dependency_available m
        then NeedsExternalTool
      else Ready)"

section \<open>The registry\<close>

record module_catalog_entry =
  mc_name :: py_str
  mc_display_name :: py_str
  mc_description :: py_str
  mc_category :: module_category
  mc_supported_targets :: "py_str list"
  mc_readiness :: module_readiness
  mc_release :: py_str
  mc_optional_dependency :: "py_str option"

type_synonym 'w registry = "(py_str \<times> 'w scan_module) list"

text \<open>The error is the message of the \<open>ValueError\<close>.\<close>

definition register :: "'w scan_module \<Rightarrow> 'w registry \<Rightarrow> py_str + 'w registry" where
  "register m reg =
     (if dict_has reg (sm_name m)
      then Inl (''module '' @ py_repr (sm_name m) @ '' is already registered'')
      else Inr (dict_set reg (sm_name m) m))"

definition registry_names :: "'w registry \<Rightarrow> py_str list" where
  "registry_names reg = sort (map fst reg)"

definition registry_get :: "'w registry \<Rightarrow> py_str \<Rightarrow> app_error + 'w scan_module" where
  "registry_get reg name =
     (case map_of reg name of
        Some m \<Rightarrow> Inr m
      | None \<Rightarrow> Inl \<lparr>err_class = UnknownModuleError, err_message = ''unknown module '' @ py_repr name,
          err_details = [(''known_modules'', JList (map JStr (registry_names reg)))]\<rparr>)"

definition registry_has :: "'w registry \<Rightarrow> py_str \<Rightarrow> bool" where
  "registry_has reg name = dict_has reg name"

definition registry_all :: "'w registry \<Rightarrow> 'w scan_module list" where
  "registry_all reg = map (\<lambda>n. the (map_of reg n)) (registry_names reg)"

definition catalog_entry :: "target_type option \<Rightarrow> 'w scan_module \<Rightarrow> module_catalog_entry" where
  "catalog_entry tt m =
     \<lparr>mc_name = md_name (sm_metadata m), mc_display_name = md_display_name (sm_metadata m),
      mc_description = md_description (sm_metadata m), mc_category = md_category (sm_metadata m),
      mc_supported_targets = sort (map target_type_str (md_supported_targets (sm_metadata m))),
      mc_readiness = (case tt of
          Some t \<Rightarrow> if \<not> applies_to m t then NotApplicable else readiness m
        | None \<Rightarrow> readiness m),
      mc_release = md_release (sm_metadata m),
      mc_optional_dependency = md_optional_dependency (sm_metadata m)\<rparr>"

definition catalog :: "'w registry \<Rightarrow> target_type option \<Rightarrow> module_catalog_entry list" where
  "catalog reg tt = map (catalog_entry tt) (registry_all reg)"

text \<open>\<open>register_builtin_modules\<close>: what is registered already is left as it is.\<close>

fun register_builtin_modules :: "'w scan_module list \<Rightarrow> 'w registry \<Rightarrow> py_str + 'w registry" where
  "register_builtin_modules [] reg = Inr reg"
| "register_builtin_modules (m # ms) reg =
     (if registry_has reg (sm_name m) then register_builtin_modules ms reg
      else bind_sum (register m reg) (register_builtin_modules ms))"

section \<open>Lookups after registrations\<close>

definition registry_ok :: "'w registry \<Rightarrow> bool" where
  "registry_ok reg \<longleftrightarrow> distinct (map fst reg) \<and> (\<forall>(n, m) \<in> set reg. n = sm_name m)"

lemma registry_ok_Nil [simp]: "registry_ok []"
  by (simp add: registry_ok_def)

lemma update_absent: "\<not> dict_has d k \<Longrightarrow> dict_set d k v = d @ [(k, v)]"
  by (induction d) auto

lemma register_ok: "register m reg = Inr reg' \<Longrightarrow> registry_ok reg \<Longrightarrow> registry_ok reg'"
  by (auto simp: register_def registry_ok_def update_absent split: if_splits)

lemma register_get:
  assumes "register m reg = Inr reg'"
  shows "map_of reg' = (map_of reg)(sm_name m \<mapsto> m)"
  using assms by (auto simp: register_def update_conv' split: if_splits)

lemma registry_get_Inr_iff: "registry_get reg n = Inr m \<longleftrightarrow> map_of reg n = Some m"
  by (simp add: registry_get_def split: option.splits)

lemma registry_get_Inl_iff: "(\<exists>e. registry_get reg n = Inl e) \<longleftrightarrow> \<not> registry_has reg n"
  unfolding registry_has_def dict_has_iff by (simp add: registry_get_def split: option.splits)

lemma set_registry_names [simp]: "set (registry_names reg) = fst ` set reg"
  by (simp add: registry_names_def)

lemma registry_ok_name: "registry_ok reg \<Longrightarrow> map_of reg n = Some m \<Longrightarrow> sm_name m = n"
  by (auto simp: registry_ok_def dest!: map_of_SomeD)

lemma catalog_names:
  assumes "registry_ok reg"
  shows "map mc_name (catalog reg tt) = registry_names reg"
proof -
  have "mc_name (catalog_entry tt (the (map_of reg n))) = n" if "n \<in> set (registry_names reg)" for n
  proof -
    from that obtain m where "map_of reg n = Some m"
      by (cases "map_of reg n") (auto simp: map_of_eq_None_iff)
    then show ?thesis
      using registry_ok_name [OF assms] by (simp add: catalog_entry_def sm_name_def)
  qed
  then have "map (mc_name \<circ> (catalog_entry tt \<circ> (\<lambda>n. the (map_of reg n)))) (registry_names reg)
      = registry_names reg"
    by (intro map_idI) (simp only: comp_def)
  then show ?thesis by (simp add: catalog_def registry_all_def comp_def)
qed

text \<open>The launch catalog lists the registry.  For a registry built by registrations, the catalog
  has exactly one entry per registered module, in the order of the names, and for a given target
  type an entry is marked not applicable exactly when its module does not support that type.\<close>

theorem catalog_lists_registry:
  assumes "registry_ok reg"
  shows "sorted (map mc_name (catalog reg (Some t))) \<and> distinct (map mc_name (catalog reg (Some t)))
    \<and> (\<forall>n. registry_has reg n \<longleftrightarrow> n \<in> mc_name ` set (catalog reg (Some t)))
    \<and> (\<forall>n m. registry_get reg n = Inr m
         \<longrightarrow> (\<exists>e \<in> set (catalog reg (Some t)). mc_name e = n
              \<and> (mc_readiness e = NotApplicable \<longleftrightarrow> \<not> applies_to m t)))"
proof -
  have names: "map mc_name (catalog reg (Some t)) = registry_names reg"
    by (rule catalog_names [OF assms])
  have "sorted (registry_names reg)" and "distinct (registry_names reg)"
    using assms by (simp_all add: registry_names_def registry_ok_def)
  moreover have "registry_has reg n \<longleftrightarrow> n \<in> mc_name ` set (catalog reg (Some t))" for n
    by (metis names list.set_map set_registry_names registry_has_def)
  moreover have "\<exists>e \<in> set (catalog reg (Some t)). mc_name e = n
      \<and> (mc_readiness e = NotApplicable \<longleftrightarrow> \<not> applies_to m t)" if "registry_get reg n = Inr m" for n m
  proof -
    from that have m: "map_of reg n = Some m" by (simp add: registry_get_Inr_iff)
    then have "n \<in> fst ` set reg" by (metis map_of_eq_None_iff option.distinct(1))
    then have "catalog_entry (Some t) m \<in> set (catalog reg (Some t))"
      using m by (force simp: catalog_def registry_all_def)
    moreover have "mc_name (catalog_entry (Some t) m) = n"
      using registry_ok_name [OF assms m] by (simp add: catalog_entry_def sm_name_def)
    moreover have "mc_readiness (catalog_entry (Some t) m) = NotApplicable \<longleftrightarrow> \<not> applies_to m t"
      by (simp add: catalog_entry_def readiness_def)
    ultimately show ?thesis by blast
  qed
  ultimately show ?thesis by (simp add: names)
qed

definition host_only_module :: "unit scan_module" where
  "host_only_module = \<lparr>sm_metadata = module_metadata_defaults ''m'' ''M'' '''' CatDiscovery [TargetHost],
     sm_dependency = None, sm_run = (\<lambda>_ w. (Inl RunTimeout, w))\<rparr>"

lemma catalog_lists_registry_witness:
  "map mc_name (catalog [(''m'', host_only_module)] (Some TargetIp)) = [''m'']
     \<and> sorted (map mc_name (catalog [(''m'', host_only_module)] (Some TargetIp)))"
proof -
  have ok: "registry_ok [(''m'', host_only_module)]"
    by (simp add: registry_ok_def sm_name_def host_only_module_def module_metadata_defaults_def)
  show ?thesis
    using catalog_lists_registry [OF ok, of TargetIp] catalog_names [OF ok]
    by (simp add: registry_names_def)
qed

end
