(* ===== verification/Events.thy ===== *)
theory Events
  imports Database
begin

text \<open>
  \<open>backend/app/scan/events.py\<close> and the event stream of \<open>backend/app/api/scans.py\<close>: events are
  numbered per scan, stored, then handed to the live subscribers; a stream subscribes, replays
  what its client missed from the table and goes on with its queue.
\<close>

section \<open>Events and the publisher\<close>

record scan_event =
  se_scan_id :: py_str
  se_sequence :: int
  se_event_type :: scan_event_type
  se_module :: "py_str option"
  se_payload :: json_object

text \<open>The subscribers' queues, each known by the number it was created under.\<close>

record publisher =
  pb_subscribers :: "(py_str \<times> nat list) list"
  pb_queues :: "nat \<Rightarrow> scan_event list"
  pb_created :: nat

definition new_publisher :: publisher where
  "new_publisher = \<lparr>pb_subscribers = [], pb_queues = (\<lambda>_. []), pb_created = 0\<rparr>"

definition subscribe :: "py_str \<Rightarrow> publisher \<Rightarrow> nat \<times> publisher" where
  "subscribe scan_id p =
     (let q = pb_created p in
      (q, p\<lparr>pb_created := Suc q, pb_queues := (pb_queues p)(q := []),
            pb_subscribers := dict_set (pb_subscribers p) scan_id
              (dict_get (pb_subscribers p) scan_id [] @ [q])\<rparr>))"

definition unsubscribe :: "py_str \<Rightarrow> nat \<Rightarrow> publisher \<Rightarrow> publisher" where
  "unsubscribe scan_id q p =
     (case map_of (pb_subscribers p) scan_id of
        None \<Rightarrow> p
      | Some subscribers \<Rightarrow>
          (let left = filter (\<lambda>x. x \<noteq> q) subscribers in
           p\<lparr>pb_subscribers := (if left = [] then dict_pop (pb_subscribers p) scan_id
                                else dict_set (pb_subscribers p) scan_id left)\<rparr>))"

definition broadcast :: "scan_event \<Rightarrow> publisher \<Rightarrow> publisher" where
  "broadcast event p =
     p\<lparr>pb_queues := (\<lambda>q. if q \<in> set (dict_get (pb_subscribers p) (se_scan_id event) [])
                        then pb_queues p q @ [event] else pb_queues p q)\<rparr>"

section \<open>Publishing\<close>

definition next_sequence :: "database \<Rightarrow> py_str \<Rightarrow> int" where
  "next_sequence d scan_id =
     (case rev (sort (map ev_sequence (filter (\<lambda>e. ev_scan_id e = scan_id) (db_events d)))) of
        [] \<Rightarrow> 1 | highest # _ \<Rightarrow> highest + 1)"

text \<open>The key SQLite gives an \<open>INTEGER PRIMARY KEY\<close> column: one more than the largest there.\<close>

definition next_event_id :: "database \<Rightarrow> int" where
  "next_event_id d =
     (case rev (sort (map ev_id (db_events d))) of [] \<Rightarrow> 1 | highest # _ \<Rightarrow> highest + 1)"

record message =
  ms_scan_id :: py_str
  ms_event_type :: scan_event_type
  ms_payload :: json_object
  ms_module :: "py_str option"

text \<open>The two halves of \<open>publish\<close>: the number is read, then the row is written.\<close>

definition event_row_of :: "int \<Rightarrow> message \<Rightarrow> database \<Rightarrow> event_row" where
  "event_row_of sequence m d =
     \<lparr>ev_id = next_event_id d, ev_scan_id = ms_scan_id m, ev_sequence = sequence,
      ev_module = ms_module m, ev_type = ms_event_type m, ev_payload = ms_payload m,
      ev_created_at = utcnow d\<rparr>"

definition commit_event :: "int \<Rightarrow> message \<Rightarrow> database \<Rightarrow> db_error + database" where
  "commit_event sequence m d = insert_event (event_row_of sequence m d) (tick d)"

definition event_of :: "int \<Rightarrow> message \<Rightarrow> scan_event" where
  "event_of sequence m =
     \<lparr>se_scan_id = ms_scan_id m, se_sequence = sequence, se_event_type = ms_event_type m,
      se_module = ms_module m, se_payload = ms_payload m\<rparr>"

definition publish ::
  "message \<Rightarrow> database \<times> publisher \<Rightarrow> (db_error + scan_event) \<times> database \<times> publisher" where
  "publish m = (\<lambda>(d, p).
     let sequence = next_sequence d (ms_scan_id m) in
     case commit_event sequence m d of
       Inl e \<Rightarrow> (Inl e, d, p)
     | Inr d' \<Rightarrow> (Inr (event_of sequence m), d', broadcast (event_of sequence m) p))"

definition row_event :: "event_row \<Rightarrow> scan_event" where
  "row_event r =
     \<lparr>se_scan_id = ev_scan_id r, se_sequence = ev_sequence r, se_event_type = ev_type r,
      se_module = ev_module r, se_payload = ev_payload r\<rparr>"

definition events_since :: "database \<Rightarrow> py_str \<Rightarrow> int \<Rightarrow> scan_event list" where
  "events_since d scan_id after_sequence =
     map row_event (sort_key ev_sequence
       (filter (\<lambda>e. ev_scan_id e = scan_id \<and> ev_sequence e > after_sequence) (db_events d)))"

section \<open>The stream\<close>

text \<open>
  One turn of the stream's loop: the next event of its queue, or a keepalive when the wait for
  one times out.
\<close>

datatype sse_frame = Frame scan_event | Keepalive

definition stream_turn :: "nat \<Rightarrow> publisher \<Rightarrow> sse_frame \<times> publisher" where
  "stream_turn q p =
     (case pb_queues p q of
        [] \<Rightarrow> (Keepalive, p)
      | e # es \<Rightarrow> (Frame e, p\<lparr>pb_queues := (pb_queues p)(q := es)\<rparr>))"

fun stream_turns :: "nat \<Rightarrow> nat \<Rightarrow> publisher \<Rightarrow> sse_frame list \<times> publisher" where
  "stream_turns 0 q p = ([], p)"
| "stream_turns (Suc n) q p =
     (case stream_turn q p of
        (f, p1) \<Rightarrow> (case stream_turns n q p1 of (fs, p2) \<Rightarrow> (f # fs, p2)))"

definition stream_replay :: "database \<Rightarrow> py_str \<Rightarrow> int \<Rightarrow> sse_frame list" where
  "stream_replay d scan_id last_event_id = map Frame (events_since d scan_id last_event_id)"

text \<open>The bytes of a frame; \<open>json.dumps\<close> is the parameter.\<close>

definition newline :: py_str where "newline = [CHR 0x0A]"

definition format_event :: "(json_object \<Rightarrow> py_str) \<Rightarrow> scan_event \<Rightarrow> py_str" where
  "format_event dumps e =
     ''id: '' @ str_of_int (se_sequence e) @ newline
     @ ''event: '' @ scan_event_type_str (se_event_type e) @ newline
     @ ''data: '' @ dumps (dict_update [(''module'', case se_module e of None \<Rightarrow> JNull | Some m \<Rightarrow> JStr m)]
         (se_payload e)) @ newline @ newline"

fun format_frame :: "(json_object \<Rightarrow> py_str) \<Rightarrow> sse_frame \<Rightarrow> py_str" where
  "format_frame dumps (Frame e) = format_event dumps e"
| "format_frame dumps Keepalive = '': keepalive'' @ newline @ newline"

section \<open>The log of a scan is numbered from one\<close>

definition events_of :: "database \<Rightarrow> py_str \<Rightarrow> event_row list" where
  "events_of d i = filter (\<lambda>e. ev_scan_id e = i) (db_events d)"

definition numbered :: "event_row list \<Rightarrow> bool" where
  "numbered es \<longleftrightarrow> map ev_sequence es = map int [1..<Suc (length es)]"

definition contiguous :: "database \<Rightarrow> bool" where
  "contiguous d \<longleftrightarrow> (\<forall>i. numbered (events_of d i))"

lemma numbered_next:
  assumes "numbered es"
  shows "(case rev (sort (map ev_sequence es)) of [] \<Rightarrow> 1 | h # _ \<Rightarrow> h + 1) = int (length es) + 1"
proof -
  have "sort (map ev_sequence es) = map int [1..<Suc (length es)]"
    using assms by (simp add: numbered_def sorted_sort_id del: upt_Suc)
      (rule sorted_sort_id, simp add: sorted_map sorted_wrt_upt del: upt_Suc)
  then show ?thesis by (cases "length es") (simp_all)
qed

lemma next_sequence_contiguous:
  "contiguous d \<Longrightarrow> next_sequence d i = int (length (events_of d i)) + 1"
  using numbered_next [of "events_of d i"] by (simp add: next_sequence_def contiguous_def events_of_def)

lemma numbered_Nil [simp]: "numbered []"
  by (simp add: numbered_def)

lemma numbered_append: "numbered es \<Longrightarrow> ev_sequence e = int (length es) + 1 \<Longrightarrow> numbered (es @ [e])"
  by (simp add: numbered_def)

lemma numbered_sequences: "numbered es \<Longrightarrow> ev_sequence ` set es = int ` {1..length es}"
  by (metis numbered_def list.set_map atLeastLessThanSuc_atLeastAtMost set_upt)

lemma numbered_after:
  assumes "numbered es"
  shows "filter (\<lambda>e. ev_sequence e > k) es = drop (nat k) es"
proof -
  have nth: "ev_sequence (es ! j) = int j + 1" if "j < length es" for j
    using arg_cong [OF assms [unfolded numbered_def], of "\<lambda>xs. xs ! j"] that
    by (simp add: nth_append del: upt_Suc)
  have "filter (\<lambda>e. ev_sequence e > k) (take (nat k) es) = []"
    by (auto simp: filter_empty_conv in_set_conv_nth nth)
  moreover have "filter (\<lambda>e. ev_sequence e > k) (drop (nat k) es) = drop (nat k) es"
    by (auto simp: filter_id_conv in_set_conv_nth nth)
  ultimately show ?thesis
    by (metis append_take_drop_id filter_append self_append_conv2)
qed

lemma numbered_sorted: "numbered es \<Longrightarrow> sorted (map ev_sequence es)"
  by (simp add: numbered_def sorted_map sorted_wrt_upt del: upt_Suc)

lemma events_since_drop:
  assumes "contiguous d"
  shows "events_since d i k = map row_event (drop (nat k) (events_of d i))"
proof -
  have n: "numbered (events_of d i)" using assms by (simp add: contiguous_def)
  have "filter (\<lambda>e. ev_scan_id e = i \<and> ev_sequence e > k) (db_events d)
      = filter (\<lambda>e. ev_sequence e > k) (events_of d i)"
    by (simp add: events_of_def conj_commute)
  moreover have "sorted (map ev_sequence (drop (nat k) (events_of d i)))"
    using numbered_sorted [OF n] by (simp add: sorted_wrt_drop drop_map [symmetric])
  ultimately show ?thesis
    by (simp add: events_since_def numbered_after [OF n] sort_key_id_if_sorted)
qed

lemma event_row_of_fields [simp]:
  "ev_scan_id (event_row_of n m d) = ms_scan_id m" "ev_sequence (event_row_of n m d) = n"
  "row_event (event_row_of n m d) = event_of n m"
  by (simp_all add: event_row_of_def row_event_def event_of_def)

lemma commit_next:
  assumes "contiguous d" and "scan_exists d (ms_scan_id m)"
  shows "commit_event (next_sequence d (ms_scan_id m)) m d = Inr ((tick d)\<lparr>db_events :=
    db_events d @ [event_row_of (next_sequence d (ms_scan_id m)) m d]\<rparr>)"
proof -
  let ?n = "next_sequence d (ms_scan_id m)"
  have "numbered (events_of d (ms_scan_id m))" using assms(1) by (simp add: contiguous_def)
  then have "?n \<notin> ev_sequence ` set (events_of d (ms_scan_id m))"
    by (auto simp: numbered_sequences next_sequence_contiguous [OF assms(1)])
  then have "\<not> list_ex (\<lambda>x. ev_scan_id x = ms_scan_id m \<and> ev_sequence x = ?n) (db_events d)"
    by (force simp: list_ex_iff events_of_def)
  then show ?thesis
    using assms(2) by (simp add: commit_event_def insert_event_def scan_exists_def tick_def)
qed

lemma commit_gone:
  "\<not> scan_exists d (ms_scan_id m) \<Longrightarrow> commit_event n m d = Inl (IntegrityError ''scan_events.scan_id'')"
  by (simp add: commit_event_def insert_event_def scan_exists_def tick_def)

lemma publish_contiguous:
  assumes "contiguous d" and "scan_exists d (ms_scan_id m)"
  obtains d' where "publish m (d, p) = (Inr (event_of (next_sequence d (ms_scan_id m)) m), d',
      broadcast (event_of (next_sequence d (ms_scan_id m)) m) p)"
    and "map row_event (events_of d' (ms_scan_id m)) =
      map row_event (events_of d (ms_scan_id m)) @ [event_of (next_sequence d (ms_scan_id m)) m]"
    and "\<And>j. j \<noteq> ms_scan_id m \<Longrightarrow> events_of d' j = events_of d j"
    and "contiguous d'" and "scan_exists d' = scan_exists d"
proof -
  let ?row = "event_row_of (next_sequence d (ms_scan_id m)) m d"
  let ?d = "(tick d)\<lparr>db_events := db_events d @ [?row]\<rparr>"
  have new: "events_of ?d j = events_of d j @ (if j = ms_scan_id m then [?row] else [])" for j
    by (auto simp: events_of_def)
  have "contiguous ?d"
    using assms(1) unfolding contiguous_def new
    by (auto simp: next_sequence_contiguous [OF assms(1)] intro: numbered_append)
  with new commit_next [OF assms] show ?thesis
    by (intro that [of ?d]) (auto simp: publish_def Let_def scan_exists_def tick_def)
qed

lemma publish_gone:
  "\<not> scan_exists d (ms_scan_id m) \<Longrightarrow>
     publish m (d, p) = (Inl (IntegrityError ''scan_events.scan_id''), d, p)"
  by (simp add: publish_def commit_gone Let_def)

lemma delete_scans_contiguous: "contiguous d \<Longrightarrow> contiguous (delete_scans P d)"
proof -
  have "events_of (delete_scans P d) i =
      (if i \<in> sc_id ` {s \<in> set (db_scans d). P s} then [] else events_of d i)" for i
    by (auto simp: events_of_def delete_scans_def Let_def filter_empty_conv intro!: filter_cong)
  then show "contiguous d \<Longrightarrow> contiguous (delete_scans P d)"
    by (simp add: contiguous_def numbered_Nil)
qed


definition publish_each :: "message list \<Rightarrow> database \<times> publisher \<Rightarrow> database \<times> publisher" where
  "publish_each ms s = fold (\<lambda>m s. snd (publish m s)) ms s"

section \<open>Subscribers\<close>

definition listens_only :: "publisher \<Rightarrow> nat \<Rightarrow> py_str \<Rightarrow> bool" where
  "listens_only p q i \<longleftrightarrow> (\<forall>j. q \<in> set (dict_get (pb_subscribers p) j []) \<longleftrightarrow> j = i)"

definition publisher_ok :: "publisher \<Rightarrow> bool" where
  "publisher_ok p \<longleftrightarrow> (\<forall>j. \<forall>x \<in> set (dict_get (pb_subscribers p) j []). x < pb_created p)"

lemma fresh_queue: "publisher_ok p \<Longrightarrow> pb_created p \<notin> set (dict_get (pb_subscribers p) j [])"
  by (auto simp: publisher_ok_def)

lemma subscribe_listens:
  assumes "publisher_ok p" and "subscribe i p = (q, p')"
  shows "listens_only p' q i" and "pb_queues p' q = []" and "publisher_ok p'"
  using assms fresh_queue [OF assms(1)]
  by (auto simp: subscribe_def Let_def listens_only_def publisher_ok_def less_Suc_eq
      split: if_splits)

lemma unsubscribe_ok:
  assumes "publisher_ok p"
  shows "publisher_ok (unsubscribe i q p)"
proof (cases "map_of (pb_subscribers p) i")
  case (Some subs)
  then have "dict_get (pb_subscribers p) i [] = subs" by (simp add: dict_get_def)
  with Some assms show ?thesis
    by (auto simp: unsubscribe_def publisher_ok_def Let_def)
qed (use assms in \<open>simp add: unsubscribe_def\<close>)

lemma broadcast_ok [simp]:
  "publisher_ok (broadcast e p) = publisher_ok p"
  "listens_only (broadcast e p) q i = listens_only p q i"
  by (simp_all add: broadcast_def publisher_ok_def listens_only_def)

lemma broadcast_queue:
  "listens_only p q i \<Longrightarrow>
     pb_queues (broadcast e p) q = pb_queues p q @ (if se_scan_id e = i then [e] else [])"
  by (auto simp: broadcast_def listens_only_def)

lemma publish_log:
  assumes "contiguous d" and "listens_only p q i" and "publish m (d, p) = (r, d', p')"
  shows "contiguous d' \<and> scan_exists d' = scan_exists d \<and> listens_only p' q i
    \<and> (\<exists>es. pb_queues p' q = pb_queues p q @ es
         \<and> map row_event (events_of d' i) = map row_event (events_of d i) @ es
         \<and> length es = (if ms_scan_id m = i \<and> scan_exists d i then 1 else 0))"
proof (cases "scan_exists d (ms_scan_id m)")
  case True
  let ?e = "event_of (next_sequence d (ms_scan_id m)) m"
  have scan: "se_scan_id ?e = ms_scan_id m" by (simp add: event_of_def)
  obtain d1 where one: "publish m (d, p) = (Inr ?e, d1, broadcast ?e p)"
    and log: "map row_event (events_of d1 (ms_scan_id m))
      = map row_event (events_of d (ms_scan_id m)) @ [?e]"
    and others: "\<And>j. j \<noteq> ms_scan_id m \<Longrightarrow> events_of d1 j = events_of d j"
    and ok: "contiguous d1" "scan_exists d1 = scan_exists d"
    using publish_contiguous [OF assms(1) True, of p] by blast
  have same: "d' = d1" "p' = broadcast ?e p" using one assms(3) by simp_all
  show ?thesis
    using log others ok assms(2) True
    by (cases "ms_scan_id m = i") (auto simp: same broadcast_queue [OF assms(2)] scan)
next
  case False
  with publish_gone assms show ?thesis by auto
qed

lemma publish_each_log:
  assumes "contiguous d" and "listens_only p q i" and "publish_each ms (d, p) = (d', p')"
  shows "contiguous d' \<and> scan_exists d' = scan_exists d \<and> listens_only p' q i
    \<and> (\<exists>es. pb_queues p' q = pb_queues p q @ es
         \<and> map row_event (events_of d' i) = map row_event (events_of d i) @ es
         \<and> length es = (if scan_exists d i then length (filter (\<lambda>m. ms_scan_id m = i) ms) else 0))"
  using assms
proof (induction ms arbitrary: d p)
  case Nil
  then show ?case by (simp add: publish_each_def)
next
  case (Cons m ms)
  obtain r d1 p1 where one: "publish m (d, p) = (r, d1, p1)" by (metis prod.collapse)
  then have rest: "publish_each ms (d1, p1) = (d', p')"
    using Cons.prems(3) by (simp add: publish_each_def)
  note first = publish_log [OF Cons.prems(1,2) one]
  then obtain es where es: "pb_queues p1 q = pb_queues p q @ es"
      "map row_event (events_of d1 i) = map row_event (events_of d i) @ es"
      "length es = (if ms_scan_id m = i \<and> scan_exists d i then 1 else 0)" by blast
  from Cons.IH [OF _ _ rest] first obtain es' where es': "contiguous d'" "scan_exists d' = scan_exists d"
      "listens_only p' q i" "pb_queues p' q = pb_queues p1 q @ es'"
      "map row_event (events_of d' i) = map row_event (events_of d1 i) @ es'"
      "length es' = (if scan_exists d i then length (filter (\<lambda>m. ms_scan_id m = i) ms) else 0)"
    by auto
  then show ?case
    using es by (intro conjI exI [of _ "es @ es'"]) auto
qed

lemma stream_turns_drain: "fst (stream_turns (length (pb_queues p q)) q p) = map Frame (pb_queues p q)"
proof (induction "pb_queues p q" arbitrary: p)
  case Nil
  then show ?case by (metis fst_conv list.size(3) list.map(1) stream_turns.simps(1))
next
  case (Cons e es)
  let ?p = "p\<lparr>pb_queues := (pb_queues p)(q := es)\<rparr>"
  have "fst (stream_turns (length es) q ?p) = map Frame es"
    using Cons.hyps(1) [of ?p] by simp
  then show ?case
    unfolding Cons.hyps(2) [symmetric] using Cons.hyps(2) [symmetric]
    by (cases "stream_turns (length es) q ?p") (simp add: stream_turn_def)
qed


section \<open>What the event log promises\<close>

text \<open>Events are numbered without a gap.  When the events of every scan carry the numbers 1, 2,
  3 \<dots> in the order they were stored, publishing for a scan that exists always succeeds, the new
  event gets the next number, and the log is numbered without a gap again; for a scan that is gone
  the foreign key refuses the row and nothing is stored or broadcast.\<close>

theorem publish_numbers:
  assumes "contiguous d"
  shows "(if scan_exists d (ms_scan_id m)
    then \<exists>e d'. publish m (d, p) = (Inr e, d', broadcast e p)
      \<and> se_sequence e = int (length (events_of d (ms_scan_id m))) + 1
      \<and> map row_event (events_of d' (ms_scan_id m))
          = map row_event (events_of d (ms_scan_id m)) @ [e] \<and> contiguous d'
    else publish m (d, p) = (Inl (IntegrityError ''scan_events.scan_id''), d, p))"
proof (cases "scan_exists d (ms_scan_id m)")
  case True
  let ?e = "event_of (next_sequence d (ms_scan_id m)) m"
  have "se_sequence ?e = int (length (events_of d (ms_scan_id m))) + 1"
    by (simp add: event_of_def next_sequence_contiguous [OF assms])
  moreover from publish_contiguous [OF assms True, of p] obtain d' where
    "publish m (d, p) = (Inr ?e, d', broadcast ?e p)" "contiguous d'"
    "map row_event (events_of d' (ms_scan_id m)) = map row_event (events_of d (ms_scan_id m)) @ [?e]"
    by blast
  ultimately show ?thesis using True by auto
qed (simp add: publish_gone)

text \<open>A scan of an empty scope, for the witnesses.\<close>

definition queued_scan :: "py_str \<Rightarrow> int \<Rightarrow> scan_row" where
  "queued_scan i created = \<lparr>sc_id = i, sc_scope_id = ''scope'', sc_target_input = ''192.168.1.10'',
     sc_target_normalized = ''192.168.1.10'', sc_target_type = TargetIp,
     sc_resolved_addrs = [''192.168.1.10''], sc_intensity_profile = ''polite'',
     sc_selected_modules = [''host_discovery''], sc_module_options = [], sc_status = ScanQueued,
     sc_note = None, sc_attestation_text = ''yes'', sc_attestation_version = ''v1'',
     sc_attestation_at = created, sc_cancel_requested = False, sc_claimed_by = None,
     sc_created_at = created, sc_started_at = None, sc_finished_at = None\<rparr>"

definition lab_db :: database where
  "lab_db = (empty_db (\<lambda>n. int n) str_of_nat)\<lparr>db_scopes := [\<lparr>sr_id = ''scope'', sr_name = ''lab'',
     sr_entries = [''192.168.1.0/24''], sr_allow_cgnat = False, sr_allow_link_local = False,
     sr_created_at = 0, sr_updated_at = 0\<rparr>], db_scans := [queued_scan ''a'' 10, queued_scan ''b'' 20]\<rparr>"

definition status_message :: message where
  "status_message = \<lparr>ms_scan_id = ''a'', ms_event_type = EvScanStatus, ms_payload = [],
     ms_module = None\<rparr>"

lemma lab_db_ok: "db_ok lab_db" "contiguous lab_db" "scan_exists lab_db ''a''"
  by (simp_all add: lab_db_def empty_db_def db_ok_def queued_scan_def contiguous_def events_of_def
      scan_exists_def scope_exists_def)

lemma publish_numbers_witness:
  "\<exists>e d'. publish status_message (lab_db, new_publisher) = (Inr e, d', broadcast e new_publisher)
     \<and> se_sequence e = 1"
  using publish_numbers [OF lab_db_ok(2), of status_message new_publisher] lab_db_ok(3)
  by (auto simp: status_message_def events_of_def lab_db_def empty_db_def)

text \<open>A replay is exactly what was missed.  With a log numbered without a gap, \<open>events_since\<close> with
  the last number a client saw gives every later event of the scan, once, in the order of
  publication, and nothing else.\<close>

theorem replay_is_suffix:
  assumes "contiguous d"
  shows "events_since d i k = map row_event (drop (nat k) (events_of d i))"
  by (rule events_since_drop [OF assms])

lemma replay_is_suffix_witness: "events_since lab_db ''a'' 0 = []"
  using replay_is_suffix [OF lab_db_ok(2), of "''a''" 0]
  by (simp add: events_of_def lab_db_def empty_db_def)

text \<open>C36. A reconnecting stream loses nothing.  A client that saw the first \<open>k\<close> events of a scan
  subscribes, other tasks publish \<open>during\<close>, the stream replays, other tasks publish \<open>later\<close>: then
  the frames it sends are the replay, followed by the events published in between, which the
  replay already held, followed by the rest; without the repeated ones that is every event after
  the \<open>k\<close>-th, in order.  An event is therefore sent twice exactly when it was published between
  subscribing and replaying.\<close>

theorem stream_loses_nothing:
  assumes "contiguous d" and "publisher_ok p" and "0 \<le> k" and "k \<le> int (length (events_of d i))"
    and "subscribe i p = (q, p1)"
    and "publish_each during (d, p1) = (d2, p2)" and "publish_each later (d2, p2) = (d3, p3)"
  shows "\<exists>again fresh.
      stream_replay d2 i k @ fst (stream_turns (length (pb_queues p3 q)) q p3)
        = map Frame (events_since d2 i k @ again @ fresh)
    \<and> events_since d2 i k @ fresh = events_since d3 i k
    \<and> set again \<subseteq> set (events_since d2 i k)
    \<and> length again = (if scan_exists d i then length (filter (\<lambda>m. ms_scan_id m = i) during) else 0)"
proof -
  note sub = subscribe_listens [OF assms(2,5)]
  from publish_each_log [OF assms(1) sub(1) assms(6)] sub(2) obtain again where
    one: "contiguous d2" "listens_only p2 q i" "scan_exists d2 = scan_exists d"
      "pb_queues p2 q = again"
      "map row_event (events_of d2 i) = map row_event (events_of d i) @ again"
      "length again = (if scan_exists d i then length (filter (\<lambda>m. ms_scan_id m = i) during) else 0)"
    by auto
  from publish_each_log [OF one(1,2) assms(7)] obtain fresh where
    two: "contiguous d3" "pb_queues p3 q = again @ fresh"
      "map row_event (events_of d3 i) = map row_event (events_of d2 i) @ fresh"
    using one(4) by auto
  have k: "nat k \<le> length (map row_event (events_of d i))"
    using assms(3,4) by simp
  have since2: "events_since d2 i k = drop (nat k) (map row_event (events_of d i)) @ again"
    using k by (simp add: events_since_drop [OF one(1)] drop_map [symmetric] one(5))
  have since3: "events_since d3 i k = events_since d2 i k @ fresh"
    using k by (simp add: events_since_drop [OF two(1)] since2 drop_map [symmetric] two(3) one(5))
  have "fst (stream_turns (length (pb_queues p3 q)) q p3) = map Frame (again @ fresh)"
    using stream_turns_drain [of p3 q] two(2) by simp
  then show ?thesis
    using one(6) since2 since3
    by - (rule exI [of _ again], rule exI [of _ fresh], auto simp: stream_replay_def)
qed

lemma stream_loses_nothing_witness:
  "\<exists>again. length again = Suc (Suc 0) \<and> set again \<subseteq> set (events_since
     (fst (publish_each [status_message, status_message] (lab_db, snd (subscribe ''a'' new_publisher))))
       ''a'' 0)"
proof -
  obtain q p1 where sub: "subscribe ''a'' new_publisher = (q, p1)" by (metis prod.collapse)
  obtain d2 p2 where two: "publish_each [status_message, status_message] (lab_db, p1) = (d2, p2)"
    by (metis prod.collapse)
  have ok: "publisher_ok new_publisher" by (simp add: publisher_ok_def new_publisher_def)
  have none: "publish_each [] s = s" for s by (simp add: publish_each_def)
  show ?thesis
    using stream_loses_nothing [OF lab_db_ok(2) ok, of 0 "''a''" q p1 "[status_message, status_message]"
        d2 p2 "[]" d2 p2]
      sub two lab_db_ok(3) none
    by (auto simp: status_message_def)
qed

text \<open>Numbers are not reserved.  \<open>publish\<close> reads the highest number before it writes: when a second
  publisher of the same scan reads it before the first has committed, the second one's row violates
  the unique constraint and its \<open>publish\<close> raises.\<close>

theorem publish_race:
  assumes "contiguous d" and "scan_exists d (ms_scan_id m)" and "ms_scan_id m' = ms_scan_id m"
  shows "\<exists>d'. commit_event (next_sequence d (ms_scan_id m)) m d = Inr d'
    \<and> commit_event (next_sequence d (ms_scan_id m')) m' d'
        = Inl (IntegrityError ''uq_event_scan_sequence'')"
  using assms(2,3)
  by (simp add: commit_next [OF assms(1,2)])
    (simp add: commit_event_def insert_event_def scan_exists_def tick_def)

lemma publish_race_witness:
  "\<exists>d'. commit_event 1 status_message lab_db = Inr d'
     \<and> commit_event 1 status_message d' = Inl (IntegrityError ''uq_event_scan_sequence'')"
proof -
  have "next_sequence lab_db ''a'' = 1"
    by (simp add: next_sequence_def lab_db_def empty_db_def)
  then show ?thesis
    using publish_race [OF lab_db_ok(2), of status_message status_message] lab_db_ok(3)
    by (simp add: status_message_def)
qed

end
