(* ===== verification/Retention.thy ===== *)
theory Retention
  imports Events
begin

text \<open>
  \<open>backend/app/services/retention.py\<close>: finished scans past the retention window and expired
  provider answers are removed.  Times are microseconds, as in the database.
\<close>

definition DEFAULT_RETENTION_DAYS :: int where "DEFAULT_RETENTION_DAYS = 90"
definition MICROS_PER_SECOND :: int where "MICROS_PER_SECOND = 1000000"
definition MICROS_PER_DAY :: int where "MICROS_PER_DAY = 24 * 60 * 60 * MICROS_PER_SECOND"

record retention_summary =
  scans_deleted :: int
  cache_entries_deleted :: int

text \<open>\<open>now or datetime.now(UTC)\<close>: a given moment, or a reading of the clock.\<close>

definition read_now :: "int option \<Rightarrow> database \<Rightarrow> int \<times> database" where
  "read_now now d = (case now of Some t \<Rightarrow> (t, d) | None \<Rightarrow> (utcnow d, tick d))"

definition sweep_expired_cache :: "int option \<Rightarrow> database \<Rightarrow> int \<times> database" where
  "sweep_expired_cache now d =
     (case read_now now d of (moment, d) \<Rightarrow>
        (int (length (filter (\<lambda>r. ca_expires_at r \<le> moment) (db_cache d))),
         d\<lparr>db_cache := filter (\<lambda>r. \<not> ca_expires_at r \<le> moment) (db_cache d)\<rparr>))"

definition swept_statuses :: "scan_status list" where
  "swept_statuses = [ScanCompleted, ScanCompletedWithWarnings, ScanFailed, ScanCanceled]"

definition expired_scan :: "int \<Rightarrow> scan_row \<Rightarrow> bool" where
  "expired_scan cutoff s \<longleftrightarrow> sc_created_at s < cutoff \<and> sc_status s \<in> set swept_statuses"

definition sweep_old_scans :: "int \<Rightarrow> int option \<Rightarrow> database \<Rightarrow> int \<times> database" where
  "sweep_old_scans retention_days now d =
     (case read_now now d of (moment, d) \<Rightarrow>
        (let cutoff = moment - retention_days * MICROS_PER_DAY;
             expired_ids = map sc_id (filter (expired_scan cutoff) (db_scans d))
         in if expired_ids = [] then (0, d)
            else (int (length expired_ids), delete_scans (\<lambda>s. sc_id s \<in> set expired_ids) d)))"

definition run_retention :: "int \<Rightarrow> int option \<Rightarrow> database \<Rightarrow> retention_summary \<times> database" where
  "run_retention retention_days now d =
     (case sweep_old_scans retention_days now d of
        (scans, d1) \<Rightarrow>
          (case sweep_expired_cache now d1 of
             (cache, d2) \<Rightarrow> (\<lparr>scans_deleted = scans, cache_entries_deleted = cache\<rparr>, d2)))"

section \<open>What a sweep deletes\<close>

lemma expired_scan_iff: "expired_scan cutoff s \<longleftrightarrow> sc_created_at s < cutoff \<and> scan_terminal (sc_status s)"
  by (cases "sc_status s") (simp_all add: expired_scan_def swept_statuses_def)

lemma delete_none:
  assumes "\<forall>s \<in> set (db_scans d). \<not> P s"
  shows "delete_scans P d = d"
proof -
  have "filter P (db_scans d) = []" using assms by simp
  moreover have "filter (\<lambda>r. case lr_scan_id r of None \<Rightarrow> True | Some i \<Rightarrow> i \<notin> set []) (db_ledger d)
      = db_ledger d"
    by (rule filter_True) (simp split: option.splits)
  ultimately show ?thesis using assms by (simp add: delete_scans_def)
qed

lemma delete_scans_cong:
  "(\<And>s. s \<in> set (db_scans d) \<Longrightarrow> P s = Q s) \<Longrightarrow> delete_scans P d = delete_scans Q d"
  by (simp add: delete_scans_def Let_def cong: filter_cong)

lemma find_Some_in: "find P xs = Some x \<Longrightarrow> x \<in> set xs \<and> P x"
  by (auto simp: find_Some_iff)

text \<open>With unique keys, deleting by the selected keys is deleting the selected rows.\<close>

lemma sweep_old_scans_deletes:
  assumes "distinct (map sc_id (db_scans d))"
  shows "sweep_old_scans days (Some t) d =
    (let old = expired_scan (t - days * MICROS_PER_DAY)
     in (int (length (filter old (db_scans d))), delete_scans old d))"
proof -
  let ?P = "expired_scan (t - days * MICROS_PER_DAY)"
  let ?old = "filter ?P (db_scans d)"
  have "sc_id s \<in> set (map sc_id ?old) \<longleftrightarrow> ?P s" if "s \<in> set (db_scans d)" for s
    using that assms by (auto simp: distinct_map inj_on_def)
  then have "delete_scans (\<lambda>s. sc_id s \<in> set (map sc_id ?old)) d = delete_scans ?P d"
    by (rule delete_scans_cong)
  then show ?thesis
    by (auto simp: sweep_old_scans_def read_now_def Let_def filter_empty_conv delete_none
        simp del: set_map set_filter)
qed

lemma get_scan_deleted:
  assumes "distinct (map sc_id (db_scans d))"
  shows "get_scan (delete_scans P d) i
    = (case get_scan d i of Some s \<Rightarrow> if P s then None else Some s | None \<Rightarrow> None)"
proof -
  have "find (\<lambda>s. sc_id s = i) (filter (\<lambda>s. \<not> P s) ss)
      = (case find (\<lambda>s. sc_id s = i) ss of Some s \<Rightarrow> if P s then None else Some s | None \<Rightarrow> None)"
    if "distinct (map sc_id ss)" for ss
    using that by (induction ss) (auto split: option.splits dest!: find_Some_in)
  then show ?thesis
    using assms by (simp add: get_scan_def delete_scans_def Let_def)
qed

lemma delete_scans_dependents:
  assumes "distinct (map sc_id (db_scans d))" and "get_scan d i = Some s"
  shows "runs_of (delete_scans P d) i = (if P s then [] else runs_of d i)"
    and "events_of (delete_scans P d) i = (if P s then [] else events_of d i)"
    and "filter (\<lambda>r. fr_scan_id r = i) (db_findings (delete_scans P d))
      = (if P s then [] else filter (\<lambda>r. fr_scan_id r = i) (db_findings d))"
    and "filter (\<lambda>r. lr_scan_id r = Some i) (db_ledger (delete_scans P d))
      = (if P s then [] else filter (\<lambda>r. lr_scan_id r = Some i) (db_ledger d))"
proof -
  have gone: "i \<in> set (map sc_id (filter P (db_scans d))) \<longleftrightarrow> P s"
    using get_scan_in [OF assms(2)] assms(1) by (auto simp: distinct_map inj_on_def)
  show "runs_of (delete_scans P d) i = (if P s then [] else runs_of d i)"
    "events_of (delete_scans P d) i = (if P s then [] else events_of d i)"
    "filter (\<lambda>r. fr_scan_id r = i) (db_findings (delete_scans P d))
      = (if P s then [] else filter (\<lambda>r. fr_scan_id r = i) (db_findings d))"
    "filter (\<lambda>r. lr_scan_id r = Some i) (db_ledger (delete_scans P d))
      = (if P s then [] else filter (\<lambda>r. lr_scan_id r = Some i) (db_ledger d))"
    using gone
    by (auto simp: delete_scans_def Let_def runs_of_def events_of_def filter_empty_conv
        simp del: set_map set_filter intro!: filter_cong split: option.splits)
qed

lemma sweep_expired_cache_now:
  "sweep_expired_cache (Some t) d = (int (length (filter (\<lambda>r. ca_expires_at r \<le> t) (db_cache d))),
     d\<lparr>db_cache := filter (\<lambda>r. t < ca_expires_at r) (db_cache d)\<rparr>)"
  by (simp add: sweep_expired_cache_def read_now_def not_le)

lemma cache_update [simp]:
  "get_scan (d\<lparr>db_cache := c\<rparr>) i = get_scan d i" "runs_of (d\<lparr>db_cache := c\<rparr>) i = runs_of d i"
  "events_of (d\<lparr>db_cache := c\<rparr>) i = events_of d i" "db_ok (d\<lparr>db_cache := c\<rparr>) = db_ok d"
  "contiguous (d\<lparr>db_cache := c\<rparr>) = contiguous d"
  by (simp_all add: get_scan_def runs_of_def events_of_def db_ok_def contiguous_def
      scan_exists_def scope_exists_def)

lemma run_retention_now:
  assumes "db_ok d"
  shows "run_retention days (Some t) d =
    (let old = expired_scan (t - days * MICROS_PER_DAY) in
     (\<lparr>scans_deleted = int (length (filter old (db_scans d))),
       cache_entries_deleted = int (length (filter (\<lambda>r. ca_expires_at r \<le> t) (db_cache d)))\<rparr>,
      (delete_scans old d)\<lparr>db_cache := filter (\<lambda>r. t < ca_expires_at r) (db_cache d)\<rparr>))"
  using assms
  by (simp add: run_retention_def sweep_old_scans_deletes db_ok_def sweep_expired_cache_now Let_def)
    (simp add: delete_scans_def Let_def)

text \<open>C37. Retention removes finished scans past the window, and all of them.  A stored scan is
  deleted by a sweep exactly when it is terminal and older than the window; with it go its module
  runs, findings, ledger entries and events, while everything that belongs to a scan that stays is
  untouched; queued and running scans always stay, whatever their age.  The summary counts what
  went and the integrity of the database is kept.\<close>

theorem retention_sweeps_finished_only:
  assumes "db_ok d" and "get_scan d i = Some s"
    and "run_retention days (Some t) d = (summary, d')"
  shows "(if sc_created_at s < t - days * MICROS_PER_DAY \<and> scan_terminal (sc_status s)
     then get_scan d' i = None \<and> runs_of d' i = [] \<and> events_of d' i = []
       \<and> filter (\<lambda>r. fr_scan_id r = i) (db_findings d') = []
       \<and> filter (\<lambda>r. lr_scan_id r = Some i) (db_ledger d') = []
     else get_scan d' i = Some s \<and> runs_of d' i = runs_of d i \<and> events_of d' i = events_of d i
       \<and> filter (\<lambda>r. fr_scan_id r = i) (db_findings d') = filter (\<lambda>r. fr_scan_id r = i) (db_findings d)
       \<and> filter (\<lambda>r. lr_scan_id r = Some i) (db_ledger d')
           = filter (\<lambda>r. lr_scan_id r = Some i) (db_ledger d))
    \<and> db_cache d' = filter (\<lambda>r. t < ca_expires_at r) (db_cache d)
    \<and> scans_deleted summary = int (length (db_scans d)) - int (length (db_scans d'))
    \<and> db_ok d'"
proof -
  let ?old = "expired_scan (t - days * MICROS_PER_DAY)"
  have keys: "distinct (map sc_id (db_scans d))" using assms(1) by (simp add: db_ok_def)
  have d': "d' = (delete_scans ?old d)\<lparr>db_cache := filter (\<lambda>r. t < ca_expires_at r) (db_cache d)\<rparr>"
    and n: "scans_deleted summary = int (length (filter ?old (db_scans d)))"
    using assms(3) by (auto simp: run_retention_now [OF assms(1)] Let_def)
  have "db_scans d' = filter (\<lambda>s. \<not> ?old s) (db_scans d)"
    by (simp add: d' delete_scans_def Let_def)
  then have "scans_deleted summary = int (length (db_scans d)) - int (length (db_scans d'))"
    using n sum_length_filter_compl [of ?old "db_scans d"] by simp
  moreover have "db_ok d'" using delete_scans_ok [OF assms(1)] by (simp add: d')
  ultimately show ?thesis
    using delete_scans_dependents [OF keys assms(2), of ?old]
    by (simp add: d' get_scan_deleted [OF keys] assms(2) expired_scan_iff del: scan_terminal.simps)
qed

definition swept_db :: database where
  "swept_db = lab_db\<lparr>db_scans := [(queued_scan ''a'' 10)\<lparr>sc_status := ScanCompleted\<rparr>,
     queued_scan ''b'' 20]\<rparr>"

lemma retention_sweeps_finished_only_witness:
  "get_scan (snd (run_retention 0 (Some 15) swept_db)) ''a'' = None
     \<and> db_ok (snd (run_retention 0 (Some 15) swept_db))"
proof -
  have ok: "db_ok swept_db"
    by (simp add: swept_db_def lab_db_def empty_db_def db_ok_def queued_scan_def scope_exists_def)
  have "get_scan swept_db ''a'' = Some ((queued_scan ''a'' 10)\<lparr>sc_status := ScanCompleted\<rparr>)"
    by (simp add: get_scan_def swept_db_def queued_scan_def)
  from retention_sweeps_finished_only [OF ok this, of 0 15] show ?thesis
    by (cases "run_retention 0 (Some 15) swept_db") (simp add: queued_scan_def)
qed

end
