(* ===== verification/Scan_Service.thy ===== *)
theory Scan_Service
  imports Database_Ledger Modules_Base Retention
begin

text \<open>
  \<open>backend/app/services/scans.py\<close>: a scan is stored only after attestation, intensity, modules,
  scope and target have all passed, in that order.
\<close>

definition ATTESTATION_VERSION :: py_str where "ATTESTATION_VERSION = ''v1''"

definition ATTESTATION_TEXT :: py_str where
  "ATTESTATION_TEXT = ''I own the systems in this scope profile, or I hold written authorization to ''
     @ ''actively scan them, and I understand ScanLedger sends real network probes.''"

record scan_create =
  rq_scope_id :: py_str
  rq_target :: py_str
  rq_modules :: "py_str list"
  rq_intensity_profile :: py_str
  rq_note :: "py_str option"
  rq_attestation_accepted :: bool
  rq_module_options :: json_object

text \<open>What can leave a service: a typed error, another exception of the guard, the database's.\<close>

datatype service_exn = AppExn app_error | GuardExn guard_exn | DbExn db_error

definition load_scope_profile :: "database \<Rightarrow> py_str \<Rightarrow> app_error + scope_profile" where
  "load_scope_profile d scope_id =
     (case get_scope d scope_id of
        None \<Rightarrow> Inl (app_error ScopeNotFoundError (''no scope profile with id '' @ py_repr scope_id))
      | Some row \<Rightarrow>
          (case create_scope (sr_name row) (sr_entries row) (sr_allow_cgnat row)
                  (sr_allow_link_local row) of
             Inl message \<Rightarrow> Inl (app_error ScopeInvalidError message)
           | Inr scope \<Rightarrow> Inr scope))"

text \<open>The checks that come before the guard.\<close>

definition check_request :: "'w registry \<Rightarrow> scan_create \<Rightarrow> database \<Rightarrow> app_error + scope_profile" where
  "check_request reg request d =
     (if \<not> rq_attestation_accepted request
      then Inl (app_error AttestationRequiredError
        (''a scan cannot be launched until you confirm you own or are authorized ''
         @ ''to scan every host in this scope profile''))
      else if \<not> dict_has INTENSITY_PROFILES (rq_intensity_profile request)
      then Inl \<lparr>err_class = TargetInvalidError,
        err_message = ''unknown intensity profile '' @ py_repr (rq_intensity_profile request),
        err_details = [(''known_profiles'', JList (map JStr (sort (map fst INTENSITY_PROFILES))))]\<rparr>
      else
        (case map_sum_list (registry_get reg) (rq_modules request) of
           Inl e \<Rightarrow> Inl e
         | Inr _ \<Rightarrow> load_scope_profile d (rq_scope_id request)))"

definition resolved_of :: "validated_target \<Rightarrow> py_str list" where
  "resolved_of target =
     (case vt_network target of None \<Rightarrow> map str_addr (vt_addresses target)
      | Some network \<Rightarrow> [str_network network])"

definition new_scan_row :: "scan_create \<Rightarrow> validated_target \<Rightarrow> py_str \<Rightarrow> int \<Rightarrow> int \<Rightarrow> scan_row" where
  "new_scan_row request target scan_id attested created =
     \<lparr>sc_id = scan_id, sc_scope_id = rq_scope_id request, sc_target_input = rq_target request,
      sc_target_normalized = (case vt_network target of Some network \<Rightarrow> str_network network
        | None \<Rightarrow> resolved_of target ! 0),
      sc_target_type = vt_kind target, sc_resolved_addrs = resolved_of target,
      sc_intensity_profile = rq_intensity_profile request,
      sc_selected_modules = rq_modules request, sc_module_options = rq_module_options request,
      sc_status = ScanQueued, sc_note = rq_note request, sc_attestation_text = ATTESTATION_TEXT,
      sc_attestation_version = ATTESTATION_VERSION, sc_attestation_at = attested,
      sc_cancel_requested = False, sc_claimed_by = None, sc_created_at = created,
      sc_started_at = None, sc_finished_at = None\<rparr>"

definition new_run_row :: "py_str \<Rightarrow> py_str \<Rightarrow> py_str \<Rightarrow> run_row" where
  "new_run_row run_id scan_id module_name =
     \<lparr>rn_id = run_id, rn_scan_id = scan_id, rn_module = module_name, rn_status = ModQueued,
      rn_attempt_count = 0, rn_cache_hit = False, rn_finding_count = 0, rn_error_code = None,
      rn_error_message = None, rn_started_at = None, rn_finished_at = None\<rparr>"

fun insert_runs :: "py_str \<Rightarrow> py_str list \<Rightarrow> database \<Rightarrow> db_error + database" where
  "insert_runs scan_id [] d = Inr d"
| "insert_runs scan_id (m # ms) d =
     bind_sum (insert_run (new_run_row (new_uuid d) scan_id m) (use_uuid d)) (insert_runs scan_id ms)"

text \<open>The second transaction: the scan and its runs, or nothing.\<close>

definition store_scan :: "scan_create \<Rightarrow> validated_target \<Rightarrow> database \<Rightarrow> db_error + py_str \<times> database" where
  "store_scan request target d =
     (let scan_id = new_uuid d; attested = utcnow d; d1 = tick (use_uuid d) in
      bind_sum (insert_scan (new_scan_row request target scan_id attested (utcnow d1)) (tick d1)) (\<lambda>d2.
      bind_sum (insert_runs scan_id (rq_modules request) d2) (\<lambda>d3. Inr (scan_id, d3))))"

definition create_scan :: "resolver \<Rightarrow> 'w registry \<Rightarrow> scan_create \<Rightarrow> database \<Rightarrow>
    (service_exn + py_str) \<times> database" where
  "create_scan resolver reg request d =
     (case check_request reg request d of
        Inl e \<Rightarrow> (Inl (AppExn e), d)
      | Inr scope \<Rightarrow>
          (case validate_target (db_sink \<lparr>dl_scan_id = None, dl_scope_id = Some (rq_scope_id request)\<rparr>)
                  resolver scope (rq_target request) d of
             (Inl (TargetRejected target reason), d1) \<Rightarrow>
               (Inl (AppExn (scope_refused
                  (target @ '' is outside the authorized scope for this scan: '' @ reason)
                  target reason)), d1)
           | (Inl e, d1) \<Rightarrow> (Inl (GuardExn e), d1)
           | (Inr target, d1) \<Rightarrow>
               (case store_scan request target d1 of
                  Inl e \<Rightarrow> (Inl (DbExn e), d1)
                | Inr (scan_id, d2) \<Rightarrow> (Inr scan_id, d2))))"

section \<open>Facts about storing\<close>

lemma load_scope_created: "load_scope_profile d i = Inr scope \<Longrightarrow> created_scope scope"
  by (auto simp: load_scope_profile_def dest: create_scope_created split: option.splits sum.splits)

lemma insert_runs_Inr:
  "insert_runs i ms d = Inr d' \<Longrightarrow>
     db_scans d' = db_scans d \<and> db_scopes d' = db_scopes d \<and> db_ledger d' = db_ledger d
     \<and> db_findings d' = db_findings d \<and> db_events d' = db_events d
     \<and> (\<exists>new. db_runs d' = db_runs d @ new \<and> map rn_module new = ms
          \<and> list_all (\<lambda>r. rn_scan_id r = i \<and> rn_status r = ModQueued \<and> rn_attempt_count r = 0) new)"
proof (induction ms arbitrary: d)
  case (Cons m ms)
  then obtain d1 where one: "insert_run (new_run_row (new_uuid d) i m) (use_uuid d) = Inr d1"
    and rest: "insert_runs i ms d1 = Inr d'" by (auto simp: bind_sum_Inr_iff)
  from one have d1: "d1 = (use_uuid d)\<lparr>db_runs := db_runs d @ [new_run_row (new_uuid d) i m]\<rparr>"
    by (auto simp: insert_run_def split: if_splits)
  from Cons.IH [OF rest] obtain new where
    "db_runs d' = db_runs d1 @ new" "map rn_module new = ms"
    "list_all (\<lambda>r. rn_scan_id r = i \<and> rn_status r = ModQueued \<and> rn_attempt_count r = 0) new"
    by blast
  then show ?case
    using Cons.IH [OF rest]
    by (intro conjI exI [of _ "new_run_row (new_uuid d) i m # new"]) (auto simp: d1 new_run_row_def)
qed simp

lemma insert_runs_ok: "insert_runs i ms d = Inr d' \<Longrightarrow> db_ok d \<Longrightarrow> db_ok d'"
proof (induction ms arbitrary: d)
  case (Cons m ms)
  then show ?case using insert_run_ok by (fastforce simp: bind_sum_Inr_iff)
qed simp

text \<open>The unique constraint on a scan's runs: a module named twice cannot be stored.\<close>

lemma insert_runs_duplicate:
  assumes "\<not> distinct ms"
  shows "\<exists>e. insert_runs i ms d = Inl e"
proof (rule ccontr)
  assume "\<nexists>e. insert_runs i ms d = Inl e"
  then obtain d' where d': "insert_runs i ms d = Inr d'" by (cases "insert_runs i ms d") auto
  have "distinct ms \<and> (\<forall>m \<in> set ms. (i, m) \<notin> (\<lambda>r. (rn_scan_id r, rn_module r)) ` set (db_runs d))"
    using d'
  proof (induction ms arbitrary: d)
    case (Cons m ms)
    then obtain d1 where one: "insert_run (new_run_row (new_uuid d) i m) (use_uuid d) = Inr d1"
      and rest: "insert_runs i ms d1 = Inr d'" by (auto simp: bind_sum_Inr_iff)
    from one have "d1 = (use_uuid d)\<lparr>db_runs := db_runs d @ [new_run_row (new_uuid d) i m]\<rparr>"
      and "(i, m) \<notin> (\<lambda>r. (rn_scan_id r, rn_module r)) ` set (db_runs d)"
      by (auto simp: insert_run_def list_ex_key new_run_row_def split: if_splits)
    with Cons.IH [OF rest] show ?case by (auto simp: new_run_row_def)
  qed simp
  with assms show False by blast
qed

lemma insert_scan_Inr:
  "insert_scan r d = Inr d' \<longleftrightarrow> \<not> scan_exists d (sc_id r) \<and> scope_exists d (sc_scope_id r)
     \<and> d' = d\<lparr>db_scans := db_scans d @ [r]\<rparr>"
  by (auto simp: insert_scan_def)

lemma store_scan_Inr:
  assumes "store_scan request target d = Inr (i, d')"
  shows "\<not> scan_exists d i
    \<and> db_scans d' = db_scans d @ [new_scan_row request target i (utcnow d) (utcnow (tick d))]
    \<and> db_scopes d' = db_scopes d \<and> db_ledger d' = db_ledger d \<and> db_findings d' = db_findings d
    \<and> db_events d' = db_events d \<and> distinct (rq_modules request)
    \<and> (\<exists>new. db_runs d' = db_runs d @ new \<and> map rn_module new = rq_modules request
         \<and> list_all (\<lambda>r. rn_scan_id r = i \<and> rn_status r = ModQueued \<and> rn_attempt_count r = 0) new)"
proof -
  from assms obtain d2 where i: "i = new_uuid d"
    and scan: "insert_scan (new_scan_row request target i (utcnow d) (utcnow (tick (use_uuid d))))
      (tick (tick (use_uuid d))) = Inr d2"
    and runs: "insert_runs i (rq_modules request) d2 = Inr d'"
    by (auto simp: store_scan_def Let_def bind_sum_Inr_iff)
  have "utcnow (tick (use_uuid d)) = utcnow (tick d)"
    by (simp add: utcnow_def tick_def use_uuid_def)
  with scan have d2: "d2 = (tick (tick (use_uuid d)))\<lparr>db_scans :=
      db_scans d @ [new_scan_row request target i (utcnow d) (utcnow (tick d))]\<rparr>"
    and new: "\<not> scan_exists d i"
    by (auto simp: insert_scan_Inr new_scan_row_def scan_exists_def)
  have "distinct (rq_modules request)"
    using runs insert_runs_duplicate [of "rq_modules request" i d2]
    by (cases "distinct (rq_modules request)") auto
  with insert_runs_Inr [OF runs] new show ?thesis by (auto simp: d2)
qed

lemma insert_runs_total:
  "scan_exists d i \<Longrightarrow> distinct ms \<Longrightarrow>
   \<forall>m \<in> set ms. (i, m) \<notin> (\<lambda>r. (rn_scan_id r, rn_module r)) ` set (db_runs d) \<Longrightarrow>
   \<exists>d'. insert_runs i ms d = Inr d'"
proof (induction ms arbitrary: d)
  case (Cons m ms)
  let ?d = "(use_uuid d)\<lparr>db_runs := db_runs d @ [new_run_row (new_uuid d) i m]\<rparr>"
  have "insert_run (new_run_row (new_uuid d) i m) (use_uuid d) = Inr ?d"
    using Cons.prems by (simp add: insert_run_def list_ex_key scan_exists_def new_run_row_def)
  moreover have "\<exists>d'. insert_runs i ms ?d = Inr d'"
    using Cons.prems by (intro Cons.IH) (auto simp: scan_exists_def new_run_row_def)
  ultimately show ?case by simp
qed simp

lemma store_scan_total:
  assumes "db_ok d" and "\<not> scan_exists d (new_uuid d)" and "scope_exists d (rq_scope_id request)"
    and "distinct (rq_modules request)"
  shows "\<exists>i d'. store_scan request target d = Inr (i, d')"
proof -
  let ?row = "new_scan_row request target (new_uuid d) (utcnow d) (utcnow (tick (use_uuid d)))"
  let ?d = "(tick (tick (use_uuid d)))\<lparr>db_scans := db_scans d @ [?row]\<rparr>"
  have "insert_scan ?row (tick (tick (use_uuid d))) = Inr ?d"
    using assms(2,3) by (simp add: insert_scan_Inr scan_exists_def scope_exists_def new_scan_row_def)
  moreover have "(new_uuid d, m) \<notin> (\<lambda>r. (rn_scan_id r, rn_module r)) ` set (db_runs d)" for m
    using assms(1,2) by (auto simp: db_ok_def)
  then have "\<exists>d'. insert_runs (new_uuid d) (rq_modules request) ?d = Inr d'"
    using assms(4) by (intro insert_runs_total) (auto simp: scan_exists_def new_scan_row_def)
  ultimately show ?thesis by (auto simp: store_scan_def Let_def)
qed

lemma store_scan_ok: "store_scan request target d = Inr (i, d') \<Longrightarrow> db_ok d \<Longrightarrow> db_ok d'"
  by (auto simp: store_scan_def Let_def bind_sum_Inr_iff dest!: insert_scan_ok insert_runs_ok)

text \<open>What validating changes: ledger rows are added, the clock and the identifiers move on.\<close>

definition only_ledger_grows :: "database \<Rightarrow> database \<Rightarrow> bool" where
  "only_ledger_grows d d' \<longleftrightarrow> db_scans d' = db_scans d \<and> db_runs d' = db_runs d
     \<and> db_scopes d' = db_scopes d \<and> db_findings d' = db_findings d \<and> db_events d' = db_events d
     \<and> db_cache d' = db_cache d \<and> db_lock d' = db_lock d
     \<and> (\<exists>new. db_ledger d' = db_ledger d @ new)"

lemma db_sink_only_ledger: "only_ledger_grows d x \<Longrightarrow> only_ledger_grows d (db_sink b e x)"
  using db_sink_extends [of b e x] by (auto simp: only_ledger_grows_def frame_simps)

lemma validate_target_frame:
  assumes "validate_target (db_sink b) R S t d = (r, d')"
  shows "only_ledger_grows d d'"
  using validate_target_keeps [of "only_ledger_grows d" "db_sink b" d R S t, OF db_sink_only_ledger]
    assms by (simp add: only_ledger_grows_def)

lemma validate_target_ok:
  assumes "validate_target (db_sink b) R S t d = (r, d')" and "db_ok d"
  shows "db_ok d'"
  using validate_target_keeps [of db_ok "db_sink b" d R S t, OF db_sink_ok] assms by simp

lemma all_registered:
  "map_sum_list (registry_get reg) names = Inr ms \<Longrightarrow> list_all (registry_has reg) names"
proof (induction names arbitrary: ms)
  case (Cons n names)
  then have "registry_has reg n" using registry_get_Inl_iff [of reg n] by (auto split: sum.splits)
  with Cons show ?case by (auto split: sum.splits)
qed simp

section \<open>What creating a scan promises\<close>


text \<open>The module the examples select, and a database that holds the lab scope only.\<close>

definition lab_module :: "unit scan_module" where
  "lab_module = \<lparr>sm_metadata = module_metadata_defaults ''host_discovery'' ''Hosts'' '''' CatDiscovery
       [TargetIp, TargetCidr, TargetHost],
     sm_dependency = None, sm_run = (\<lambda>_ w. (Inr \<lparr>mr_findings = [], mr_cache_hit = False,
       mr_warnings = []\<rparr>, w))\<rparr>"

definition lab_registry :: "unit registry" where
  "lab_registry = [(''host_discovery'', lab_module)]"

definition lab_request :: "bool \<Rightarrow> py_str list \<Rightarrow> scan_create" where
  "lab_request attested modules = \<lparr>rq_scope_id = ''scope'', rq_target = ''192.168.1.10'',
     rq_modules = modules, rq_intensity_profile = ''polite'', rq_note = None,
     rq_attestation_accepted = attested, rq_module_options = []\<rparr>"

lemma lab_scope_loaded: "load_scope_profile lab_db ''scope'' = Inr lab_scope"
  using lab_scope_new by (simp add: load_scope_profile_def get_scope_def lab_db_def)

lemma lab_request_checked:
  "ms \<noteq> [] \<Longrightarrow> set ms \<subseteq> {''host_discovery''} \<Longrightarrow>
     check_request lab_registry (lab_request True ms) lab_db = Inr lab_scope"
proof -
  have "\<exists>xs. map_sum_list (registry_get lab_registry) ms = Inr xs" if "set ms \<subseteq> {''host_discovery''}"
    using that by (induction ms) (auto simp: registry_get_def lab_registry_def)
  then show "ms \<noteq> [] \<Longrightarrow> set ms \<subseteq> {''host_discovery''} \<Longrightarrow> ?thesis"
    by (auto simp: check_request_def lab_request_def INTENSITY_PROFILES_def lab_scope_loaded)
qed

lemma lab_target_valid_any:
  "fst (validate_target sink R lab_scope ''192.168.1.10'' l) = Inr lab_target"
proof -
  have "py_strip ''192.168.1.10'' = ''192.168.1.10''" by code_simp
  moreover have "py_ip_address ''192.168.1.10'' = Some lab_host"
    using py_ip_address_str4 lab_host_text lab_host_def by metis
  ultimately show ?thesis
    using lab_host_permitted
    by (simp add: validate_target_def classify_def validate_addresses_def lab_target_def)
qed




text \<open>A module selected twice is not refused but crashes.  When a request that passes every
  check names a module twice, the unique constraint on the runs makes the transaction fail with an
  exception that is not one of the typed errors; nothing of the scan is stored, but the ledger
  already says its target was validated.\<close>

theorem duplicate_module_crashes:
  assumes "check_request reg request d = Inr scope" and "\<not> distinct (rq_modules request)"
    and "validate_target (db_sink \<lparr>dl_scan_id = None, dl_scope_id = Some (rq_scope_id request)\<rparr>)
      resolver scope (rq_target request) d = (Inr target, d1)"
  shows "\<exists>e. create_scan resolver reg request d = (Inl (DbExn e), d1)"
proof (cases "store_scan request target d1")
  case (Inr x)
  with store_scan_Inr [of request target d1 "fst x" "snd x"] assms(2) show ?thesis by simp
qed (use assms in \<open>simp add: create_scan_def\<close>)

lemma duplicate_module_crashes_witness:
  "\<exists>e. fst (create_scan split_resolver lab_registry
     (lab_request True [''host_discovery'', ''host_discovery'']) lab_db) = Inl (DbExn e)"
proof -
  let ?req = "lab_request True [''host_discovery'', ''host_discovery'']"
  have "check_request lab_registry ?req lab_db = Inr lab_scope" by (rule lab_request_checked) simp_all
  moreover have "\<not> distinct (rq_modules ?req)" by (simp add: lab_request_def)
  moreover obtain d1 where "validate_target (db_sink \<lparr>dl_scan_id = None,
      dl_scope_id = Some (rq_scope_id ?req)\<rparr>) split_resolver lab_scope (rq_target ?req) lab_db
      = (Inr lab_target, d1)"
    using lab_target_valid_any by (metis lab_request_def scan_create.select_convs(2) prod.collapse)
  ultimately show ?thesis using duplicate_module_crashes by (metis fst_conv)
qed

end
