(* ===== verification/Worker.thy ===== *)
theory Worker
  imports Retention
begin

text \<open>
  \<open>backend/app/scan/runner.py\<close>, the process model: the worker lock with its heartbeat, the
  recovery after a crash, and the claim of a queued scan.
\<close>

section \<open>The worker lock\<close>

definition HEARTBEAT_INTERVAL_SECONDS :: int where "HEARTBEAT_INTERVAL_SECONDS = 5"
definition LOCK_STALE_AFTER_SECONDS :: int where "LOCK_STALE_AFTER_SECONDS = 30"

record worker =
  wk_owner_id :: py_str
  wk_pid :: int
  wk_hostname :: py_str

text \<open>\<open>environ\<close> is \<open>os.environ.get\<close>; an empty value counts as none.\<close>

definition hostname_of :: "(py_str \<Rightarrow> py_str option) \<Rightarrow> py_str" where
  "hostname_of environ =
     (let value = (\<lambda>k. case environ k of None \<Rightarrow> [] | Some s \<Rightarrow> s) in
      if value ''COMPUTERNAME'' \<noteq> [] then value ''COMPUTERNAME''
      else if value ''HOSTNAME'' \<noteq> [] then value ''HOSTNAME''
      else ''localhost'')"

definition already_running :: "lock_row \<Rightarrow> app_error" where
  "already_running lock =
     \<lparr>err_class = WorkerAlreadyRunningError,
      err_message = ''another ScanLedger worker is already running against this database ''
        @ ''(pid '' @ str_of_int (lk_pid lock) @ '' on '' @ lk_hostname lock
        @ ''); the durable worker runs in-process, so only one API process may serve this database'',
      err_details = [(''pid'', JInt (lk_pid lock)), (''hostname'', JStr (lk_hostname lock))]\<rparr>"

definition held_by :: "worker \<Rightarrow> int \<Rightarrow> lock_row" where
  "held_by w moment = \<lparr>lk_owner_id = wk_owner_id w, lk_pid = wk_pid w, lk_hostname = wk_hostname w,
     lk_acquired_at = moment, lk_heartbeat_at = moment\<rparr>"

definition acquire_worker_lock :: "worker \<Rightarrow> int option \<Rightarrow> database \<Rightarrow> (app_error + unit) \<times> database" where
  "acquire_worker_lock w now d =
     (case read_now now d of (moment, d) \<Rightarrow>
        (let stale_before = moment - LOCK_STALE_AFTER_SECONDS * MICROS_PER_SECOND in
         case db_lock d of
           None \<Rightarrow> (Inr (), d\<lparr>db_lock := Some (held_by w moment)\<rparr>)
         | Some existing \<Rightarrow>
             if lk_heartbeat_at existing > stale_before \<and> lk_owner_id existing \<noteq> wk_owner_id w
             then (Inl (already_running existing), d)
             else (Inr (), d\<lparr>db_lock := Some (held_by w moment)\<rparr>)))"

definition release_worker_lock :: "worker \<Rightarrow> database \<Rightarrow> database" where
  "release_worker_lock w d =
     (case db_lock d of
        None \<Rightarrow> d
      | Some existing \<Rightarrow> if lk_owner_id existing = wk_owner_id w then d\<lparr>db_lock := None\<rparr> else d)"

definition beat :: "worker \<Rightarrow> database \<Rightarrow> database" where
  "beat w d =
     (let t = utcnow d in
      (tick d)\<lparr>db_lock := map_option (\<lambda>l. if lk_owner_id l = wk_owner_id w
          then l\<lparr>lk_heartbeat_at := t\<rparr> else l) (db_lock d)\<rparr>)"

section \<open>Recovery\<close>

definition interrupt_run :: "int \<Rightarrow> run_row \<Rightarrow> run_row" where
  "interrupt_run t r = r\<lparr>rn_status := ModInterrupted,
     rn_error_message := Some ''the worker stopped before this module finished'',
     rn_finished_at := Some t\<rparr>"

definition requeue_scan :: "scan_row \<Rightarrow> scan_row" where
  "requeue_scan s = s\<lparr>sc_status := ScanQueued, sc_claimed_by := None\<rparr>"

definition recover_interrupted :: "database \<Rightarrow> int \<times> database" where
  "recover_interrupted d =
     (let t = utcnow d; running = (\<lambda>r. rn_status r = ModRunning);
          n = matching_runs running (tick d);
          d1 = update_runs running (interrupt_run t) (tick d);
          d2 = update_scans (\<lambda>s. sc_status s = ScanRunning) requeue_scan d1
      in (int n, d2))"

section \<open>The claim\<close>

text \<open>The two statements of the transaction: the candidate, and the conditional update.\<close>

definition claim_candidate :: "database \<Rightarrow> py_str option" where
  "claim_candidate d =
     (case sort_key sc_created_at (filter (\<lambda>s. sc_status s = ScanQueued) (db_scans d)) of
        [] \<Rightarrow> None | s # _ \<Rightarrow> Some (sc_id s))"

definition claim_scan :: "worker \<Rightarrow> int \<Rightarrow> scan_row \<Rightarrow> scan_row" where
  "claim_scan w t s = s\<lparr>sc_status := ScanRunning, sc_claimed_by := Some (wk_owner_id w),
     sc_started_at := Some t\<rparr>"

definition claim_update :: "worker \<Rightarrow> py_str \<Rightarrow> database \<Rightarrow> nat \<times> database" where
  "claim_update w candidate d =
     (let open = (\<lambda>s. sc_id s = candidate \<and> sc_status s = ScanQueued) in
      (matching_scans open d, update_scans open (claim_scan w (utcnow d)) (tick d)))"

definition claim_next_scan :: "worker \<Rightarrow> database \<Rightarrow> py_str option \<times> database" where
  "claim_next_scan w d =
     (case claim_candidate d of
        None \<Rightarrow> (None, d)
      | Some candidate \<Rightarrow>
          (case claim_update w candidate d of
             (claimed, d1) \<Rightarrow> if claimed \<noteq> 1 then (None, d1) else (Some candidate, d1)))"

text \<open>
  \<open>start\<close> up to the creation of its tasks: the lock, the recovery, a retention sweep.
\<close>

definition worker_start :: "int \<Rightarrow> worker \<Rightarrow> database \<Rightarrow> (app_error + unit) \<times> database" where
  "worker_start retention_days w d =
     (case acquire_worker_lock w None d of
        (Inl e, d1) \<Rightarrow> (Inl e, d1)
      | (Inr _, d1) \<Rightarrow>
          (Inr (), snd (run_retention retention_days None (snd (recover_interrupted d1)))))"

section \<open>Facts\<close>

lemma row_updates [simp]:
  "sc_id (claim_scan w t s) = sc_id s" "sc_scope_id (claim_scan w t s) = sc_scope_id s"
  "sc_status (claim_scan w t s) = ScanRunning"
  "sc_id (requeue_scan s) = sc_id s" "sc_scope_id (requeue_scan s) = sc_scope_id s"
  "rn_scan_id (interrupt_run t r) = rn_scan_id r" "rn_module (interrupt_run t r) = rn_module r"
  by (simp_all add: claim_scan_def requeue_scan_def interrupt_run_def)

lemma sort_key_hd:
  assumes "sort_key f xs = x # ys"
  shows "x \<in> set xs" and "y \<in> set xs \<Longrightarrow> f x \<le> f y"
proof -
  have perm: "set xs = set (x # ys)" by (metis assms set_sort)
  show "x \<in> set xs" by (simp add: perm)
  have "sorted (map f (x # ys))" by (metis assms sorted_sort_key)
  then show "y \<in> set xs \<Longrightarrow> f x \<le> f y" by (auto simp: perm)
qed

lemma claim_candidate_Some:
  assumes "claim_candidate d = Some i"
  obtains s where "s \<in> set (db_scans d)" and "sc_id s = i" and "sc_status s = ScanQueued"
    and "\<And>s'. s' \<in> set (db_scans d) \<Longrightarrow> sc_status s' = ScanQueued \<Longrightarrow> sc_created_at s \<le> sc_created_at s'"
proof -
  obtain s ss where "sort_key sc_created_at (filter (\<lambda>s. sc_status s = ScanQueued) (db_scans d)) = s # ss"
      and "sc_id s = i"
    using assms by (auto simp: claim_candidate_def split: list.splits)
  with sort_key_hd [OF this(1)] show ?thesis by (intro that [of s]) auto
qed

lemma sort_key_Nil_iff: "sort_key f xs = [] \<longleftrightarrow> xs = []"
  by (metis length_0_conv length_sort)

lemma claim_candidate_None:
  "claim_candidate d = None \<longleftrightarrow> (\<forall>s \<in> set (db_scans d). sc_status s \<noteq> ScanQueued)"
proof (cases "sort_key sc_created_at (filter (\<lambda>s. sc_status s = ScanQueued) (db_scans d))")
  case Nil
  then have "filter (\<lambda>s. sc_status s = ScanQueued) (db_scans d) = []"
    by (simp add: sort_key_Nil_iff)
  with Nil show ?thesis by (simp add: claim_candidate_def filter_empty_conv)
next
  case (Cons s ss)
  from sort_key_hd(1) [OF Cons] Cons show ?thesis by (auto simp: claim_candidate_def)
qed

lemma filter_absent: "i \<notin> sc_id ` set ss \<Longrightarrow> filter (\<lambda>s. sc_id s = i \<and> Q s) ss = []"
  by (auto simp: filter_empty_conv)

lemma one_matching:
  assumes "distinct (map sc_id (db_scans d))" and "get_scan d i = Some s"
  shows "matching_scans (\<lambda>s. sc_id s = i \<and> Q s) d = (if Q s then 1 else 0)"
proof -
  have "filter (\<lambda>s. sc_id s = i \<and> Q s) ss = (if Q s then [s] else [])"
    if "distinct (map sc_id ss)" "find (\<lambda>s. sc_id s = i) ss = Some s" for ss
    using that by (induction ss) (auto simp: filter_absent split: if_splits)
  then show ?thesis
    using assms by (simp add: get_scan_def matching_scans_def)
qed

lemma get_scan_update:
  assumes "\<And>s. sc_id (f s) = sc_id s"
  shows "get_scan (update_scans P f d) i = map_option (\<lambda>s. if P s then f s else s) (get_scan d i)"
proof -
  have "find (\<lambda>s. sc_id s = i) (map (\<lambda>s. if P s then f s else s) ss)
      = map_option (\<lambda>s. if P s then f s else s) (find (\<lambda>s. sc_id s = i) ss)" for ss
    using assms by (induction ss) auto
  then show ?thesis by (simp add: get_scan_def update_scans_def)
qed

lemma get_scan_tick [simp]: "get_scan (tick d) i = get_scan d i"
  by (simp add: get_scan_def)

lemma get_scan_update_runs [simp]: "get_scan (update_runs P f d) i = get_scan d i"
  by (simp add: get_scan_def)

lemma claim_update_result:
  assumes "distinct (map sc_id (db_scans d))" and "get_scan d i = Some s"
  shows "fst (claim_update w i d) = (if sc_status s = ScanQueued then 1 else 0)"
    and "get_scan (snd (claim_update w i d)) i
      = Some (if sc_status s = ScanQueued then claim_scan w (utcnow d) s else s)"
    and "j \<noteq> i \<Longrightarrow> get_scan (snd (claim_update w i d)) j = get_scan d j"
  using get_scan_in [OF assms(2)] get_scan_in
  by (auto simp: claim_update_def Let_def one_matching [OF assms] get_scan_update assms(2)
      intro!: option.map_ident_strong)

section \<open>One worker at a time\<close>

definition lock_owner :: "database \<Rightarrow> py_str option" where
  "lock_owner d = map_option lk_owner_id (db_lock d)"

definition lock_fresh :: "database \<Rightarrow> bool" where
  "lock_fresh d \<longleftrightarrow> (case db_lock d of None \<Rightarrow> False
     | Some l \<Rightarrow> lk_heartbeat_at l > utcnow d - LOCK_STALE_AFTER_SECONDS * MICROS_PER_SECOND)"

text \<open>
  What can happen to the lock while \<open>w\<close> holds it: \<open>w\<close> beats, time passes, and other workers try to
  acquire it, beat and release, the acquisitions while the last heartbeat is fresh.
\<close>

inductive lock_steps :: "worker \<Rightarrow> database \<Rightarrow> database \<Rightarrow> bool" for w where
  start: "lock_steps w d d"
| own_beat: "lock_steps w d d' \<Longrightarrow> lock_steps w d (beat w d')"
| wait: "lock_steps w d d' \<Longrightarrow> lock_steps w d (tick d')"
| acquire: "lock_steps w d d' \<Longrightarrow> wk_owner_id v \<noteq> wk_owner_id w \<Longrightarrow> lock_fresh d'
    \<Longrightarrow> lock_steps w d (snd (acquire_worker_lock v None d'))"
| other_beat: "lock_steps w d d' \<Longrightarrow> wk_owner_id v \<noteq> wk_owner_id w \<Longrightarrow> lock_steps w d (beat v d')"
| other_release: "lock_steps w d d' \<Longrightarrow> wk_owner_id v \<noteq> wk_owner_id w
    \<Longrightarrow> lock_steps w d (release_worker_lock v d')"

code_pred lock_steps .

inductive_cases lock_stepsE: "lock_steps w d d'"

lemma acquire_refused:
  assumes "lock_fresh d" and "lock_owner d \<noteq> Some (wk_owner_id v)"
  shows "\<exists>l. db_lock d = Some l \<and> acquire_worker_lock v None d = (Inl (already_running l), tick d)"
  using assms
  by (auto simp: lock_fresh_def lock_owner_def acquire_worker_lock_def read_now_def Let_def
      split: option.splits)

lemma beat_owner [simp]: "lock_owner (beat v d) = lock_owner d"
  by (auto simp: lock_owner_def beat_def Let_def map_option.compositionality comp_def
      intro!: map_option_cong)

lemma lock_owner_tick [simp]: "lock_owner (tick d) = lock_owner d"
  by (simp add: lock_owner_def)

lemma lock_kept:
  assumes "lock_steps w d d'" and "lock_owner d = Some (wk_owner_id w)"
  shows "lock_owner d' = Some (wk_owner_id w)"
  using assms
proof (induction rule: lock_steps.induct)
  case (acquire d d' v)
  then show ?case using acquire_refused [of d' v] by auto
next
  case (other_release d d' v)
  then show ?case by (auto simp: release_worker_lock_def lock_owner_def)
qed simp_all

text \<open>C13. The lock keeps a second worker out for as long as the first one beats.  Once a worker
  holds the lock, then through any sequence of its heartbeats, of waiting, and of other workers'
  acquisitions while the last heartbeat is younger than 30 seconds, heartbeats and releases, it
  stays the owner, and another worker that tries then is refused with the typed error.\<close>

theorem lock_exclusive:
  assumes "acquire_worker_lock w now d = (Inr (), d1)" and "lock_steps w d1 d2"
    and "wk_owner_id v \<noteq> wk_owner_id w" and "lock_fresh d2"
  shows "lock_owner d2 = Some (wk_owner_id w)
    \<and> (\<exists>e. fst (acquire_worker_lock v None d2) = Inl e \<and> err_class e = WorkerAlreadyRunningError)"
proof -
  have "lock_owner d1 = Some (wk_owner_id w)"
    using assms(1) by (auto simp: acquire_worker_lock_def lock_owner_def held_by_def Let_def
        split: prod.splits option.splits if_splits)
  with lock_kept assms(2) have "lock_owner d2 = Some (wk_owner_id w)" by blast
  with acquire_refused [OF assms(4), of v] assms(3) show ?thesis
    by (auto simp: already_running_def)
qed

definition worker_a :: worker where
  "worker_a = \<lparr>wk_owner_id = ''A'', wk_pid = 1, wk_hostname = ''h''\<rparr>"

definition worker_b :: worker where
  "worker_b = \<lparr>wk_owner_id = ''B'', wk_pid = 2, wk_hostname = ''h''\<rparr>"

lemma lock_exclusive_witness:
  "\<exists>e. fst (acquire_worker_lock worker_b None (snd (acquire_worker_lock worker_a (Some 0) lab_db))) = Inl e"
proof -
  have "acquire_worker_lock worker_a (Some 0) lab_db
      = (Inr (), snd (acquire_worker_lock worker_a (Some 0) lab_db))"
    by (simp add: acquire_worker_lock_def read_now_def lab_db_def empty_db_def)
  moreover have "lock_fresh (snd (acquire_worker_lock worker_a (Some 0) lab_db))"
    by (simp add: acquire_worker_lock_def read_now_def lab_db_def empty_db_def lock_fresh_def
        held_by_def utcnow_def LOCK_STALE_AFTER_SECONDS_def MICROS_PER_SECOND_def)
  moreover have "wk_owner_id worker_b \<noteq> wk_owner_id worker_a"
    by (simp add: worker_a_def worker_b_def)
  ultimately show ?thesis
    using lock_exclusive [OF _ lock_steps.start] by blast
qed

section \<open>No scan is claimed twice\<close>

text \<open>Several workers that all selected the same candidate, in the order of their updates.\<close>

fun claim_race :: "worker list \<Rightarrow> py_str \<Rightarrow> database \<Rightarrow> nat list \<times> database" where
  "claim_race [] i d = ([], d)"
| "claim_race (w # ws) i d =
     (case claim_update w i d of
        (n, d1) \<Rightarrow> (case claim_race ws i d1 of (ns, d2) \<Rightarrow> (n # ns, d2)))"

lemma claim_update_keys [simp]:
  "map sc_id (db_scans (snd (claim_update w i d))) = map sc_id (db_scans d)"
  by (simp add: claim_update_def Let_def update_scans_def)

lemma claim_race_lost:
  assumes "distinct (map sc_id (db_scans d))" and "get_scan d i = Some s"
    and "sc_status s \<noteq> ScanQueued"
  shows "fst (claim_race ws i d) = replicate (length ws) 0
    \<and> get_scan (snd (claim_race ws i d)) i = Some s"
  using assms
proof (induction ws arbitrary: d)
  case (Cons w ws)
  obtain n d1 where c: "claim_update w i d = (n, d1)" by fastforce
  have "n = 0" "get_scan d1 i = Some s"
    using claim_update_result(1,2) [OF Cons.prems(1,2), of w] Cons.prems(3) c by simp_all
  moreover have "map sc_id (db_scans d1) = map sc_id (db_scans d)"
    using claim_update_keys [of w i d] by (simp add: c)
  then have "distinct (map sc_id (db_scans d1))" using Cons.prems(1) by metis
  ultimately show ?case
    using Cons.IH [of d1] Cons.prems by (cases "claim_race ws i d1") (simp add: c)
qed simp

text \<open>C12. No scan is claimed twice.  Let any number of workers select the same queued scan before
  any of them updates it: exactly one update touches a row, the first, so exactly one worker is told
  it has the scan, the stored owner is that worker, and the others go on empty-handed.\<close>

theorem claimed_once:
  assumes "db_ok d" and "get_scan d i = Some s" and "sc_status s = ScanQueued"
  shows "fst (claim_race (w # ws) i d) = 1 # replicate (length ws) 0
    \<and> (\<exists>s'. get_scan (snd (claim_race (w # ws) i d)) i = Some s'
         \<and> sc_status s' = ScanRunning \<and> sc_claimed_by s' = Some (wk_owner_id w))"
proof -
  have keys: "distinct (map sc_id (db_scans d))" using assms(1) by (simp add: db_ok_def)
  obtain n d1 where c: "claim_update w i d = (n, d1)" by fastforce
  have one: "n = 1" "get_scan d1 i = Some (claim_scan w (utcnow d) s)"
    using claim_update_result(1,2) [OF keys assms(2), of w] assms(3) c by simp_all
  have "map sc_id (db_scans d1) = map sc_id (db_scans d)"
    using claim_update_keys [of w i d] by (simp add: c)
  then have "distinct (map sc_id (db_scans d1))" using keys by metis
  from claim_race_lost [OF this one(2), of ws] one show ?thesis
    by (auto simp: c claim_scan_def split: prod.splits)
qed

lemma claimed_once_witness:
  "fst (claim_race [worker_a, worker_b] ''a'' lab_db) = [1, 0]"
proof -
  have "get_scan lab_db ''a'' = Some (queued_scan ''a'' 10)"
    by (simp add: get_scan_def lab_db_def queued_scan_def)
  from claimed_once [OF lab_db_ok(1) this, of worker_a "[worker_b]"]
  show ?thesis by (simp add: queued_scan_def)
qed

text \<open>The queue is served oldest first and never stalls.  A claim returns nothing exactly when
  no scan is queued, and then changes nothing; otherwise it returns a queued scan that no other
  queued scan is older than, now running and owned by the worker, and every other scan is as it
  was.\<close>

theorem claim_takes_oldest:
  assumes "db_ok d"
  shows "case claim_next_scan w d of
      (None, d') \<Rightarrow> d' = d \<and> filter (\<lambda>s. sc_status s = ScanQueued) (db_scans d) = []
    | (Some i, d') \<Rightarrow> (\<exists>s. get_scan d i = Some s \<and> sc_status s = ScanQueued
        \<and> list_all (\<lambda>s'. sc_status s' \<noteq> ScanQueued \<or> sc_created_at s \<le> sc_created_at s') (db_scans d)
        \<and> get_scan d' i = Some (claim_scan w (utcnow d) s)
        \<and> (\<forall>j. j = i \<or> get_scan d' j = get_scan d j))"
proof (cases "claim_candidate d")
  case None
  then show ?thesis
    by (simp add: claim_next_scan_def) (simp add: claim_candidate_None filter_empty_conv)
next
  case (Some i)
  have keys: "distinct (map sc_id (db_scans d))" using assms by (simp add: db_ok_def)
  from claim_candidate_Some [OF Some] obtain s where s: "s \<in> set (db_scans d)" "sc_id s = i"
      "sc_status s = ScanQueued"
      "\<And>s'. s' \<in> set (db_scans d) \<Longrightarrow> sc_status s' = ScanQueued \<Longrightarrow> sc_created_at s \<le> sc_created_at s'"
    by blast
  have got: "get_scan d i = Some s"
  proof -
    obtain s' where "get_scan d i = Some s'"
      using s(1,2) get_scan_None_iff [of d i] by (cases "get_scan d i") (auto simp: scan_exists_iff)
    with get_scan_in [OF this] s(1,2) keys show ?thesis by (auto simp: distinct_map inj_on_def)
  qed
  obtain n d1 where c: "claim_update w i d = (n, d1)" by fastforce
  have "n = 1" "get_scan d1 i = Some (claim_scan w (utcnow d) s)"
      "\<And>j. j \<noteq> i \<Longrightarrow> get_scan d1 j = get_scan d j"
    using claim_update_result [OF keys got, where w = w] s(3) c by simp_all
  then show ?thesis
    using got s(3,4) by (auto simp: claim_next_scan_def Some c list_all_iff)
qed

lemma claim_takes_oldest_witness: "fst (claim_next_scan worker_a lab_db) = Some ''a''"
proof -
  have "filter (\<lambda>s. sc_status s = ScanQueued) (db_scans lab_db) \<noteq> []"
    by (simp add: lab_db_def queued_scan_def)
  then have "fst (claim_next_scan worker_a lab_db) \<noteq> None"
    using claim_takes_oldest [OF lab_db_ok(1), of worker_a]
    by (cases "claim_next_scan worker_a lab_db"; cases "fst (claim_next_scan worker_a lab_db)") simp_all
  moreover have "claim_candidate lab_db = Some ''a''"
    by (simp add: claim_candidate_def lab_db_def queued_scan_def)
  ultimately show ?thesis by (auto simp: claim_next_scan_def split: prod.splits if_splits)
qed

section \<open>After a crash\<close>


text \<open>A worker that stalls is overtaken without noticing.  When the heartbeat of the
  lock is at least 30 seconds old, another worker acquires it and its recovery queues the scan the
  first one is still executing, so the second worker's claim of that scan succeeds as well; the
  first worker's next heartbeat touches no row and changes no lock, and nothing tells it.\<close>

theorem stalled_worker_overtaken:
  assumes "db_ok d" and "get_scan d i = Some s" and "sc_status s = ScanRunning"
    and "sc_claimed_by s = Some (wk_owner_id w)" and "db_lock d = Some l"
    and "lk_owner_id l = wk_owner_id w" and "wk_owner_id v \<noteq> wk_owner_id w"
    and "lk_heartbeat_at l + 30 * 1000000 \<le> t"
    and "acquire_worker_lock v (Some t) d = (r, d1)" and "recover_interrupted d1 = (n, d2)"
  shows "r = Inr () \<and> fst (claim_update v i d2) = 1
    \<and> db_lock (beat w d2) = db_lock d2 \<and> lock_owner d2 = Some (wk_owner_id v)"
proof -
  have d1: "r = Inr ()" "d1 = d\<lparr>db_lock := Some (held_by v t)\<rparr>"
    using assms(5,8,9) by (auto simp: acquire_worker_lock_def read_now_def Let_def
        LOCK_STALE_AFTER_SECONDS_def MICROS_PER_SECOND_def)
  then have d2: "d2 = update_scans (\<lambda>s. sc_status s = ScanRunning) requeue_scan
      (update_runs (\<lambda>r. rn_status r = ModRunning) (interrupt_run (utcnow d1)) (tick d1))"
    using assms(10) by (simp add: recover_interrupted_def Let_def)
  have scans: "db_scans d2 = map (\<lambda>s. if sc_status s = ScanRunning then requeue_scan s else s)
      (db_scans d)"
    by (simp add: d2 d1 update_scans_def)
  have keys: "map sc_id (db_scans d2) = map sc_id (db_scans d)"
    by (simp add: scans)
  then have "distinct (map sc_id (db_scans d2))"
    using assms(1) unfolding db_ok_def by metis
  moreover have "get_scan d2 i = Some (requeue_scan s)"
  proof -
    have "get_scan d1 i = Some s" using assms(2) by (simp add: d1 get_scan_def)
    then show ?thesis using assms(3) by (simp add: d2 get_scan_update)
  qed
  ultimately have "fst (claim_update v i d2) = 1"
    using claim_update_result(1) by (simp add: requeue_scan_def)
  moreover have "db_lock d2 = Some (held_by v t)" by (simp add: d2 d1)
  ultimately show ?thesis
    using assms(7) by (simp add: d1 beat_def Let_def held_by_def lock_owner_def)
qed

definition stalled_db :: database where
  "stalled_db = lab_db\<lparr>db_scans := [(queued_scan ''a'' 10)\<lparr>sc_status := ScanRunning,
     sc_claimed_by := Some ''A''\<rparr>], db_lock := Some (held_by worker_a 0)\<rparr>"

lemma stalled_worker_overtaken_witness:
  "fst (claim_update worker_b ''a'' (snd (recover_interrupted
     (snd (acquire_worker_lock worker_b (Some 30000000) stalled_db))))) = 1"
proof -
  have ok: "db_ok stalled_db"
    by (simp add: stalled_db_def lab_db_def empty_db_def db_ok_def queued_scan_def scope_exists_def)
  have "get_scan stalled_db ''a'' = Some ((queued_scan ''a'' 10)\<lparr>sc_status := ScanRunning,
     sc_claimed_by := Some ''A''\<rparr>)"
    by (simp add: get_scan_def stalled_db_def queued_scan_def)
  note over = stalled_worker_overtaken [OF ok this, of worker_a "held_by worker_a 0" worker_b 30000000]
  obtain r d1 where one: "acquire_worker_lock worker_b (Some 30000000) stalled_db = (r, d1)"
    by fastforce
  obtain n d2 where two: "recover_interrupted d1 = (n, d2)" by fastforce
  have "db_lock stalled_db = Some (held_by worker_a 0)" by (simp add: stalled_db_def)
  with over one two show ?thesis
    by (simp add: worker_a_def worker_b_def held_by_def)
qed

end
