(* ===== verification/Runner.thy ===== *)
theory Runner
  imports Scan_Service Worker
begin

text \<open>
  \<open>backend/app/scan/runner.py\<close>, the execution of a claimed scan: the target is validated again
  under the scope profile as it is now, the selected modules run in the order of their metadata,
  each outcome is stored, and the scan ends in the state the outcomes call for.  An action
  transforms the world of the run and returns a value or the exception that leaves it; what the
  source catches is caught, everything else goes through.
\<close>

section \<open>Actions\<close>

record 'x run_world =
  rw_db :: database
  rw_publisher :: publisher
  rw_governor :: "governor option"
  rw_rest :: 'x

datatype runner_exn = RunnerDb db_error | RunnerApp app_error | RunnerScope py_str
  | RunnerGuard guard_exn | RunnerConfig governor_config_error | RunnerModule py_str

type_synonym ('x, 'a) run_action = "'x run_world \<Rightarrow> (runner_exn + 'a) \<times> 'x run_world"

definition return_run :: "'a \<Rightarrow> ('x, 'a) run_action" where
  "return_run a w = (Inr a, w)"

definition raise_run :: "runner_exn \<Rightarrow> ('x, 'a) run_action" where
  "raise_run e w = (Inl e, w)"

definition bind_run :: "('x, 'a) run_action \<Rightarrow> ('a \<Rightarrow> ('x, 'b) run_action) \<Rightarrow> ('x, 'b) run_action" where
  "bind_run m f w = (case m w of (Inl e, w1) \<Rightarrow> (Inl e, w1) | (Inr a, w1) \<Rightarrow> f a w1)"

definition then_run :: "('x, unit) run_action \<Rightarrow> ('x, 'b) run_action \<Rightarrow> ('x, 'b) run_action" where
  "then_run m k = bind_run m (\<lambda>_. k)"

text \<open>A transaction that cannot fail, and one that can: a failed one is rolled back.\<close>

definition on_db :: "(database \<Rightarrow> database) \<Rightarrow> ('x, unit) run_action" where
  "on_db f w = (Inr (), w\<lparr>rw_db := f (rw_db w)\<rparr>)"

definition try_db :: "(database \<Rightarrow> db_error + database) \<Rightarrow> ('x, unit) run_action" where
  "try_db f w = (case f (rw_db w) of Inl e \<Rightarrow> (Inl (RunnerDb e), w)
                 | Inr d \<Rightarrow> (Inr (), w\<lparr>rw_db := d\<rparr>))"

text \<open>
  What a runner is built with: the registry, the resolver, the hash, the \<open>g\<close> format of a float,
  the retention window; and what the two tasks that watch a running module do until they are
  cancelled, with the exception that awaiting them then raises.
\<close>

record 'x run_config =
  rc_registry :: "'x run_world registry"
  rc_resolver :: resolver
  rc_sha256 :: "py_str \<Rightarrow> py_str"
  rc_format_g :: "rat \<Rightarrow> py_str"
  rc_retention_days :: int
  rc_watchers :: "py_str \<Rightarrow> ('x, unit) run_action"

section \<open>The steps\<close>

definition publish_event :: "py_str \<Rightarrow> scan_event_type \<Rightarrow> json_object \<Rightarrow> py_str option \<Rightarrow>
    ('x, unit) run_action" where
  "publish_event scan_id event_type payload module_name w =
     (case publish \<lparr>ms_scan_id = scan_id, ms_event_type = event_type, ms_payload = payload,
             ms_module = module_name\<rparr> (rw_db w, rw_publisher w) of
        (Inl e, d, p) \<Rightarrow> (Inl (RunnerDb e), w\<lparr>rw_db := d, rw_publisher := p\<rparr>)
      | (Inr _, d, p) \<Rightarrow> (Inr (), w\<lparr>rw_db := d, rw_publisher := p\<rparr>))"

definition json_opt :: "py_str option \<Rightarrow> json" where
  "json_opt t = (case t of None \<Rightarrow> JNull | Some s \<Rightarrow> JStr s)"

definition status_values :: "module_status \<Rightarrow> py_str option \<Rightarrow> py_str option \<Rightarrow> int \<Rightarrow> bool \<Rightarrow> int \<Rightarrow>
    run_row \<Rightarrow> run_row" where
  "status_values status reason err_code finding_count cache_hit now r =
     (let r1 = r\<lparr>rn_status := status\<rparr>;
          r2 = (if status = ModRunning
                then r1\<lparr>rn_started_at := Some now, rn_attempt_count := rn_attempt_count r1 + 1\<rparr>
                else r1\<lparr>rn_finished_at := Some now, rn_finding_count := finding_count,
                        rn_cache_hit := cache_hit\<rparr>);
          r3 = (case reason of None \<Rightarrow> r2 | Some t \<Rightarrow> r2\<lparr>rn_error_message := Some t\<rparr>)
      in case err_code of None \<Rightarrow> r3 | Some c \<Rightarrow> r3\<lparr>rn_error_code := Some c\<rparr>)"

definition set_module_status :: "py_str \<Rightarrow> py_str \<Rightarrow> module_status \<Rightarrow> py_str option \<Rightarrow> py_str option \<Rightarrow>
    int \<Rightarrow> bool \<Rightarrow> ('x, unit) run_action" where
  "set_module_status scan_id module_name status reason err_code finding_count cache_hit =
     then_run
       (on_db (\<lambda>d. update_runs (\<lambda>r. rn_scan_id r = scan_id \<and> rn_module r = module_name)
          (status_values status reason err_code finding_count cache_hit (utcnow d)) (tick d)))
       (publish_event scan_id EvModuleStatus
          [(''status'', JStr (module_status_str status)), (''reason'', json_opt reason),
           (''finding_count'', JInt finding_count)] (Some module_name))"

definition skip_values :: "py_str \<Rightarrow> int \<Rightarrow> run_row \<Rightarrow> run_row" where
  "skip_values reason now r =
     r\<lparr>rn_status := ModSkipped, rn_error_message := Some reason, rn_finished_at := Some now\<rparr>"

definition mark_remaining_skipped :: "py_str \<Rightarrow> py_str \<Rightarrow> ('x, unit) run_action" where
  "mark_remaining_skipped scan_id reason =
     on_db (\<lambda>d. update_runs
       (\<lambda>r. rn_scan_id r = scan_id \<and> (rn_status r = ModQueued \<or> rn_status r = ModRunning))
       (skip_values reason (utcnow d)) (tick d))"

definition finish_values :: "scan_status \<Rightarrow> int \<Rightarrow> scan_row \<Rightarrow> scan_row" where
  "finish_values status now s = s\<lparr>sc_status := status, sc_finished_at := Some now\<rparr>"

definition finish_scan :: "'x run_config \<Rightarrow> py_str \<Rightarrow> scan_status \<Rightarrow> py_str option \<Rightarrow>
    ('x, scan_status) run_action" where
  "finish_scan cfg scan_id status reason =
     then_run
       (on_db (\<lambda>d. update_scans (\<lambda>s. sc_id s = scan_id) (finish_values status (utcnow d)) (tick d)))
     (then_run
       (publish_event scan_id EvScanStatus
          [(''status'', JStr (scan_status_str status)), (''reason'', json_opt reason)] None)
     (then_run
       (on_db (\<lambda>d. snd (run_retention (rc_retention_days cfg) None d)))
       (return_run status)))"

definition cancel_requested :: "py_str \<Rightarrow> 'x run_world \<Rightarrow> bool" where
  "cancel_requested scan_id w =
     (case get_scan (rw_db w) scan_id of None \<Rightarrow> False | Some s \<Rightarrow> sc_cancel_requested s)"

text \<open>
  The two watching tasks, turn by turn, with the sleeps left out: one sets the flag the module
  polls once the database asks for a cancel, the other publishes the footprint when it has changed.
\<close>

definition watch_for_cancel_turn :: "py_str \<Rightarrow> bool \<Rightarrow> ('x, bool) run_action" where
  "watch_for_cancel_turn scan_id flag w = (Inr (flag \<or> cancel_requested scan_id w), w)"

definition footprint_of :: "'x run_world \<Rightarrow> int \<times> int" where
  "footprint_of w = (case rw_governor w of None \<Rightarrow> (0, 0) | Some g \<Rightarrow> (hosts_touched g, probes_made g))"

definition publish_footprint :: "py_str \<Rightarrow> ('x, unit) run_action" where
  "publish_footprint scan_id w =
     publish_event scan_id EvFootprint
       [(''hosts_probed'', JInt (fst (footprint_of w))),
        (''ports_touched'', JInt (snd (footprint_of w)))] None w"

definition stream_footprint_turn :: "py_str \<Rightarrow> (int \<times> int) option \<Rightarrow>
    ('x, (int \<times> int) option) run_action" where
  "stream_footprint_turn scan_id previous w =
     (if previous = Some (footprint_of w) then return_run previous w
      else then_run (publish_footprint scan_id) (return_run (Some (footprint_of w))) w)"

definition new_finding_row :: "(py_str \<Rightarrow> py_str) \<Rightarrow> py_str \<Rightarrow> py_str \<Rightarrow> finding \<Rightarrow> finding_row" where
  "new_finding_row sha256 row_id scan_id f =
     \<lparr>fr_id = row_id, fr_scan_id = scan_id, fr_host = f_host f, fr_port = f_port f,
      fr_category = f_category f, fr_kind = f_kind f, fr_title = f_title f,
      fr_summary = f_summary f, fr_normalized_value = f_normalized_value f,
      fr_raw_evidence = f_raw_evidence f, fr_module = f_module f,
      fr_observed_at = f_observed_at f, fr_confidence = f_confidence f,
      fr_sources = f_sources f, fr_fingerprint = fingerprint sha256 f\<rparr>"

fun insert_findings :: "(py_str \<Rightarrow> py_str) \<Rightarrow> py_str \<Rightarrow> finding list \<Rightarrow> database \<Rightarrow> db_error + database" where
  "insert_findings sha256 scan_id [] d = Inr d"
| "insert_findings sha256 scan_id (f # fs) d =
     bind_sum (insert_finding (new_finding_row sha256 (new_uuid d) scan_id f) (use_uuid d))
       (insert_findings sha256 scan_id fs)"

definition store_findings :: "(py_str \<Rightarrow> py_str) \<Rightarrow> py_str \<Rightarrow> finding list \<Rightarrow> ('x, unit) run_action" where
  "store_findings sha256 scan_id fs =
     (if fs = [] then return_run () else try_db (insert_findings sha256 scan_id fs))"

section \<open>One module\<close>

text \<open>How an exception of a module that the runner catches is stored: the reason and the code.\<close>

definition failure_of :: "'x run_config \<Rightarrow> module_metadata \<Rightarrow> run_exn \<Rightarrow> (py_str \<times> py_str) option" where
  "failure_of cfg md e =
     (case e of
        RunTimeout \<Rightarrow> Some (''module timed out after '' @ rc_format_g cfg (md_timeout_seconds md) @ ''s'',
          ''module_timeout'')
      | RunBudget scope limit \<Rightarrow> Some (scope @ '' budget of '' @ str_of_int limit @ '' exceeded'',
          ''budget_exceeded'')
      | RunModuleError x \<Rightarrow> Some (err_message x, error_code_str (class_code (err_class x)))
      | RunTargetRejected target reason \<Rightarrow> Some (target @ '' rejected: '' @ reason,
          ''target_out_of_scope'')
      | RunOther _ \<Rightarrow> None)"

record run_flags =
  any_success :: bool
  any_problem :: bool
  produced :: "finding list"

text \<open>The handlers of a module's outcome, without the \<open>finally\<close>.\<close>

definition record_outcome :: "'x run_config \<Rightarrow> py_str \<Rightarrow> py_str \<Rightarrow> module_metadata \<Rightarrow>
    run_exn + module_result \<Rightarrow> run_flags \<Rightarrow> ('x, run_flags) run_action" where
  "record_outcome cfg scan_id module_name md outcome fl =
     (case outcome of
        Inl e \<Rightarrow>
          (case failure_of cfg md e of
             Some (reason, err_code) \<Rightarrow>
               then_run (set_module_status scan_id module_name ModFailed (Some reason) (Some err_code) 0 False)
                 (return_run (fl\<lparr>any_problem := True\<rparr>))
           | None \<Rightarrow> raise_run (RunnerModule (case e of RunOther m \<Rightarrow> m | _ \<Rightarrow> [])))
      | Inr result \<Rightarrow>
          then_run (store_findings (rc_sha256 cfg) scan_id (mr_findings result))
          (then_run (set_module_status scan_id module_name ModDone
              (if mr_warnings result = [] then None else Some (join ''; '' (mr_warnings result))) None
              (int (length (mr_findings result))) (mr_cache_hit result))
            (return_run \<lparr>any_success = True,
               any_problem = (any_problem fl \<or> mr_warnings result \<noteq> []),
               produced = produced fl @ mr_findings result\<rparr>)))"

text \<open>\<open>try \<dots> finally\<close>: the second action always runs, and its exception wins.\<close>

definition finally_run :: "('x, 'a) run_action \<Rightarrow> ('x, unit) run_action \<Rightarrow> ('x, 'a) run_action" where
  "finally_run m k w = (case m w of (r, w1) \<Rightarrow>
     (case k w1 of (Inl e, w2) \<Rightarrow> (Inl e, w2) | (Inr _, w2) \<Rightarrow> (r, w2)))"

definition run_module :: "'x run_config \<Rightarrow> py_str \<Rightarrow> module_context \<Rightarrow> py_str \<Rightarrow> 'x run_world scan_module \<Rightarrow>
    run_flags \<Rightarrow> ('x, run_flags) run_action" where
  "run_module cfg scan_id context module_name m fl =
     then_run (set_module_status scan_id module_name ModRunning None None 0 False)
     (bind_run
       (finally_run
         (\<lambda>w. case sm_run m (context\<lparr>cx_prior_findings := produced fl\<rparr>) w of
            (outcome, w1) \<Rightarrow> record_outcome cfg scan_id module_name (sm_metadata m) outcome fl w1)
         (rc_watchers cfg scan_id))
       (\<lambda>fl'. then_run (publish_footprint scan_id) (return_run fl')))"

section \<open>The scan\<close>

definition get_module :: "'x run_config \<Rightarrow> py_str \<Rightarrow> ('x, 'x run_world scan_module) run_action" where
  "get_module cfg name w =
     (case registry_get (rc_registry cfg) name of Inl e \<Rightarrow> (Inl (RunnerApp e), w) | Inr m \<Rightarrow> (Inr m, w))"

definition cancel_scan_run :: "'x run_config \<Rightarrow> py_str \<Rightarrow> ('x, scan_status) run_action" where
  "cancel_scan_run cfg scan_id =
     then_run (mark_remaining_skipped scan_id ''the scan was canceled'')
       (finish_scan cfg scan_id ScanCanceled None)"

definition conclude :: "'x run_config \<Rightarrow> py_str \<Rightarrow> run_flags \<Rightarrow> ('x, scan_status) run_action" where
  "conclude cfg scan_id fl w =
     (if cancel_requested scan_id w then cancel_scan_run cfg scan_id w
      else if \<not> any_success fl
        then finish_scan cfg scan_id ScanFailed
               (Some ''no module produced a valid terminal result'') w
      else if any_problem fl then finish_scan cfg scan_id ScanCompletedWithWarnings None w
      else finish_scan cfg scan_id ScanCompleted None w)"

fun run_modules :: "'x run_config \<Rightarrow> py_str \<Rightarrow> target_type \<Rightarrow> module_context \<Rightarrow> py_str list \<Rightarrow> run_flags \<Rightarrow>
    ('x, scan_status) run_action" where
  "run_modules cfg scan_id tt context [] fl = conclude cfg scan_id fl"
| "run_modules cfg scan_id tt context (n # ns) fl = (\<lambda>w.
     if cancel_requested scan_id w then cancel_scan_run cfg scan_id w
     else bind_run (get_module cfg n) (\<lambda>m.
       if \<not> applies_to m tt
       then then_run (set_module_status scan_id n ModNotApplicable
              (Some (''this module does not support a '' @ target_type_str tt @ '' target'')) None 0 False)
              (run_modules cfg scan_id tt context ns fl)
       else bind_run (run_module cfg scan_id context n m fl)
              (run_modules cfg scan_id tt context ns)) w)"

text \<open>\<open>sorted(selected, key=\<dots>)\<close>: the keys are computed first, and an unknown module raises.\<close>

definition module_order :: "'w registry \<Rightarrow> py_str list \<Rightarrow> app_error + py_str list" where
  "module_order reg selected =
     bind_sum (map_sum_list (registry_get reg) selected)
       (\<lambda>ms. Inr (map fst (sort_key (\<lambda>(n, m). md_order (sm_metadata m)) (zip selected ms))))"

definition dispatch :: "'x run_config \<Rightarrow> scan_row \<Rightarrow> scope_profile \<Rightarrow> validated_target \<Rightarrow>
    ('x, scan_status) run_action" where
  "dispatch cfg scan scope target w =
     (case module_order (rc_registry cfg) (sc_selected_modules scan) of
        Inl e \<Rightarrow> (Inl (RunnerApp e), w)
      | Inr ordered \<Rightarrow>
          run_modules cfg (sc_id scan) (sc_target_type scan)
            \<lparr>cx_scan_id = sc_id scan, cx_target = target, cx_scope = scope,
             cx_options = sc_module_options scan, cx_prior_findings = []\<rparr>
            ordered \<lparr>any_success = False, any_problem = False, produced = []\<rparr> w)"

definition revalidate :: "'x run_config \<Rightarrow> scan_row \<Rightarrow> scope_profile \<Rightarrow>
    ('x, guard_exn + validated_target) run_action" where
  "revalidate cfg scan scope w =
     (case validate_target (db_sink \<lparr>dl_scan_id = Some (sc_id scan), dl_scope_id = Some (sc_scope_id scan)\<rparr>)
             (rc_resolver cfg) scope (sc_target_input scan) (rw_db w) of
        (r, d) \<Rightarrow> (Inr r, w\<lparr>rw_db := d\<rparr>))"

definition start_governor :: "py_str \<Rightarrow> ('x, unit) run_action" where
  "start_governor intensity w =
     (case new_governor intensity None 0 of
        Inl e \<Rightarrow> (Inl (RunnerConfig e), w)
      | Inr g \<Rightarrow> (Inr (), w\<lparr>rw_governor := Some g\<rparr>))"

definition after_validation :: "'x run_config \<Rightarrow> scan_row \<Rightarrow> scope_profile \<Rightarrow>
    guard_exn + validated_target \<Rightarrow> ('x, scan_status) run_action" where
  "after_validation cfg scan scope r =
     (case r of
        Inl (TargetRejected target reason) \<Rightarrow>
          finish_scan cfg (sc_id scan) ScanFailed (Some (''target refused at dispatch: '' @ reason))
      | Inl e \<Rightarrow> raise_run (RunnerGuard e)
      | Inr target \<Rightarrow> dispatch cfg scan scope target)"

definition execute_scan :: "'x run_config \<Rightarrow> py_str \<Rightarrow> ('x, scan_status) run_action" where
  "execute_scan cfg scan_id w =
     (case get_scan (rw_db w) scan_id of
        None \<Rightarrow> (Inr ScanFailed, w)
      | Some scan \<Rightarrow>
          (case get_scope (rw_db w) (sc_scope_id scan) of
             None \<Rightarrow> finish_scan cfg scan_id ScanFailed
                      (Some ''the scope profile for this scan no longer exists'') w
           | Some row \<Rightarrow>
               (case create_scope (sr_name row) (sr_entries row) (sr_allow_cgnat row)
                       (sr_allow_link_local row) of
                  Inl message \<Rightarrow> (Inl (RunnerScope message), w)
                | Inr scope \<Rightarrow>
                    then_run (publish_event scan_id EvScanStatus
                        [(''status'', JStr (scan_status_str ScanRunning))] None)
                    (then_run (start_governor (sc_intensity_profile scan))
                    (bind_run (revalidate cfg scan scope) (after_validation cfg scan scope))) w)))"

text \<open>One turn of the worker's loop: a claimed scan is executed, else the worker waits.\<close>

definition loop_turn :: "'x run_config \<Rightarrow> worker \<Rightarrow> ('x, scan_status option) run_action" where
  "loop_turn cfg wk w =
     (case claim_next_scan wk (rw_db w) of
        (None, d) \<Rightarrow> (Inr None, w\<lparr>rw_db := d\<rparr>)
      | (Some scan_id, d) \<Rightarrow>
          bind_run (execute_scan cfg scan_id) (\<lambda>st. return_run (Some st)) (w\<lparr>rw_db := d\<rparr>))"

end
