(* ===== verification/Runner_Steps.thy ===== *)
theory Runner_Steps
  imports Runner
begin

text \<open>
  The steps of the runner, one by one: each succeeds while the scan is there, keeps the integrity
  of the database and the numbering of the events, and changes the statuses of the scan's runs in
  exactly the way it is meant to.  The statuses are the abstraction the next theory specifies a
  whole run with.
\<close>

section \<open>What one retention sweep may do to a scan\<close>

lemma read_now_cases:
  obtains t d0 where "read_now now d = (t, d0)" and "d0 = d \<or> d0 = tick d"
  by (cases now) (auto simp: read_now_def)

lemma tick_keeps [simp]:
  "get_scan (tick d) i = get_scan d i" "runs_of (tick d) i = runs_of d i"
  "contiguous (tick d) = contiguous d" "get_scope (tick d) j = get_scope d j"
  "scan_exists (tick d) i = scan_exists d i"
  by (simp_all add: runs_of_def contiguous_def events_of_def get_scope_def scan_exists_def)

lemma sweep_old_scans_read:
  "sweep_old_scans days now d =
     (case read_now now d of (t, d0) \<Rightarrow> sweep_old_scans days (Some t) d0)"
  by (simp add: sweep_old_scans_def read_now_def split: option.splits)

lemma sweep_cache_read:
  "sweep_expired_cache now d = (case read_now now d of (t, d0) \<Rightarrow> sweep_expired_cache (Some t) d0)"
  by (simp add: sweep_expired_cache_def read_now_def split: option.splits)

lemma sweep_keeps:
  assumes "db_ok d" and "sweep_old_scans days now d = (n, d')"
  shows "db_ok d' \<and> (contiguous d \<longrightarrow> contiguous d')
    \<and> (get_scan d' i = None \<or> get_scan d' i = get_scan d i \<and> runs_of d' i = runs_of d i)"
proof -
  obtain t d0 where rd: "read_now now d = (t, d0)" and d0: "d0 = d \<or> d0 = tick d"
    by (rule read_now_cases)
  have same: "db_ok d0" "contiguous d0 = contiguous d" "get_scan d0 i = get_scan d i"
      "runs_of d0 i = runs_of d i"
    using d0 assms(1) by auto
  let ?P = "expired_scan (t - days * MICROS_PER_DAY)"
  have keys: "distinct (map sc_id (db_scans d0))" using same(1) by (simp add: db_ok_def)
  have "d' = delete_scans ?P d0"
    using assms(2) by (auto simp: sweep_old_scans_read [of days now d] rd sweep_old_scans_deletes [OF keys] Let_def)
  moreover have "get_scan (delete_scans ?P d0) i = None \<or> get_scan (delete_scans ?P d0) i = get_scan d0 i
      \<and> runs_of (delete_scans ?P d0) i = runs_of d0 i"
  proof (cases "get_scan d0 i")
    case (Some s)
    then show ?thesis
      using delete_scans_dependents(1) [OF keys Some, of ?P] by (simp add: get_scan_deleted [OF keys])
  qed (simp add: get_scan_deleted [OF keys])
  ultimately show ?thesis
    using same delete_scans_ok [OF same(1)] delete_scans_contiguous by auto
qed

lemma run_retention_keeps:
  assumes "db_ok d"
  shows "db_ok (snd (run_retention days now d))
    \<and> (contiguous d \<longrightarrow> contiguous (snd (run_retention days now d)))
    \<and> (get_scan (snd (run_retention days now d)) i = None
       \<or> get_scan (snd (run_retention days now d)) i = get_scan d i
         \<and> runs_of (snd (run_retention days now d)) i = runs_of d i)"
proof -
  obtain n d1 where one: "sweep_old_scans days now d = (n, d1)" by fastforce
  obtain t d2 where two: "read_now now d1 = (t, d2)" "d2 = d1 \<or> d2 = tick d1"
    by (rule read_now_cases)
  have d': "snd (run_retention days now d) = d2\<lparr>db_cache := filter (\<lambda>r. t < ca_expires_at r) (db_cache d2)\<rparr>"
    by (simp add: run_retention_def one sweep_cache_read [of now d1] two(1) sweep_expired_cache_now)
  show ?thesis
    using sweep_keeps [OF assms one, of i] two(2) by (auto simp: d')
qed

section \<open>The state of a run\<close>

definition scan_of :: "py_str \<Rightarrow> 'x run_world \<Rightarrow> scan_row option" where
  "scan_of i w = get_scan (rw_db w) i"

definition statuses :: "py_str \<Rightarrow> 'x run_world \<Rightarrow> (py_str \<times> module_status) list" where
  "statuses i w = map (\<lambda>r. (rn_module r, rn_status r)) (runs_of (rw_db w) i)"

definition run_ok :: "py_str \<Rightarrow> 'x run_world \<Rightarrow> bool" where
  "run_ok i w \<longleftrightarrow> db_ok (rw_db w) \<and> contiguous (rw_db w) \<and> scan_of i w \<noteq> None"

definition put_status :: "py_str \<Rightarrow> module_status \<Rightarrow> (py_str \<times> module_status) list \<Rightarrow>
    (py_str \<times> module_status) list" where
  "put_status n st = map (\<lambda>(m, s). (m, if m = n then st else s))"

text \<open>
  A step of the runner itself: it succeeds, keeps the integrity, changes the statuses of the
  scan's runs as told, and leaves the row of the scan, the governor and everything else alone.
\<close>

definition runs_to :: "py_str \<Rightarrow> ('x, 'a) run_action \<Rightarrow> 'x run_world \<Rightarrow> 'a \<Rightarrow>
    ((py_str \<times> module_status) list \<Rightarrow> (py_str \<times> module_status) list) \<Rightarrow> bool" where
  "runs_to i m w a g \<longleftrightarrow> (\<exists>w'. m w = (Inr a, w') \<and> run_ok i w' \<and> statuses i w' = g (statuses i w)
     \<and> scan_of i w' = scan_of i w \<and> rw_rest w' = rw_rest w \<and> rw_governor w' = rw_governor w)"

lemma runs_to_then:
  assumes "runs_to i m w () g" and "\<And>w'. run_ok i w' \<Longrightarrow> runs_to i k w' b h"
  shows "runs_to i (then_run m k) w b (\<lambda>x. h (g x))"
proof -
  from assms(1) obtain w1 where one: "m w = (Inr (), w1)" "run_ok i w1" "statuses i w1 = g (statuses i w)"
      "scan_of i w1 = scan_of i w" "rw_rest w1 = rw_rest w" "rw_governor w1 = rw_governor w"
    by (auto simp: runs_to_def)
  with assms(2) [OF one(2)] show ?thesis
    by (auto simp: runs_to_def then_run_def bind_run_def)
qed

lemma runs_to_return: "run_ok i w \<Longrightarrow> runs_to i (return_run a) w a (\<lambda>x. x)"
  by (simp add: runs_to_def return_run_def)

lemma scan_there: "run_ok i w \<Longrightarrow> scan_exists (rw_db w) i"
  by (metis run_ok_def scan_of_def get_scan_None_iff)

lemma publish_ok:
  assumes "contiguous d" and "db_ok d" and "scan_exists d (ms_scan_id m)"
  obtains d' where "publish m (d, p) = (Inr (event_of (next_sequence d (ms_scan_id m)) m), d',
      broadcast (event_of (next_sequence d (ms_scan_id m)) m) p)"
    and "contiguous d'" and "db_ok d'" and "db_scans d' = db_scans d" and "db_runs d' = db_runs d"
proof -
  note row = commit_next [OF assms(1,3)]
  let ?d = "(tick d)\<lparr>db_events := db_events d @ [event_row_of (next_sequence d (ms_scan_id m)) m d]\<rparr>"
  have pub: "publish m (d, p) = (Inr (event_of (next_sequence d (ms_scan_id m)) m), ?d,
      broadcast (event_of (next_sequence d (ms_scan_id m)) m) p)"
    by (simp add: publish_def row Let_def)
  moreover have "contiguous ?d"
    using publish_contiguous [OF assms(1,3), of p] pub by (metis prod.inject)
  moreover have "db_ok ?d"
    using row assms(2) by (auto simp: commit_event_def dest!: insert_event_ok)
  ultimately show ?thesis by (intro that [of ?d]) simp_all
qed

lemma publish_event_runs:
  assumes "run_ok i w"
  shows "runs_to i (publish_event i t payload m) w () (\<lambda>x. x)"
proof -
  let ?m = "\<lparr>ms_scan_id = i, ms_event_type = t, ms_payload = payload, ms_module = m\<rparr>"
  have "contiguous (rw_db w)" "db_ok (rw_db w)" "scan_exists (rw_db w) (ms_scan_id ?m)"
    using assms scan_there [OF assms] by (auto simp: run_ok_def)
  from publish_ok [OF this, of "rw_publisher w"] obtain e d' p where
    "publish ?m (rw_db w, rw_publisher w) = (Inr e, d', p)" "contiguous d'" "db_ok d'"
    "db_scans d' = db_scans (rw_db w)" "db_runs d' = db_runs (rw_db w)" by metis
  then show ?thesis
    using assms
    by (simp add: runs_to_def publish_event_def run_ok_def statuses_def scan_of_def get_scan_def
        runs_of_def)
qed

lemma runs_of_update:
  assumes "\<And>r. rn_scan_id (f r) = rn_scan_id r"
  shows "runs_of (update_runs P f d) i = map (\<lambda>r. if P r then f r else r) (runs_of d i)"
proof -
  have "filter (\<lambda>r. rn_scan_id r = i) (map (\<lambda>r. if P r then f r else r) rs)
      = map (\<lambda>r. if P r then f r else r) (filter (\<lambda>r. rn_scan_id r = i) rs)" for rs
    using assms by (induction rs) auto
  then show ?thesis by (simp add: runs_of_def update_runs_def)
qed

lemma status_values_fields [simp]:
  "rn_scan_id (status_values st reason c n h t r) = rn_scan_id r"
  "rn_module (status_values st reason c n h t r) = rn_module r"
  "rn_status (status_values st reason c n h t r) = st"
  "rn_scan_id (skip_values u t r) = rn_scan_id r" "rn_module (skip_values u t r) = rn_module r"
  "rn_status (skip_values u t r) = ModSkipped"
  by (simp_all add: status_values_def skip_values_def Let_def split: option.splits)

lemma update_runs_contiguous [simp]: "contiguous (update_runs P f d) = contiguous d"
  by (simp add: contiguous_def events_of_def)

lemma update_scans_contiguous [simp]: "contiguous (update_scans P f d) = contiguous d"
  by (simp add: contiguous_def events_of_def)

lemma run_update_runs:
  assumes "run_ok i w" and f: "\<And>r. rn_scan_id (f r) = rn_scan_id r" "\<And>r. rn_module (f r) = rn_module r"
    and st: "\<And>r. rn_scan_id r = i \<Longrightarrow> rn_status (if P r then f r else r) = h (rn_module r) (rn_status r)"
  shows "runs_to i (on_db (\<lambda>d. update_runs P f (tick d))) w () (map (\<lambda>(m, s). (m, h m s)))"
proof -
  let ?d = "update_runs P f (tick (rw_db w))"
  have "db_ok ?d" using assms(1) f by (intro update_runs_ok) (simp_all add: run_ok_def)
  moreover have "map (\<lambda>r. (rn_module r, rn_status r)) (runs_of ?d i)
      = map (\<lambda>(m, s). (m, h m s)) (map (\<lambda>r. (rn_module r, rn_status r)) (runs_of (rw_db w) i))"
  proof -
    have "rn_scan_id r = i" if "r \<in> set (runs_of (rw_db w) i)" for r
      using that by (simp add: runs_of_def)
    then show ?thesis using f st by (auto simp: runs_of_update)
  qed
  ultimately show ?thesis
    using assms(1) by (simp add: runs_to_def on_db_def run_ok_def scan_of_def statuses_def)
qed

lemma set_module_status_runs:
  assumes "run_ok i w"
  shows "runs_to i (set_module_status i n st reason c count hit) w () (put_status n st)"
proof -
  have "runs_to i (on_db (\<lambda>d. update_runs (\<lambda>r. rn_scan_id r = i \<and> rn_module r = n)
      (status_values st reason c count hit (utcnow d)) (tick d))) w ()
      (map (\<lambda>(m, s). (m, if m = n then st else s)))"
    using run_update_runs [OF assms, of "status_values st reason c count hit (utcnow (rw_db w))"
      "\<lambda>r. rn_scan_id r = i \<and> rn_module r = n" "\<lambda>m s. if m = n then st else s"]
    by (simp add: runs_to_def on_db_def)
  from runs_to_then [OF this publish_event_runs] show ?thesis
    by (simp add: set_module_status_def put_status_def)
qed

definition skip_open :: "(py_str \<times> module_status) list \<Rightarrow> (py_str \<times> module_status) list" where
  "skip_open = map (\<lambda>(m, s). (m, if s = ModQueued \<or> s = ModRunning then ModSkipped else s))"

lemma mark_remaining_runs:
  assumes "run_ok i w"
  shows "runs_to i (mark_remaining_skipped i reason) w () skip_open"
  using run_update_runs [OF assms, of "skip_values reason (utcnow (rw_db w))"
      "\<lambda>r. rn_scan_id r = i \<and> (rn_status r = ModQueued \<or> rn_status r = ModRunning)"
      "\<lambda>m s. if s = ModQueued \<or> s = ModRunning then ModSkipped else s"]
  by (simp add: mark_remaining_skipped_def skip_open_def runs_to_def on_db_def)

text \<open>Once the row of the scan is gone, the next event of the scan has nowhere to go.\<close>

definition db_sound :: "database \<Rightarrow> bool" where
  "db_sound d \<longleftrightarrow> db_ok d \<and> contiguous d"

definition scan_gone :: "py_str \<Rightarrow> 'x run_world \<Rightarrow> bool" where
  "scan_gone i w \<longleftrightarrow> db_sound (rw_db w) \<and> scan_of i w = None"

lemma run_ok_sound: "run_ok i w \<Longrightarrow> db_sound (rw_db w)"
  by (simp add: run_ok_def db_sound_def)

lemma publish_event_gone:
  assumes "scan_of i w = None"
  shows "\<exists>e. publish_event i t payload m w = (Inl (RunnerDb e), w)"
proof -
  have "\<not> scan_exists (rw_db w) i" using assms get_scan_None_iff [of "rw_db w" i] by (simp add: scan_of_def)
  then show ?thesis
    by (simp add: publish_event_def publish_def commit_event_def insert_event_def event_row_of_def
        scan_exists_def Let_def)
qed

lemma publish_footprint_runs: "run_ok i w \<Longrightarrow> runs_to i (publish_footprint i) w () (\<lambda>x. x)"
  using publish_event_runs [of i w] by (simp add: publish_footprint_def runs_to_def)

lemma insert_findings_total:
  "scan_exists d i \<Longrightarrow> db_ok d \<Longrightarrow> contiguous d \<Longrightarrow>
   \<exists>d'. insert_findings sha i fs d = Inr d' \<and> db_ok d' \<and> contiguous d' \<and> db_scans d' = db_scans d
     \<and> db_runs d' = db_runs d"
proof (induction fs arbitrary: d)
  case (Cons f fs)
  let ?row = "new_finding_row sha (new_uuid d) i f"
  let ?d = "(use_uuid d)\<lparr>db_findings := db_findings d @ [?row]\<rparr>"
  have ins: "insert_finding ?row (use_uuid d) = Inr ?d"
    using Cons.prems(1) by (simp add: insert_finding_def new_finding_row_def scan_exists_def)
  have "db_ok ?d" using insert_finding_ok [OF ins] Cons.prems(2) by simp
  moreover have "contiguous ?d" "scan_exists ?d i"
    using Cons.prems by (simp_all add: contiguous_def events_of_def scan_exists_def)
  ultimately show ?case using Cons.IH [of ?d] ins by auto
qed simp

lemma store_findings_runs:
  assumes "run_ok i w"
  shows "runs_to i (store_findings sha i fs) w () (\<lambda>x. x)"
proof -
  from assms have "scan_exists (rw_db w) i" "db_ok (rw_db w)" "contiguous (rw_db w)"
    by (simp_all add: scan_there) (simp_all add: run_ok_def)
  from insert_findings_total [OF this, of sha fs] assms show ?thesis
    by (auto simp: store_findings_def runs_to_return try_db_def runs_to_def run_ok_def
        scan_of_def get_scan_def statuses_def runs_of_def return_run_def)
qed

section \<open>How a scan ends\<close>

text \<open>The stored end of a scan: terminal, with a finishing time, unless the sweep took it.\<close>

definition ended :: "py_str \<Rightarrow> scan_status \<Rightarrow> (py_str \<times> module_status) list \<Rightarrow> 'x run_world \<Rightarrow> bool" where
  "ended i st ss w \<longleftrightarrow> db_ok (rw_db w) \<and> contiguous (rw_db w) \<and> (case scan_of i w of
      None \<Rightarrow> True
    | Some s \<Rightarrow> sc_status s = st \<and> sc_finished_at s \<noteq> None \<and> statuses i w = ss)"

lemma finish_scan_ends:
  assumes "run_ok i w"
  shows "\<exists>w'. finish_scan cfg i st reason w = (Inr st, w') \<and> ended i st (statuses i w) w'
    \<and> rw_rest w' = rw_rest w \<and> rw_governor w' = rw_governor w"
proof -
  from assms obtain s where s: "scan_of i w = Some s" by (auto simp: run_ok_def)
  let ?f = "finish_values st (utcnow (rw_db w))"
  let ?w1 = "w\<lparr>rw_db := update_scans (\<lambda>s. sc_id s = i) ?f (tick (rw_db w))\<rparr>"
  have "sc_id s = i" using s get_scan_in by (auto simp: scan_of_def)
  then have s1: "scan_of i ?w1 = Some (?f s)"
    using s by (simp add: scan_of_def get_scan_update finish_values_def)
  have "db_ok (rw_db ?w1)"
    using assms update_scans_ok [of ?f "tick (rw_db w)"] by (simp add: run_ok_def finish_values_def)
  then have "run_ok i ?w1" using assms s1 by (simp add: run_ok_def)
  from publish_event_runs [OF this, of EvScanStatus
      "[(''status'', JStr (scan_status_str st)), (''reason'', json_opt reason)]" None]
  obtain w2 where w2: "publish_event i EvScanStatus [(''status'', JStr (scan_status_str st)),
        (''reason'', json_opt reason)] None ?w1 = (Inr (), w2)"
      "run_ok i w2" "statuses i w2 = statuses i ?w1" "scan_of i w2 = Some (?f s)"
      "rw_rest w2 = rw_rest w" "rw_governor w2 = rw_governor w"
    using s1 by (auto simp: runs_to_def)
  have "statuses i ?w1 = statuses i w" by (simp add: statuses_def runs_of_def)
  moreover from w2(2) have ok2: "db_ok (rw_db w2)" "contiguous (rw_db w2)"
    by (simp_all add: run_ok_def)
  let ?w3 = "w2\<lparr>rw_db := snd (run_retention (rc_retention_days cfg) None (rw_db w2))\<rparr>"
  from run_retention_keeps [OF ok2(1), of "rc_retention_days cfg" None i] ok2(2)
  have "db_ok (rw_db ?w3)" "contiguous (rw_db ?w3)"
    "scan_of i ?w3 = None \<or> scan_of i ?w3 = scan_of i w2 \<and> statuses i ?w3 = statuses i w2"
    by (auto simp: scan_of_def statuses_def)
  ultimately have "ended i st (statuses i w) ?w3"
    using w2(3,4) by (auto simp: ended_def finish_values_def split: option.splits)
  then show ?thesis
    using w2 by (simp add: finish_scan_def then_run_def bind_run_def on_db_def return_run_def)
qed

lemma cancel_scan_ends:
  assumes "run_ok i w"
  shows "\<exists>w'. cancel_scan_run cfg i w = (Inr ScanCanceled, w')
    \<and> ended i ScanCanceled (skip_open (statuses i w)) w'
    \<and> rw_rest w' = rw_rest w \<and> rw_governor w' = rw_governor w"
proof -
  from mark_remaining_runs [OF assms] obtain w1 where w1: "run_ok i w1"
      "mark_remaining_skipped i ''the scan was canceled'' w = (Inr (), w1)"
      "statuses i w1 = skip_open (statuses i w)" "rw_rest w1 = rw_rest w" "rw_governor w1 = rw_governor w"
    by (auto simp: runs_to_def)
  from finish_scan_ends [OF w1(1), of cfg ScanCanceled None] w1 show ?thesis
    by (auto simp: cancel_scan_run_def then_run_def bind_run_def)
qed

end
