(* ===== verification/Scan_Spec.thy ===== *)
theory Scan_Spec
  imports Runner_Steps "HOL-Library.Multiset"
begin

text \<open>
  What a whole scan does to the statuses of its module runs, as an inductive specification, and
  the proof that \<open>execute_scan\<close> refines it, under the contract with everything that runs while a
  module is awaited.  The contract is a locale; \<open>Scan_System\<close> discharges it for the modules of
  the repository.
\<close>

section \<open>A run, abstractly\<close>

text \<open>
  What a run of the modules \<open>ns\<close> may do to the statuses of the scan's runs, and the state it then
  ends in, given whether one has succeeded and whether one had a problem before.
\<close>

inductive scan_spec :: "py_str list \<Rightarrow> bool \<Rightarrow> bool \<Rightarrow> (py_str \<times> module_status) list \<Rightarrow> scan_status \<Rightarrow>
    (py_str \<times> module_status) list \<Rightarrow> bool" where
  canceled: "scan_spec ns s p ss ScanCanceled (skip_open ss)"
| fruitless: "scan_spec [] False p ss ScanFailed ss"
| warned: "scan_spec [] True True ss ScanCompletedWithWarnings ss"
| clean: "scan_spec [] True False ss ScanCompleted ss"
| not_applicable: "scan_spec ns s p (put_status n ModNotApplicable ss) st ss'
    \<Longrightarrow> scan_spec (n # ns) s p ss st ss'"
| failed: "scan_spec ns s True (put_status n ModFailed ss) st ss' \<Longrightarrow> scan_spec (n # ns) s p ss st ss'"
| succeeded: "(p \<longrightarrow> p') \<Longrightarrow> scan_spec ns True p' (put_status n ModDone ss) st ss'
    \<Longrightarrow> scan_spec (n # ns) s p ss st ss'"

code_pred scan_spec .

inductive_cases scan_spec_NilE: "scan_spec [] s p ss st ss'"
inductive_simps scan_spec_Cons: "scan_spec (n # ns) s p ss st ss'"

lemma scan_spec_terminal: "scan_spec ns s p ss st ss' \<Longrightarrow> scan_terminal st"
  by (induction rule: scan_spec.induct) simp_all

lemma put_status_names [simp]: "map fst (put_status n st ss) = map fst ss"
  by (auto simp: put_status_def)

lemma skip_open_names [simp]: "map fst (skip_open ss) = map fst ss"
  by (auto simp: skip_open_def)

lemma put_status_put [simp]: "put_status n st (put_status n st' ss) = put_status n st ss"
  by (simp add: put_status_def case_prod_unfold)

lemma scan_spec_names: "scan_spec ns s p ss st ss' \<Longrightarrow> map fst ss' = map fst ss"
  by (induction rule: scan_spec.induct) simp_all

definition settled :: "module_status \<Rightarrow> bool" where
  "settled st \<longleftrightarrow> st \<noteq> ModQueued \<and> st \<noteq> ModRunning"

lemma in_put_status: "(m, x) \<in> set (put_status n st ss)
    \<longleftrightarrow> (if m = n then x = st \<and> n \<in> fst ` set ss else (m, x) \<in> set ss)"
  by (force simp: put_status_def)

text \<open>What was run is settled, and what was not is as it was.\<close>

lemma scan_spec_settles:
  "scan_spec ns s p ss st ss' \<Longrightarrow> (m, x) \<in> set ss' \<Longrightarrow>
     settled x \<or> (st \<noteq> ScanCanceled \<and> m \<notin> set ns \<and> (m, x) \<in> set ss)"
proof (induction rule: scan_spec.induct)
  case (canceled ns s p ss)
  then show ?case by (auto simp: skip_open_def settled_def split: if_splits)
qed (auto simp: in_put_status settled_def split: if_splits)

lemma scan_spec_other:
  "scan_spec ns s p ss st ss' \<Longrightarrow> st \<noteq> ScanCanceled \<Longrightarrow> n \<notin> set ns \<Longrightarrow>
     (n, x) \<in> set ss' \<longleftrightarrow> (n, x) \<in> set ss"
  by (induction rule: scan_spec.induct) (auto simp: in_put_status)

lemma scan_spec_head:
  assumes "scan_spec ns s p (put_status n x ss) st ss'" and "st \<noteq> ScanCanceled"
    and "n \<notin> set ns" and "n \<in> fst ` set ss"
  shows "(n, y) \<in> set ss' \<longleftrightarrow> y = x"
  using scan_spec_other [OF assms(1-3)] assms(4) by (simp add: in_put_status)

lemma put_status_fst [simp]: "fst ` set (put_status n st ss) = fst ` set ss"
  by (metis list.set_map put_status_names)

text \<open>The state a run ends in, when it was not cancelled, is the one its statuses call for.\<close>

lemma scan_spec_status:
  "scan_spec ns s p ss st ss' \<Longrightarrow> st \<noteq> ScanCanceled \<Longrightarrow> distinct ns \<Longrightarrow> set ns \<subseteq> fst ` set ss \<Longrightarrow>
     (st = ScanFailed \<longleftrightarrow> \<not> s \<and> (\<forall>n \<in> set ns. (n, ModDone) \<notin> set ss'))
     \<and> (st = ScanCompleted \<longrightarrow> \<not> p \<and> (\<forall>n \<in> set ns. (n, ModFailed) \<notin> set ss'))"
proof (induction rule: scan_spec.induct)
  case (not_applicable ns s p n ss st ss')
  then show ?case using scan_spec_head [OF not_applicable.hyps(1)] by auto
next
  case (failed ns s n ss st ss' p)
  then show ?case using scan_spec_head [OF failed.hyps(1)] by auto
next
  case (succeeded p p' ns n ss st ss' s)
  then show ?case using scan_spec_head [OF succeeded.hyps(2)] by auto
qed auto

section \<open>What the runner relies on\<close>

text \<open>
  While a module runs, and while the two tasks that watch it wind down, the rest of the program
  may do what it likes to the world, as long as it keeps the integrity of the database, leaves the
  statuses of this scan's runs to the runner, and changes of the scan's row the cancel flag only.
  While the tasks wind down the scan may also be deleted.
\<close>

definition task_keeps :: "py_str \<Rightarrow> 'x run_world \<Rightarrow> 'x run_world \<Rightarrow> bool" where
  "task_keeps i w w' \<longleftrightarrow> (run_ok i w \<longrightarrow> run_ok i w' \<and> statuses i w' = statuses i w
     \<and> (\<exists>c. scan_of i w' = map_option (\<lambda>s. s\<lparr>sc_cancel_requested := c\<rparr>) (scan_of i w)))"

text \<open>The contexts modules are given: the scan's own, with a target validated under the scope.\<close>

definition valid_context :: "py_str \<Rightarrow> scope_profile \<Rightarrow> module_context \<Rightarrow> bool" where
  "valid_context i S cx \<longleftrightarrow> cx_scan_id cx = i \<and> cx_scope cx = S
     \<and> (\<forall>a. covers (cx_target cx) a \<longrightarrow> address_denial S a = None)"

text \<open>\<open>sane\<close> is what the modules keep of the governor and of the rest of the world.\<close>

definition live :: "(governor \<Rightarrow> 'x \<Rightarrow> bool) \<Rightarrow> 'x run_world \<Rightarrow> bool" where
  "live sane w \<longleftrightarrow> (\<exists>g. rw_governor w = Some g \<and> sane g (rw_rest w))"

locale scan_tasks =
  fixes cfg :: "'x run_config" and i :: py_str and S :: scope_profile
    and sane :: "governor \<Rightarrow> 'x \<Rightarrow> bool"
  assumes run_keeps: "registry_get (rc_registry cfg) n = Inr m \<Longrightarrow> valid_context i S cx \<Longrightarrow>
      run_ok i w \<Longrightarrow> live sane w \<Longrightarrow>
      task_keeps i w (snd (sm_run m cx w)) \<and> live sane (snd (sm_run m cx w))"
    and watch_keeps: "run_ok i w \<Longrightarrow> live sane w \<Longrightarrow>
      (task_keeps i w (snd (rc_watchers cfg i w)) \<or> scan_gone i (snd (rc_watchers cfg i w)))
      \<and> live sane (snd (rc_watchers cfg i w))"

text \<open>What the outcome of a module means for its status and for the flags.\<close>

definition outcome_flags :: "module_status \<Rightarrow> run_flags \<Rightarrow> run_flags \<Rightarrow> bool" where
  "outcome_flags st fl fl' \<longleftrightarrow>
     (st = ModFailed \<and> any_success fl' = any_success fl \<and> any_problem fl'
      \<or> st = ModDone \<and> any_success fl' \<and> (any_problem fl \<longrightarrow> any_problem fl'))"

lemma record_outcome_result:
  assumes "run_ok i w" and "record_outcome cfg i n md out fl w = (r, w')"
  shows "run_ok i w' \<and> rw_rest w' = rw_rest w \<and> rw_governor w' = rw_governor w
    \<and> (case r of Inl e \<Rightarrow> (\<exists>m. e = RunnerModule m \<and> out = Inl (RunOther m))
       | Inr fl' \<Rightarrow> (\<exists>st. outcome_flags st fl fl' \<and> statuses i w' = put_status n st (statuses i w)))"
proof (cases out)
  case (Inl e)
  show ?thesis
  proof (cases "failure_of cfg md e")
    case None
    with assms Inl show ?thesis
      by (cases e) (auto simp: record_outcome_def raise_run_def failure_of_def)
  next
    case (Some rc)
    obtain reason c where rc: "rc = (reason, c)" by fastforce
    from set_module_status_runs [OF assms(1), of n ModFailed "Some reason" "Some c" 0 False]
    obtain w1 where "set_module_status i n ModFailed (Some reason) (Some c) 0 False w = (Inr (), w1)"
      "run_ok i w1" "statuses i w1 = put_status n ModFailed (statuses i w)" "rw_rest w1 = rw_rest w"
      "rw_governor w1 = rw_governor w"
      by (auto simp: runs_to_def)
    with assms(2) Inl Some rc show ?thesis
      by (auto simp: record_outcome_def then_run_def bind_run_def return_run_def outcome_flags_def)
  qed
next
  case (Inr res)
  from store_findings_runs [OF assms(1), of "rc_sha256 cfg" "mr_findings res"]
  obtain w1 where w1: "store_findings (rc_sha256 cfg) i (mr_findings res) w = (Inr (), w1)"
    "run_ok i w1" "statuses i w1 = statuses i w" "rw_rest w1 = rw_rest w"
    "rw_governor w1 = rw_governor w"
    by (auto simp: runs_to_def)
  let ?why = "if mr_warnings res = [] then None else Some (join ''; '' (mr_warnings res))"
  from set_module_status_runs [OF w1(2), of n ModDone ?why None "int (length (mr_findings res))"
      "mr_cache_hit res"]
  obtain w2 where "set_module_status i n ModDone ?why None (int (length (mr_findings res)))
      (mr_cache_hit res) w1 = (Inr (), w2)" "run_ok i w2"
    "statuses i w2 = put_status n ModDone (statuses i w1)" "rw_rest w2 = rw_rest w1"
    "rw_governor w2 = rw_governor w1"
    by (auto simp: runs_to_def)
  with w1 assms(2) Inr show ?thesis
    by (auto simp: record_outcome_def then_run_def bind_run_def return_run_def outcome_flags_def)
qed

lemma task_keeps_run_ok: "task_keeps i w w' \<Longrightarrow> run_ok i w \<Longrightarrow> run_ok i w' \<and> statuses i w' = statuses i w"
  by (simp add: task_keeps_def)

lemma live_frame:
  "live sane w \<Longrightarrow> rw_rest w' = rw_rest w \<Longrightarrow> rw_governor w' = rw_governor w \<Longrightarrow> live sane w'"
  by (simp add: live_def)

lemma valid_context_findings [simp]:
  "valid_context i S (cx\<lparr>cx_prior_findings := fs\<rparr>) = valid_context i S cx"
  by (simp add: valid_context_def)

context scan_tasks
begin

lemma run_module_result:
  assumes "run_ok i w" and "live sane w" and "valid_context i S cx"
    and "registry_get (rc_registry cfg) n = Inr m" and "run_module cfg i cx n m fl w = (r, w')"
  shows "live sane w' \<and> (case r of Inl e \<Rightarrow> db_sound (rw_db w')
     | Inr fl' \<Rightarrow> run_ok i w' \<and> (\<exists>st. outcome_flags st fl fl' \<and> statuses i w' = put_status n st (statuses i w)))"
proof -
  let ?cx = "cx\<lparr>cx_prior_findings := produced fl\<rparr>"
  from set_module_status_runs [OF assms(1), of n ModRunning None None 0 False]
  obtain w1 where w1: "set_module_status i n ModRunning None None 0 False w = (Inr (), w1)"
    "run_ok i w1" "statuses i w1 = put_status n ModRunning (statuses i w)"
    "rw_rest w1 = rw_rest w" "rw_governor w1 = rw_governor w"
    by (auto simp: runs_to_def)
  have live1: "live sane w1" using live_frame [OF assms(2)] w1 by blast
  obtain out w2 where w2: "sm_run m ?cx w1 = (out, w2)" by fastforce
  have ok2: "run_ok i w2 \<and> statuses i w2 = statuses i w1" "live sane w2"
    using run_keeps [OF assms(4) _ w1(2) live1, of ?cx] assms(3) task_keeps_run_ok [OF _ w1(2)]
    by (simp_all add: w2)
  obtain r3 w3 where w3: "record_outcome cfg i n (sm_metadata m) out fl w2 = (r3, w3)" by fastforce
  note rec = record_outcome_result [OF conjunct1 [OF ok2(1)] w3]
  have live3: "live sane w3" using live_frame [OF ok2(2)] rec by blast
  obtain r4 w4 where w4: "rc_watchers cfg i w3 = (r4, w4)" by fastforce
  have w4_from: "task_keeps i w3 w4 \<or> scan_gone i w4" and live4: "live sane w4"
    using watch_keeps [OF _ live3] rec by (simp_all add: w4)
  have fin: "finally_run (\<lambda>w. case sm_run m ?cx w of
      (outcome, w1) \<Rightarrow> record_outcome cfg i n (sm_metadata m) outcome fl w1) (rc_watchers cfg i) w1
    = (case r4 of Inl e \<Rightarrow> (Inl e, w4) | Inr _ \<Rightarrow> (r3, w4))"
    by (simp add: finally_run_def w2 w3 w4)
  from w4_from show ?thesis
  proof
    assume "task_keeps i w3 w4"
    then have ok4: "run_ok i w4 \<and> statuses i w4 = statuses i w3"
      using rec task_keeps_run_ok [of i w3] by simp
    from publish_footprint_runs [OF conjunct1 [OF ok4]] obtain w5 where
      w5: "publish_footprint i w4 = (Inr (), w5)" "run_ok i w5" "statuses i w5 = statuses i w4"
        "rw_rest w5 = rw_rest w4" "rw_governor w5 = rw_governor w4"
      by (auto simp: runs_to_def)
    have "live sane w5" using live_frame [OF live4] w5 by blast
    with assms(5) w1 ok2 ok4 live4 w5 rec show ?thesis
      by (auto simp: run_module_def then_run_def bind_run_def return_run_def fin run_ok_sound split: sum.splits)
  next
    assume gone: "scan_gone i w4"
    then obtain e where "publish_footprint i w4 = (Inl (RunnerDb e), w4)"
      using publish_event_gone [of i w4] by (fastforce simp: publish_footprint_def scan_gone_def)
    with assms(5) w1 live4 gone show ?thesis
      by (auto simp: run_module_def then_run_def bind_run_def return_run_def fin scan_gone_def split: sum.splits)
  qed
qed

end

text \<open>What an action that ends a scan achieves.\<close>

definition ends_as :: "py_str \<Rightarrow> 'x run_world \<Rightarrow> (scan_status \<Rightarrow> (py_str \<times> module_status) list \<Rightarrow> bool) \<Rightarrow>
    (runner_exn + scan_status) \<times> 'x run_world \<Rightarrow> bool" where
  "ends_as i w Q res \<longleftrightarrow> (\<exists>st ss w'. res = (Inr st, w') \<and> Q st ss \<and> ended i st ss w'
     \<and> rw_rest w' = rw_rest w \<and> rw_governor w' = rw_governor w)"

lemma finish_scan_as: "run_ok i w \<Longrightarrow> Q st (statuses i w) \<Longrightarrow> ends_as i w Q (finish_scan cfg i st reason w)"
  using finish_scan_ends [of i w cfg st reason] by (auto simp: ends_as_def)

lemma cancel_scan_as:
  "run_ok i w \<Longrightarrow> Q ScanCanceled (skip_open (statuses i w)) \<Longrightarrow> ends_as i w Q (cancel_scan_run cfg i w)"
  using cancel_scan_ends [of i w cfg] by (auto simp: ends_as_def)

lemma conclude_as:
  assumes "run_ok i w"
  shows "ends_as i w (scan_spec [] (any_success fl) (any_problem fl) (statuses i w)) (conclude cfg i fl w)"
  using assms scan_spec.intros
  by (auto simp: conclude_def intro!: finish_scan_as cancel_scan_as)

context scan_tasks
begin

lemma run_modules_refines:
  "run_ok i w \<Longrightarrow> live sane w \<Longrightarrow> valid_context i S cx \<Longrightarrow> run_modules cfg i tt cx ns fl w = (r, w') \<Longrightarrow>
     live sane w' \<and> (case r of Inl e \<Rightarrow> db_sound (rw_db w') | Inr st \<Rightarrow>
       (\<exists>ss'. scan_spec ns (any_success fl) (any_problem fl) (statuses i w) st ss' \<and> ended i st ss' w'))"
proof (induction ns arbitrary: fl w)
  case Nil
  then show ?case using conclude_as [OF Nil.prems(1), of fl cfg] live_frame [OF Nil.prems(2)]
    by (auto simp: ends_as_def)
next
  case (Cons n ns)
  show ?case
  proof (cases "cancel_requested i w")
    case True
    have "ends_as i w (scan_spec (n # ns) (any_success fl) (any_problem fl) (statuses i w))
        (cancel_scan_run cfg i w)"
      by (intro cancel_scan_as Cons.prems(1) scan_spec.canceled)
    with True Cons.prems(4) live_frame [OF Cons.prems(2)] show ?thesis
      by (auto simp: ends_as_def)
  next
    case False
    show ?thesis
    proof (cases "registry_get (rc_registry cfg) n")
      case (Inl e)
      with Cons.prems False show ?thesis by (auto simp: bind_run_def get_module_def run_ok_sound)
    next
      case m: (Inr m)
      show ?thesis
      proof (cases "applies_to m tt")
        case True
        obtain r1 w1 where run: "run_module cfg i cx n m fl w = (r1, w1)" by fastforce
        note one = run_module_result [OF Cons.prems(1,2,3) m run]
        show ?thesis
        proof (cases r1)
          case (Inl e)
          with Cons.prems(4) False m True run one show ?thesis
            by (auto simp: bind_run_def get_module_def)
        next
          case (Inr fl')
          with Cons.prems(4) False m True run have rest: "run_modules cfg i tt cx ns fl' w1 = (r, w')"
            by (simp add: bind_run_def get_module_def)
          from one Inr obtain x where x: "run_ok i w1" "live sane w1" "outcome_flags x fl fl'"
            "statuses i w1 = put_status n x (statuses i w)" by auto
          have "scan_spec (n # ns) (any_success fl) (any_problem fl) (statuses i w) st ss'"
            if "scan_spec ns (any_success fl') (any_problem fl') (statuses i w1) st ss'" for st ss'
            using x(3) unfolding outcome_flags_def
          proof (elim disjE conjE)
            assume "x = ModFailed" "any_success fl' = any_success fl" "any_problem fl'"
            then show ?thesis using that x(4) by (auto intro: scan_spec.failed)
          next
            assume "x = ModDone" "any_success fl'" "any_problem fl \<longrightarrow> any_problem fl'"
            then show ?thesis using that x(4) by (auto intro: scan_spec.succeeded)
          qed
          with Cons.IH [OF x(1,2) Cons.prems(3) rest] show ?thesis by (fastforce split: sum.splits)
        qed
      next
        case not: False
        let ?why = "Some (''this module does not support a '' @ target_type_str tt @ '' target'')"
        from set_module_status_runs [OF Cons.prems(1), of n ModNotApplicable ?why None 0 False]
        obtain w1 where w1: "set_module_status i n ModNotApplicable ?why None 0 False w = (Inr (), w1)"
          "run_ok i w1" "statuses i w1 = put_status n ModNotApplicable (statuses i w)"
          "rw_rest w1 = rw_rest w" "rw_governor w1 = rw_governor w"
          by (auto simp: runs_to_def)
        have live1: "live sane w1" using live_frame [OF Cons.prems(2)] w1 by blast
        from Cons.prems(4) False m not w1(1) have "run_modules cfg i tt cx ns fl w1 = (r, w')"
          by (simp add: bind_run_def get_module_def then_run_def)
        from Cons.IH [OF w1(2) live1 Cons.prems(3) this] w1(3) show ?thesis
          by (fastforce split: sum.splits intro: scan_spec.not_applicable)
      qed
    qed
  qed
qed

end

section \<open>A whole scan\<close>

lemma module_order_Inr:
  assumes "module_order reg selected = Inr ns"
  shows "mset ns = mset selected \<and> list_all (registry_has reg) ns
    \<and> sorted (map (\<lambda>n. md_order (sm_metadata (projr (registry_get reg n)))) ns)"
proof -
  from assms obtain ms where ms: "map_sum_list (registry_get reg) selected = Inr ms"
    and ns: "ns = map fst (sort_key (\<lambda>(n, m). md_order (sm_metadata m)) (zip selected ms))"
    by (auto simp: module_order_def bind_sum_Inr_iff)
  have len: "length ms = length selected" by (rule map_sum_list_length [OF ms])
  have "mset ns = image_mset fst (mset (zip selected ms))" by (simp add: ns)
  also have "\<dots> = mset selected" using len by (metis map_fst_zip mset_map)
  finally have perm: "mset ns = mset selected" .
  have "registry_get reg n = Inr m" if "(n, m) \<in> set (zip selected ms)" for n m
    using that ms by (auto simp: map_sum_list_Inr_iff list_all2_iff)
  then have "map (\<lambda>n. md_order (sm_metadata (projr (registry_get reg n)))) ns
      = map (\<lambda>(n, m). md_order (sm_metadata m)) (sort_key (\<lambda>(n, m). md_order (sm_metadata m)) (zip selected ms))"
    by (auto simp: ns)
  then have "sorted (map (\<lambda>n. md_order (sm_metadata (projr (registry_get reg n)))) ns)"
    by (metis sorted_sort_key)
  moreover have "list_all (registry_has reg) ns"
    using all_registered [OF ms] perm by (metis list_all_iff mset_eq_setD)
  ultimately show ?thesis using perm by blast
qed

text \<open>The target was refused: the scan fails before any module is looked at.\<close>

definition refused_end :: "py_str \<Rightarrow> 'x run_world \<Rightarrow> scan_status \<Rightarrow> 'x run_world \<Rightarrow> bool" where
  "refused_end i w st w' \<longleftrightarrow> st = ScanFailed \<and> ended i ScanFailed (statuses i w) w'
     \<and> rw_rest w' = rw_rest w"

lemma revalidate_keeps:
  assumes "run_ok i w" and "revalidate cfg scan scope w = (r, w')"
  shows "\<exists>v. r = Inr v \<and> run_ok i w' \<and> statuses i w' = statuses i w \<and> scan_of i w' = scan_of i w
    \<and> rw_rest w' = rw_rest w \<and> rw_governor w' = rw_governor w"
proof -
  obtain v d where v: "validate_target (db_sink \<lparr>dl_scan_id = Some (sc_id scan),
      dl_scope_id = Some (sc_scope_id scan)\<rparr>) (rc_resolver cfg) scope (sc_target_input scan) (rw_db w)
      = (v, d)" by fastforce
  have "only_ledger_grows (rw_db w) d" by (rule validate_target_frame [OF v])
  moreover have "db_ok d" using validate_target_ok [OF v] assms(1) by (simp add: run_ok_def)
  ultimately show ?thesis
    using assms by (auto simp: revalidate_def v run_ok_def only_ledger_grows_def contiguous_def
        events_of_def scan_of_def get_scan_def statuses_def runs_of_def)
qed

lemma load_scope_Inr:
  "load_scope_profile d i = Inr S \<longleftrightarrow> (\<exists>row. get_scope d i = Some row
     \<and> create_scope (sr_name row) (sr_entries row) (sr_allow_cgnat row) (sr_allow_link_local row) = Inr S)"
  by (auto simp: load_scope_profile_def split: option.splits sum.splits)

text \<open>What validating answers does not depend on where it records.\<close>

lemma deny_first_answer:
  "(case fst (deny_first sink S t as l) of Inl e \<Rightarrow> Inl e | Inr _ \<Rightarrow> Inr ())
     = (case fst (deny_first sink' S t as l') of Inl e \<Rightarrow> Inl e | Inr _ \<Rightarrow> Inr ())"
  by (induction as) (auto simp: deny_def split: option.splits)

lemma validate_network_answer:
  "fst (validate_network sink S n l) = fst (validate_network sink' S n l')"
  by (auto simp: validate_network_def deny_def split: option.splits)

lemma validate_addresses_answer:
  "fst (validate_addresses sink S t as l) = fst (validate_addresses sink' S t as l')"
  using deny_first_answer [of sink S t as l sink' l']
  by (auto simp: validate_addresses_def split: prod.splits sum.splits)

lemma validate_target_answer:
  "fst (validate_target sink R S t l) = fst (validate_target sink' R S t l')"
proof (cases "classify R t")
  case (Inr x)
  obtain k as net where x: "x = (k, as, net)" by (cases x)
  show ?thesis
  proof (cases net)
    case None
    then show ?thesis
      using Inr x validate_addresses_answer [of sink S t as l sink' l']
      by (cases "validate_addresses sink S t as l"; cases "validate_addresses sink' S t as l'")
        (auto simp: validate_target_def split: sum.splits)
  next
    case (Some n)
    then show ?thesis
      using Inr x validate_network_answer [of sink S n l sink' l']
      by (cases "validate_network sink S n l"; cases "validate_network sink' S n l'")
        (auto simp: validate_target_def split: sum.splits)
  qed
qed (simp add: validate_target_def)

definition target_answer :: "resolver \<Rightarrow> scope_profile \<Rightarrow> py_str \<Rightarrow> guard_exn + validated_target" where
  "target_answer R S t = fst (validate_target log_sink R S t [])"

lemma target_answer_covers:
  assumes "created_scope S" and "target_answer R S t = Inr target" and "covers target a"
  shows "address_denial S a = None"
  using validate_target_covers [OF assms(1) _ assms(3), of log_sink R t "[]"] assms(2)
  by (cases "validate_target log_sink R S t []") (simp add: target_answer_def)

lemma revalidate_answer:
  assumes "run_ok i w"
  obtains w' where "revalidate cfg scan scope w
      = (Inr (target_answer (rc_resolver cfg) scope (sc_target_input scan)), w')"
    and "run_ok i w'" and "statuses i w' = statuses i w" and "scan_of i w' = scan_of i w"
    and "rw_rest w' = rw_rest w" and "rw_governor w' = rw_governor w"
proof -
  obtain r w' where rv: "revalidate cfg scan scope w = (r, w')" by fastforce
  have "r = Inr (target_answer (rc_resolver cfg) scope (sc_target_input scan))"
    using rv validate_target_answer [of "db_sink \<lparr>dl_scan_id = Some (sc_id scan),
        dl_scope_id = Some (sc_scope_id scan)\<rparr>" "rc_resolver cfg" scope "sc_target_input scan" "rw_db w"
        log_sink "[]"]
    by (auto simp: revalidate_def target_answer_def split: prod.splits)
  with revalidate_keeps [OF assms rv] rv show ?thesis by (auto intro: that)
qed

text \<open>A scan as far as its modules: everything before them, for any configuration.\<close>

lemma execute_until_dispatch:
  assumes "run_ok i w" and "scan_of i w = Some s"
    and "load_scope_profile (rw_db w) (sc_scope_id s) = Inr S"
    and "new_governor (sc_intensity_profile s) None 0 = Inr g"
  obtains w' where "execute_scan cfg i w
      = after_validation cfg s S (target_answer (rc_resolver cfg) S (sc_target_input s)) w'"
    and "run_ok i w'" and "statuses i w' = statuses i w" and "scan_of i w' = Some s"
    and "rw_rest w' = rw_rest w" and "rw_governor w' = Some g"
proof -
  from assms(3) obtain row where scope: "get_scope (rw_db w) (sc_scope_id s) = Some row"
    "create_scope (sr_name row) (sr_entries row) (sr_allow_cgnat row) (sr_allow_link_local row) = Inr S"
    by (auto simp: load_scope_Inr)
  from publish_event_runs [OF assms(1), of EvScanStatus "[(''status'', JStr (scan_status_str ScanRunning))]" None]
  obtain w1 where w1: "publish_event i EvScanStatus [(''status'', JStr (scan_status_str ScanRunning))]
      None w = (Inr (), w1)" "run_ok i w1" "statuses i w1 = statuses i w" "scan_of i w1 = Some s"
      "rw_rest w1 = rw_rest w"
    using assms(2) by (auto simp: runs_to_def)
  let ?w2 = "w1\<lparr>rw_governor := Some g\<rparr>"
  have ok2: "run_ok i ?w2" "statuses i ?w2 = statuses i w" "rw_rest ?w2 = rw_rest w"
      "scan_of i ?w2 = Some s"
    using w1 by (simp_all add: run_ok_def scan_of_def statuses_def)
  obtain w3 where w3: "revalidate cfg s S ?w2
      = (Inr (target_answer (rc_resolver cfg) S (sc_target_input s)), w3)" "run_ok i w3"
      "statuses i w3 = statuses i ?w2" "scan_of i w3 = scan_of i ?w2" "rw_rest w3 = rw_rest ?w2"
      "rw_governor w3 = rw_governor ?w2"
    by (rule revalidate_answer [OF ok2(1)])
  have "execute_scan cfg i w
      = after_validation cfg s S (target_answer (rc_resolver cfg) S (sc_target_input s)) w3"
    using assms(2,4) scope w1(1) w3(1)
    by (simp add: execute_scan_def scan_of_def then_run_def bind_run_def start_governor_def)
  with w3 ok2 show ?thesis by (intro that) simp_all
qed

lemma execute_bad_intensity:
  assumes "run_ok i w" and "scan_of i w = Some s"
    and "load_scope_profile (rw_db w) (sc_scope_id s) = Inr S"
    and "new_governor (sc_intensity_profile s) None 0 = Inl e"
  obtains w' where "execute_scan cfg i w = (Inl (RunnerConfig e), w')" and "rw_rest w' = rw_rest w"
    and "run_ok i w'"
proof -
  from publish_event_runs [OF assms(1), of EvScanStatus "[(''status'', JStr (scan_status_str ScanRunning))]" None]
  obtain w1 where "publish_event i EvScanStatus [(''status'', JStr (scan_status_str ScanRunning))] None w
      = (Inr (), w1)" "rw_rest w1 = rw_rest w" "run_ok i w1"
    by (auto simp: runs_to_def)
  with assms(2-4) that show ?thesis
    by (auto simp: load_scope_Inr execute_scan_def scan_of_def then_run_def bind_run_def start_governor_def)
qed

context scan_tasks
begin

lemma execute_scan_refines:
  assumes "run_ok i w" and "scan_of i w = Some s"
    and "load_scope_profile (rw_db w) (sc_scope_id s) = Inr S"
    and start: "\<And>g. new_governor (sc_intensity_profile s) None 0 = Inr g \<Longrightarrow> sane g (rw_rest w)"
    and "execute_scan cfg i w = (r, w')"
  shows "(rw_rest w' = rw_rest w \<or> live sane w') \<and> (case r of Inl e \<Rightarrow> db_sound (rw_db w') | Inr st \<Rightarrow>
    refused_end i w st w' \<or> (\<exists>ns ss'. mset ns = mset (sc_selected_modules s)
      \<and> scan_spec ns False False (statuses i w) st ss' \<and> ended i st ss' w'))"
proof (cases "new_governor (sc_intensity_profile s) None 0")
  case (Inl e)
  obtain w1 where "execute_scan cfg i w = (Inl (RunnerConfig e), w1)" "rw_rest w1 = rw_rest w" "run_ok i w1"
    by (rule execute_bad_intensity [OF assms(1-3) Inl])
  with assms(5) show ?thesis by (auto simp: run_ok_sound)
next
  case (Inr g)
  have id: "sc_id s = i" using assms(2) get_scan_in by (auto simp: scan_of_def)
  obtain w3 where run: "after_validation cfg s S (target_answer (rc_resolver cfg) S (sc_target_input s)) w3
      = (r, w')" and w3: "run_ok i w3" "statuses i w3 = statuses i w" "rw_rest w3 = rw_rest w"
      "rw_governor w3 = Some g"
    by (rule execute_until_dispatch [OF assms(1-3) Inr, of cfg]) (use assms(5) in simp)
  have live3: "live sane w3" using w3(3,4) start [OF Inr] by (simp add: live_def)
  show ?thesis
  proof (cases "target_answer (rc_resolver cfg) S (sc_target_input s)")
    case (Inl e)
    then show ?thesis
    proof (cases e)
      case (TargetRejected t reason)
      from finish_scan_ends [OF w3(1), of cfg ScanFailed "Some (''target refused at dispatch: '' @ reason)"]
        Inl TargetRejected run w3(2,3) show ?thesis
        by (auto simp: after_validation_def id refused_end_def)
    qed (use Inl run w3(1,3) in \<open>auto simp: after_validation_def raise_run_def run_ok_sound\<close>)
  next
    case target: (Inr target)
    have "valid_context i S \<lparr>cx_scan_id = i, cx_target = target, cx_scope = S,
        cx_options = sc_module_options s, cx_prior_findings = []\<rparr>"
      using target_answer_covers [OF load_scope_created [OF assms(3)] target]
      by (simp add: valid_context_def)
    note loop = run_modules_refines [OF w3(1) live3 this]
    show ?thesis
    proof (cases "module_order (rc_registry cfg) (sc_selected_modules s)")
      case (Inl e)
      with run target w3(1,3) show ?thesis by (auto simp: after_validation_def dispatch_def run_ok_sound)
    next
      case order: (Inr ns)
      with run target have "run_modules cfg i (sc_target_type s) \<lparr>cx_scan_id = i, cx_target = target,
          cx_scope = S, cx_options = sc_module_options s, cx_prior_findings = []\<rparr> ns
          \<lparr>any_success = False, any_problem = False, produced = []\<rparr> w3 = (r, w')"
        by (simp add: after_validation_def dispatch_def id)
      from loop [OF this] w3(2) module_order_Inr [OF order] show ?thesis
        by (fastforce split: sum.splits)
    qed
  qed
qed

end

end
