(* ===== verification/Ports.thy ===== *)
theory Ports
  imports Modules_Base
begin

text \<open>
  \<open>backend/app/modules/ports.py\<close>: the port selections, \<open>int(...)\<close> and \<open>str(...)\<close> on option
  values, and the expansion of a validated target into the addresses a module probes.
\<close>

section \<open>Option values as numbers and text\<close>

datatype int_exn = IntTypeError | IntValueError | IntOverflowError

text \<open>\<open>int(value)\<close> on the values JSON can hold: floats are truncated towards zero.\<close>

fun py_int :: "json \<Rightarrow> int_exn + int" where
  "py_int JNull = Inl IntTypeError"
| "py_int (JBool b) = Inr (if b then 1 else 0)"
| "py_int (JInt i) = Inr i"
| "py_int (JFloat r) = Inr (if r < 0 then - \<lfloor>- r\<rfloor> else \<lfloor>r\<rfloor>)"
| "py_int (JInfinity _) = Inl IntOverflowError"
| "py_int JNaN = Inl IntValueError"
| "py_int (JStr s) = (case py_int_of_str s of None \<Rightarrow> Inl IntValueError | Some i \<Rightarrow> Inr i)"
| "py_int (JList _) = Inl IntTypeError"
| "py_int (JObj _) = Inl IntTypeError"

text \<open>\<open>repr(value)\<close>; the text of a float is the parameter \<open>float_repr\<close>.\<close>

fun json_repr :: "(rat \<Rightarrow> py_str) \<Rightarrow> json \<Rightarrow> py_str" where
  "json_repr fr JNull = ''None''"
| "json_repr fr (JBool b) = (if b then ''True'' else ''False'')"
| "json_repr fr (JInt i) = str_of_int i"
| "json_repr fr (JFloat r) = fr r"
| "json_repr fr (JInfinity positive) = (if positive then ''inf'' else ''-inf'')"
| "json_repr fr JNaN = ''nan''"
| "json_repr fr (JStr s) = py_repr s"
| "json_repr fr (JList xs) = ''['' @ join '', '' (map (json_repr fr) xs) @ '']''"
| "json_repr fr (JObj kvs) =
     ''{'' @ join '', '' (map (\<lambda>(k, v). py_repr k @ '': '' @ json_repr fr v) kvs) @ ''}''"

fun json_str :: "(rat \<Rightarrow> py_str) \<Rightarrow> json \<Rightarrow> py_str" where
  "json_str fr (JStr s) = s"
| "json_str fr v = json_repr fr v"

section \<open>The selections\<close>

definition TOP_100_PORTS :: "int list" where
  "TOP_100_PORTS = [21, 22, 23, 25, 53, 67, 68, 69, 80, 81, 88, 110, 111, 113, 119, 123, 135, 137,
     138, 139, 143, 161, 162, 179, 389, 427, 443, 445, 465, 500, 512, 513, 514, 515, 543, 544, 548,
     554, 587, 631, 636, 646, 873, 990, 993, 995, 1025, 1026, 1027, 1080, 1099, 1194, 1433, 1434,
     1521, 1723, 1883, 2049, 2082, 2083, 2181, 2375, 2376, 2483, 3000, 3128, 3268, 3306, 3389, 3690,
     4444, 4505, 4506, 4786, 5000, 5060, 5432, 5555, 5601, 5672, 5900, 5901, 5985, 5986, 6000, 6379,
     6667, 7001, 8000, 8008, 8080, 8081, 8088, 8443, 8888, 9000, 9042, 9090, 9200, 9300, 11211,
     27017]"

definition DEFAULT_DISCOVERY_PORTS :: "int list" where
  "DEFAULT_DISCOVERY_PORTS = [80, 443, 22, 445, 3389, 8080, 21, 3306]"

definition WELL_KNOWN_RANGE :: "int list" where "WELL_KNOWN_RANGE = [1..1024]"
definition FULL_RANGE :: "int list" where "FULL_RANGE = [1..65535]"

definition PORT_SELECTIONS :: "py_str list" where
  "PORT_SELECTIONS = [''top-100'', ''well-known'', ''full'', ''custom'']"

definition MAX_EXPANDED_ADDRESSES :: int where "MAX_EXPANDED_ADDRESSES = 65536"

definition module_error :: "py_str \<Rightarrow> run_exn" where
  "module_error msg = RunModuleError (app_error ModuleError msg)"

definition custom_port :: "(rat \<Rightarrow> py_str) \<Rightarrow> json \<Rightarrow> run_exn + int" where
  "custom_port fr value =
     (case py_int value of
        Inl IntOverflowError \<Rightarrow> Inl (RunOther ''OverflowError'')
      | Inl _ \<Rightarrow> Inl (module_error (json_repr fr value @ '' is not a valid port number''))
      | Inr port \<Rightarrow>
          (if \<not> (0 < port \<and> port \<le> 65535)
           then Inl (module_error (''port '' @ str_of_int port @ '' is outside 1-65535''))
           else Inr port))"

definition resolve_ports :: "(rat \<Rightarrow> py_str) \<Rightarrow> json_object \<Rightarrow> run_exn + int list" where
  "resolve_ports fr options =
     (let selection = json_str fr (dict_get options ''port_selection'' (JStr ''top-100'')) in
      if selection = ''top-100'' then Inr TOP_100_PORTS
      else if selection = ''well-known'' then Inr WELL_KNOWN_RANGE
      else if selection = ''full'' then Inr FULL_RANGE
      else if selection = ''custom'' then
        (case dict_get options ''ports'' JNull of
           JList (v # vs) \<Rightarrow>
             bind_sum (map_sum_list (custom_port fr) (v # vs)) (\<lambda>ports. Inr (sort (remdups ports)))
         | _ \<Rightarrow> Inl (module_error
             ''the 'custom' port selection needs a non-empty 'ports' list in module options''))
      else Inl (module_error (''unknown port selection '' @ py_repr selection
             @ ''; expected one of '' @ join '', '' PORT_SELECTIONS)))"

definition discovery_port :: "json \<Rightarrow> run_exn + int" where
  "discovery_port value =
     (case py_int value of
        Inl IntOverflowError \<Rightarrow> Inl (RunOther ''OverflowError'')
      | Inl _ \<Rightarrow> Inl (module_error '''discovery_ports' must contain port numbers'')
      | Inr port \<Rightarrow> Inr port)"

definition resolve_discovery_ports :: "json_object \<Rightarrow> run_exn + int list" where
  "resolve_discovery_ports options =
     (case dict_get options ''discovery_ports'' JNull of
        JNull \<Rightarrow> Inr DEFAULT_DISCOVERY_PORTS
      | JList (v # vs) \<Rightarrow> map_sum_list discovery_port (v # vs)
      | _ \<Rightarrow> Inl (module_error '''discovery_ports' must be a non-empty list of port numbers''))"

section \<open>The addresses of a target\<close>

text \<open>
  \<open>network.hosts()\<close> for a network of more than two addresses: version 4 leaves out the first and
  the last address, version 6 the first only.
\<close>

fun network_hosts :: "ip_network \<Rightarrow> ip_address list" where
  "network_hosts (Net4 n p) =
     map (\<lambda>i. IPv4 (of_nat i)) [Suc (unat n) ..< unat (last_word n p)]"
| "network_hosts (Net6 n z p) =
     map (\<lambda>i. IPv6 (of_nat i) None) [Suc (unat n) ..< Suc (unat (last_word n p))]"

definition iter_target_addresses :: "validated_target \<Rightarrow> run_exn + ip_address list" where
  "iter_target_addresses target =
     (case vt_network target of
        None \<Rightarrow> Inr (vt_addresses target)
      | Some network \<Rightarrow>
          (if num_addresses network > MAX_EXPANDED_ADDRESSES
           then Inl (module_error (str_network network @ '' contains ''
                  @ str_of_int (num_addresses network) @ '' addresses, more than the ''
                  @ str_of_int MAX_EXPANDED_ADDRESSES
                  @ '' this module will enumerate - narrow the target''))
           else if num_addresses network \<le> 2 then Inr [network_address network]
           else Inr (network_hosts network)))"

section \<open>The lists a module probes\<close>

lemma custom_port_ok: "custom_port fr v = Inr p \<Longrightarrow> 0 < p \<and> p \<le> 65535"
  by (auto simp: custom_port_def split: sum.splits int_exn.splits if_splits)

lemma fixed_selections:
  "ps \<in> {TOP_100_PORTS, WELL_KNOWN_RANGE, FULL_RANGE} \<Longrightarrow>
     ps \<noteq> [] \<and> sorted ps \<and> distinct ps \<and> (\<forall>p \<in> set ps. 0 < p \<and> p \<le> 65535)"
  (is "_ \<Longrightarrow> ?thesis")
proof -
  have "TOP_100_PORTS \<noteq> [] \<and> sorted TOP_100_PORTS \<and> distinct TOP_100_PORTS
      \<and> list_all (\<lambda>p. 0 < p \<and> p \<le> 65535) TOP_100_PORTS"
    by code_simp
  then show "ps \<in> {TOP_100_PORTS, WELL_KNOWN_RANGE, FULL_RANGE} \<Longrightarrow> ?thesis"
    by (auto simp: list_all_iff WELL_KNOWN_RANGE_def FULL_RANGE_def)
qed

lemma custom_ports_ok:
  assumes "map_sum_list (custom_port fr) (v # vs) = Inr xs" and "ps = sort (remdups xs)"
  shows "ps \<noteq> [] \<and> sorted ps \<and> distinct ps \<and> (\<forall>p \<in> set ps. 0 < p \<and> p \<le> 65535)"
proof -
  have "xs \<noteq> []" using map_sum_list_length [OF assms(1)] by auto
  moreover have "0 < p \<and> p \<le> 65535" if "p \<in> set xs" for p
    using map_sum_list_in [OF assms(1) that] custom_port_ok by blast
  moreover have "set ps = set xs" using assms(2) by simp
  ultimately show ?thesis using assms(2) by (metis distinct_remdups distinct_sort set_empty sorted_sort)
qed

text \<open>A port selection is usable.  Whatever the module options hold, when they resolve to ports
  the list is not empty, sorted, without duplicates, and every port is one a connection may be
  opened to.\<close>

theorem resolve_ports_sound:
  assumes "resolve_ports fr options = Inr ps"
  shows "ps \<noteq> [] \<and> sorted ps \<and> distinct ps \<and> (\<forall>p \<in> set ps. 0 < p \<and> p \<le> 65535)"
proof (cases "ps \<in> {TOP_100_PORTS, WELL_KNOWN_RANGE, FULL_RANGE}")
  case False
  with assms obtain v vs xs where "map_sum_list (custom_port fr) (v # vs) = Inr xs"
      "ps = sort (remdups xs)"
    by (auto simp: resolve_ports_def Let_def bind_sum_Inr_iff simp del: map_sum_list.simps
        split: if_splits json.splits list.splits)
  then show ?thesis by (rule custom_ports_ok)
qed (use fixed_selections in blast)

lemma resolve_ports_sound_witness:
  "TOP_100_PORTS \<noteq> [] \<and> sorted TOP_100_PORTS"
proof -
  have "resolve_ports (\<lambda>_. []) [] = Inr TOP_100_PORTS" by (simp add: resolve_ports_def)
  from resolve_ports_sound [OF this] show ?thesis by blast
qed

lemma unat_of_nat_between: "i \<le> unat (w :: 'w::len word) \<Longrightarrow> unat (of_nat i :: 'w word) = i"
  using le_less_trans [OF _ unsigned_less [where w = w and 'a = nat]]
  by (simp add: unsigned_of_nat take_bit_nat_eq_self_iff)

lemma network_hosts_version: "a \<in> set (network_hosts n) \<Longrightarrow> version a = net_version n"
  by (cases n) auto

lemma network_hosts_iff:
  assumes "wf_network n"
  shows "a \<in> set (network_hosts n) \<longleftrightarrow> in_network a n \<and> drop_zone a = a
     \<and> addr_nat a \<noteq> addr_nat (network_address n)
     \<and> (net_version n = 4 \<longrightarrow> addr_nat a \<noteq> addr_nat (broadcast_address n))"
proof (cases n)
  case (Net4 w p)
  have "IPv4 x \<in> set (network_hosts n) \<longleftrightarrow> unat w < unat x \<and> unat x < unat (last_word w p)" for x
    using unat_of_nat_between [of _ "last_word w p"]
    by (force simp: Net4 image_iff intro!: bexI [of _ "unat x"])
  moreover have "in_network (IPv4 x) n \<longleftrightarrow> unat w \<le> unat x \<and> unat x \<le> unat (last_word w p)" for x
    using in_network_iff [OF assms, of "IPv4 x"] by (simp add: Net4 del: in_network.simps)
  ultimately show ?thesis using network_hosts_version [of a n]
    by (cases a) (auto simp: Net4 simp del: in_network.simps(1) network_hosts.simps)
next
  case (Net6 w z p)
  have "IPv6 x y \<in> set (network_hosts n)
      \<longleftrightarrow> y = None \<and> unat w < unat x \<and> unat x \<le> unat (last_word w p)" for x y
  proof
    assume "IPv6 x y \<in> set (network_hosts n)"
    then obtain i where "i \<in> {Suc (unat w)..unat (last_word w p)}" "x = of_nat i" "y = None"
      by (auto simp: Net6 less_Suc_eq_le simp del: upt_Suc)
    then show "y = None \<and> unat w < unat x \<and> unat x \<le> unat (last_word w p)"
      using unat_of_nat_between [of i "last_word w p"] by simp
  next
    assume "y = None \<and> unat w < unat x \<and> unat x \<le> unat (last_word w p)"
    then show "IPv6 x y \<in> set (network_hosts n)"
      by (auto simp: Net6 less_Suc_eq_le simp del: upt_Suc intro!: image_eqI [of _ _ "unat x"])
  qed
  moreover have "in_network (IPv6 x y) n \<longleftrightarrow> unat w \<le> unat x \<and> unat x \<le> unat (last_word w p)" for x y
    using in_network_iff [OF assms, of "IPv6 x y"] by (simp add: Net6 del: in_network.simps)
  ultimately show ?thesis using network_hosts_version [of a n]
    by (cases a) (auto simp: Net6 simp del: in_network.simps(2) network_hosts.simps)
qed

lemma network_hosts_distinct: "distinct (network_hosts n)"
proof (cases n)
  case (Net4 w p)
  have "inj_on (\<lambda>i. IPv4 (of_nat i)) {Suc (unat w)..<unat (last_word w p)}"
    using unat_of_nat_between [of _ "last_word w p"] by (intro inj_onI) (metis atLeastLessThan_iff ip_address.inject(1) less_imp_le)
  then show ?thesis by (simp add: Net4 distinct_map)
next
  case (Net6 w z p)
  have "inj_on (\<lambda>i. IPv6 (of_nat i) None) {Suc (unat w)..<Suc (unat (last_word w p))}"
    using unat_of_nat_between [of _ "last_word w p"] by (intro inj_onI) (metis atLeastLessThan_iff ip_address.inject(2) less_Suc_eq_le)
  then show ?thesis by (simp add: Net6 distinct_map del: upt_Suc)
qed

lemma target_addresses_covered:
  assumes "iter_target_addresses v = Inr as" and "\<And>n. vt_network v = Some n \<Longrightarrow> wf_network n"
    and "a \<in> set as"
  shows "covers v a"
  using assms
  by (auto simp: iter_target_addresses_def covers_def network_hosts_iff
      split: option.splits if_splits)

text \<open>What a module enumerates was validated.  The addresses a module expands a validated target
  into are all covered by the target, contained in the scope profile and in no always-denied
  class; the addresses of an expanded network are pairwise different.\<close>

theorem modules_probe_validated_addresses:
  assumes "create_scope name es cgnat link_local = Inr scope"
    and "validate_target sink resolver scope t l = (Inr v, l')"
    and "iter_target_addresses v = Inr as"
  shows "(\<forall>a \<in> set as. covers v a \<and> contains_address scope a \<and> is_always_denied a = None)
    \<and> (vt_network v \<noteq> None \<longrightarrow> distinct as)"
proof -
  have "covers v a" if "a \<in> set as" for a
    using target_addresses_covered [OF assms(3) _ that] validate_target_wf [OF assms(2)] by blast
  moreover have "created_scope scope" using create_scope_created [OF assms(1)] by simp
  ultimately have "\<forall>a \<in> set as. covers v a \<and> address_denial scope a = None"
    using validate_target_covers [OF _ assms(2)] by blast
  moreover have "vt_network v \<noteq> None \<longrightarrow> distinct as"
    using assms(3) network_hosts_distinct
    by (auto simp: iter_target_addresses_def split: option.splits if_splits)
  ultimately show ?thesis by (simp add: address_denial_None)
qed

lemma modules_probe_validated_addresses_witness: "covers lab_target lab_host"
proof -
  obtain l' where v: "validate_target mem_record split_resolver lab_scope ''192.168.1.10''
      (w_ledger lab_world) = (Inr lab_target, l')"
    using lab_target_valid [of split_resolver "w_ledger lab_world"] by (metis prod.collapse)
  have "iter_target_addresses lab_target = Inr [lab_host]"
    by (simp add: iter_target_addresses_def lab_target_def)
  from modules_probe_validated_addresses [OF lab_scope_new v this] show ?thesis by simp
qed

definition slash31 :: validated_target where
  "slash31 = \<lparr>vt_raw = ''10.0.0.0/31'', vt_kind = TargetCidr, vt_addresses = [],
     vt_network = Some (net4 10 0 0 0 31)\<rparr>"

text \<open>A network of two addresses is probed by half.  For the target \<open>10.0.0.0/31\<close> the enumeration
  has the first address only, although the target covers both.\<close>

theorem slash31_half_probed:
  "iter_target_addresses slash31 = Inr [IPv4 (ip4 10 0 0 0)] \<and> covers slash31 (IPv4 (ip4 10 0 0 1))"
  by (simp add: iter_target_addresses_def slash31_def covers_def MAX_EXPANDED_ADDRESSES_def net_eval)


end
