(* ===== verification/Probes.thy ===== *)
theory Probes
  imports Ports
begin

text \<open>
  \<open>backend/app/scan/concurrency.py\<close>, \<open>backend/app/modules/host_discovery.py\<close> and
  \<open>backend/app/modules/port_scan.py\<close>: the fan-out in bounded waves and the two probe modules that
  need nothing but a connector.  The tasks of one wave are run in the order they were created,
  one of the orders the event loop may choose; \<open>Governor_System\<close> covers the others.
\<close>

section \<open>Bounded waves\<close>

definition DEFAULT_WAVE_SIZE :: nat where "DEFAULT_WAVE_SIZE = 256"

fun waves_loop :: "nat \<Rightarrow> 'a list \<Rightarrow> 'a list \<Rightarrow> 'a list list" where
  "waves_loop n wave [] = (if wave = [] then [] else [wave])"
| "waves_loop n wave (f # fs) =
     (if length (wave @ [f]) \<ge> n then (wave @ [f]) # waves_loop n [] fs
      else waves_loop n (wave @ [f]) fs)"

definition waves :: "nat \<Rightarrow> 'a list \<Rightarrow> 'a list list" where
  "waves n fs = waves_loop n [] fs"

text \<open>\<open>asyncio.gather(*pending, return_exceptions=True)\<close>: every outcome, in the order of the tasks.\<close>

fun gather :: "('w \<Rightarrow> 'r \<times> 'w) list \<Rightarrow> 'w \<Rightarrow> 'r list \<times> 'w" where
  "gather [] w = ([], w)"
| "gather (f # fs) w =
     (case f w of (r, w1) \<Rightarrow> (case gather fs w1 of (rs, w2) \<Rightarrow> (r # rs, w2)))"

text \<open>
  \<open>async for outcome in in_bounded_waves(factories)\<close> with a loop body that collects or raises: a
  raise abandons the outcomes after it and the waves not yet started.
\<close>

fun collect :: "('r \<Rightarrow> 'acc \<Rightarrow> 'e + 'acc) \<Rightarrow> 'r list \<Rightarrow> 'acc \<Rightarrow> 'e + 'acc" where
  "collect body [] acc = Inr acc"
| "collect body (r # rs) acc = bind_sum (body r acc) (collect body rs)"

fun for_waves :: "('r \<Rightarrow> 'acc \<Rightarrow> 'e + 'acc) \<Rightarrow> ('w \<Rightarrow> 'r \<times> 'w) list list \<Rightarrow> 'acc \<Rightarrow> 'w \<Rightarrow>
    ('e + 'acc) \<times> 'w" where
  "for_waves body [] acc w = (Inr acc, w)"
| "for_waves body (wave # ws) acc w =
     (case gather wave w of (rs, w1) \<Rightarrow>
        (case collect body rs acc of
           Inl e \<Rightarrow> (Inl e, w1)
         | Inr acc1 \<Rightarrow> for_waves body ws acc1 w1))"

section \<open>Probing through a connector\<close>

text \<open>
  What a probe sees of the guard: \<open>guard.connect\<close> with the target and governor of its context,
  the socket closed at once, and the cancel flag.
\<close>

record 'w prober =
  pr_connect :: "ip_address \<Rightarrow> int \<Rightarrow> 'w \<Rightarrow> (guard_exn + unit) \<times> 'w"
  pr_cancelled :: "'w \<Rightarrow> bool"

fun run_exn_of :: "guard_exn \<Rightarrow> run_exn" where
  "run_exn_of (TargetRejected t r) = RunTargetRejected t r"
| "run_exn_of (BudgetExceeded s n) = RunBudget s n"
| "run_exn_of (OsExn TimedOut) = RunTimeout"
| "run_exn_of (OsExn ConnectionRefused) = RunOther ''ConnectionRefusedError''"
| "run_exn_of (OsExn OtherOsError) = RunOther ''OSError''"
| "run_exn_of (OsExn (OtherException e)) = RunOther e"

text \<open>The loop body both modules share: an exhausted budget is noted, another exception raised.\<close>

definition note_outcome :: "guard_exn + 'a option \<Rightarrow> 'a list \<times> bool \<Rightarrow> run_exn + ('a list \<times> bool)" where
  "note_outcome outcome acc =
     (case outcome of
        Inl (BudgetExceeded _ _) \<Rightarrow> Inr (fst acc, True)
      | Inl e \<Rightarrow> Inl (run_exn_of e)
      | Inr None \<Rightarrow> Inr acc
      | Inr (Some x) \<Rightarrow> Inr (fst acc @ [x], snd acc))"

section \<open>Host discovery\<close>

definition discovery_name :: py_str where "discovery_name = ''host_discovery''"

definition discovery_metadata :: module_metadata where
  "discovery_metadata = (module_metadata_defaults discovery_name ''Host discovery''
     (''Finds live hosts with unprivileged TCP connect probes to a small ''
      @ ''common-port set. Records which port proved the host alive.'')
     CatDiscovery [TargetIp, TargetCidr, TargetHost])\<lparr>md_timeout_seconds := 600, md_order := 10\<rparr>"

definition probe_once :: "'w prober \<Rightarrow> ip_address \<Rightarrow> int \<Rightarrow> 'w \<Rightarrow> (guard_exn + py_str option) \<times> 'w" where
  "probe_once pr address port w =
     (case pr_connect pr address port w of
        (Inl (OsExn ConnectionRefused), w1) \<Rightarrow>
          (Inr (Some (''tcp/'' @ str_of_int port @ '' refused the connection'')), w1)
      | (Inl (OsExn TimedOut), w1) \<Rightarrow> (Inr None, w1)
      | (Inl (OsExn OtherOsError), w1) \<Rightarrow> (Inr None, w1)
      | (Inl e, w1) \<Rightarrow> (Inl e, w1)
      | (Inr _, w1) \<Rightarrow> (Inr (Some (''tcp/'' @ str_of_int port @ '' accepted a connection'')), w1))"

text \<open>\<open>seen host port\<close> is the clock's reading when the finding of that host and port is built.\<close>

definition alive_finding :: "(py_str \<Rightarrow> int option \<Rightarrow> int) \<Rightarrow> ip_address \<Rightarrow> int \<Rightarrow> py_str \<Rightarrow> finding" where
  "alive_finding seen address port evidence =
     \<lparr>f_host = str_addr address, f_category = FindLiveHost, f_kind = ''host.live'',
      f_title = str_addr address @ '' is alive'', f_summary = ''Responded on '' @ evidence @ ''.'',
      f_module = discovery_name, f_identity_key = ''alive'', f_port = None,
      f_normalized_value = [(''address'', JStr (str_addr address)), (''proved_by_port'', JInt port)],
      f_raw_evidence = Some evidence, f_confidence = Some ConfHigh, f_sources = [],
      f_observed_at = seen (str_addr address) (Some port)\<rparr>"

fun probe_host :: "'w prober \<Rightarrow> (py_str \<Rightarrow> int option \<Rightarrow> int) \<Rightarrow> ip_address \<Rightarrow> int list \<Rightarrow> 'w \<Rightarrow>
    (guard_exn + finding option) \<times> 'w" where
  "probe_host pr seen address [] w = (Inr None, w)"
| "probe_host pr seen address (port # ports) w =
     (if pr_cancelled pr w then (Inr None, w)
      else (case probe_once pr address port w of
              (Inl e, w1) \<Rightarrow> (Inl e, w1)
            | (Inr (Some evidence), w1) \<Rightarrow> (Inr (Some (alive_finding seen address port evidence)), w1)
            | (Inr None, w1) \<Rightarrow> probe_host pr seen address ports w1))"

definition discovery_warning :: py_str where
  "discovery_warning = ''the governor's probe budget was reached before every address was ''
     @ ''examined; hosts beyond that point were not tested''"

definition discovery_run :: "'w prober \<Rightarrow> (py_str \<Rightarrow> int option \<Rightarrow> int) \<Rightarrow> module_context \<Rightarrow> 'w \<Rightarrow>
    (run_exn + module_result) \<times> 'w" where
  "discovery_run pr seen cx w =
     (case resolve_discovery_ports (cx_options cx) of
        Inl e \<Rightarrow> (Inl e, w)
      | Inr ports \<Rightarrow>
          (case iter_target_addresses (cx_target cx) of
             Inl e \<Rightarrow> (Inl e, w)
           | Inr addresses \<Rightarrow>
               (case for_waves note_outcome
                       (waves DEFAULT_WAVE_SIZE (map (\<lambda>a. probe_host pr seen a ports) addresses))
                       ([], False) w of
                  (Inl e, w1) \<Rightarrow> (Inl e, w1)
                | (Inr (findings, budget_reached), w1) \<Rightarrow>
                    (Inr \<lparr>mr_findings = findings, mr_cache_hit = False,
                       mr_warnings = (if budget_reached then [discovery_warning] else [])\<rparr>, w1))))"

section \<open>Port scan\<close>

definition port_scan_name :: py_str where "port_scan_name = ''port_scan''"

datatype port_state = PortOpen | PortClosed | PortFiltered

fun port_state_str :: "port_state \<Rightarrow> py_str" where
  "port_state_str PortOpen = ''open''"
| "port_state_str PortClosed = ''closed''"
| "port_state_str PortFiltered = ''filtered''"

record port_observation =
  po_address :: py_str
  po_port :: int
  po_state :: port_state

definition port_scan_metadata :: module_metadata where
  "port_scan_metadata = (module_metadata_defaults port_scan_name ''TCP connect port scan''
     (''Determines open, closed, and filtered TCP ports with unprivileged ''
      @ ''connect probes. No raw sockets and no administrator rights.'')
     CatPortScan [TargetIp, TargetCidr, TargetHost])\<lparr>md_timeout_seconds := 1800, md_order := 20\<rparr>"

definition probe_state :: "'w prober \<Rightarrow> ip_address \<Rightarrow> int \<Rightarrow> 'w \<Rightarrow> (guard_exn + port_state) \<times> 'w" where
  "probe_state pr address port w =
     (case pr_connect pr address port w of
        (Inl (OsExn ConnectionRefused), w1) \<Rightarrow> (Inr PortClosed, w1)
      | (Inl (OsExn TimedOut), w1) \<Rightarrow> (Inr PortFiltered, w1)
      | (Inl (OsExn OtherOsError), w1) \<Rightarrow> (Inr PortFiltered, w1)
      | (Inl e, w1) \<Rightarrow> (Inl e, w1)
      | (Inr _, w1) \<Rightarrow> (Inr PortOpen, w1))"

definition probe_port :: "'w prober \<Rightarrow> ip_address \<times> int \<Rightarrow> 'w \<Rightarrow>
    (guard_exn + port_observation option) \<times> 'w" where
  "probe_port pr ap w =
     (if pr_cancelled pr w then (Inr None, w)
      else (case probe_state pr (fst ap) (snd ap) w of
              (Inl e, w1) \<Rightarrow> (Inl e, w1)
            | (Inr s, w1) \<Rightarrow>
                (Inr (Some \<lparr>po_address = str_addr (fst ap), po_port = snd ap, po_state = s\<rparr>), w1)))"

definition open_finding :: "(py_str \<Rightarrow> int option \<Rightarrow> int) \<Rightarrow> py_str \<Rightarrow> int \<Rightarrow> finding" where
  "open_finding seen host port =
     \<lparr>f_host = host, f_category = FindPortService, f_kind = ''port.open'',
      f_title = host @ '':'' @ str_of_int port @ ''/tcp is open'',
      f_summary = ''A TCP connect to port '' @ str_of_int port @ '' was accepted.'',
      f_module = port_scan_name, f_identity_key = ''tcp/'' @ str_of_int port, f_port = Some port,
      f_normalized_value = [(''port'', JInt port), (''protocol'', JStr ''tcp''),
        (''state'', JStr ''open'')],
      f_raw_evidence = Some (''connect() to '' @ host @ '':'' @ str_of_int port @ '' succeeded''),
      f_confidence = Some ConfHigh, f_sources = [], f_observed_at = seen host (Some port)\<rparr>"

definition count_state :: "port_state \<Rightarrow> port_observation list \<Rightarrow> nat" where
  "count_state s obs = length (filter (\<lambda>o'. po_state o' = s) obs)"

definition open_ports :: "port_observation list \<Rightarrow> int list" where
  "open_ports obs = sort (map po_port (filter (\<lambda>o'. po_state o' = PortOpen) obs))"

definition summary_finding :: "(py_str \<Rightarrow> int option \<Rightarrow> int) \<Rightarrow> py_str \<Rightarrow> port_observation list \<Rightarrow>
    finding" where
  "summary_finding seen host obs =
     \<lparr>f_host = host, f_category = FindPortService, f_kind = ''port.summary'',
      f_title = host @ '': '' @ str_of_nat (length (open_ports obs)) @ '' open of ''
        @ str_of_nat (length obs) @ '' probed'',
      f_summary = str_of_nat (length (open_ports obs)) @ '' open, ''
        @ str_of_nat (count_state PortClosed obs) @ '' closed, ''
        @ str_of_nat (count_state PortFiltered obs) @ '' filtered across ''
        @ str_of_nat (length obs) @ '' probed TCP ports.'',
      f_module = port_scan_name, f_identity_key = ''tcp-summary'', f_port = None,
      f_normalized_value = [(''probed'', JInt (int (length obs))),
        (''open'', JList (map JInt (open_ports obs))),
        (''closed_count'', JInt (int (count_state PortClosed obs))),
        (''filtered_count'', JInt (int (count_state PortFiltered obs)))],
      f_raw_evidence = None, f_confidence = Some ConfHigh, f_sources = [],
      f_observed_at = seen host None\<rparr>"

definition by_host :: "port_observation list \<Rightarrow> (py_str \<times> port_observation list) list" where
  "by_host obs = fold (\<lambda>o'. append_at (po_address o') o') obs []"

definition to_findings :: "(py_str \<Rightarrow> int option \<Rightarrow> int) \<Rightarrow> port_observation list \<Rightarrow> finding list" where
  "to_findings seen obs =
     concat (map (\<lambda>(host, host_obs).
       map (open_finding seen host) (open_ports host_obs) @ [summary_finding seen host host_obs])
     (by_host obs))"

definition port_scan_warning :: py_str where
  "port_scan_warning = ''the governor's probe budget was reached before every port was ''
     @ ''tested; untested ports are not reported as closed''"

definition port_scan_run :: "(rat \<Rightarrow> py_str) \<Rightarrow> 'w prober \<Rightarrow> (py_str \<Rightarrow> int option \<Rightarrow> int) \<Rightarrow>
    module_context \<Rightarrow> 'w \<Rightarrow> (run_exn + module_result) \<times> 'w" where
  "port_scan_run fr pr seen cx w =
     (case resolve_ports fr (cx_options cx) of
        Inl e \<Rightarrow> (Inl e, w)
      | Inr ports \<Rightarrow>
          (case iter_target_addresses (cx_target cx) of
             Inl e \<Rightarrow> (Inl e, w)
           | Inr addresses \<Rightarrow>
               (case for_waves note_outcome
                       (waves DEFAULT_WAVE_SIZE
                         (map (probe_port pr) [(a, p). a \<leftarrow> addresses, p \<leftarrow> ports]))
                       ([], False) w of
                  (Inl e, w1) \<Rightarrow> (Inl e, w1)
                | (Inr (observations, budget_reached), w1) \<Rightarrow>
                    (Inr \<lparr>mr_findings = to_findings seen observations, mr_cache_hit = False,
                       mr_warnings = (if budget_reached then [port_scan_warning] else [])\<rparr>, w1))))"


section \<open>Waves\<close>

lemma concat_waves_loop: "concat (waves_loop n wave fs) = wave @ fs"
  by (induction n wave fs rule: waves_loop.induct) auto

lemma waves_loop_bounds:
  "length wave < max 1 n \<Longrightarrow> ws \<in> set (waves_loop n wave fs) \<Longrightarrow> 0 < length ws \<and> length ws \<le> max 1 n"
  by (induction n wave fs rule: waves_loop.induct) (auto split: if_splits)

lemma concat_waves [simp]: "concat (waves n fs) = fs"
  by (simp add: waves_def concat_waves_loop)

lemma gather_append:
  "gather (fs @ gs) w = (case gather fs w of (rs, w1) \<Rightarrow> (case gather gs w1 of (ss, w2) \<Rightarrow> (rs @ ss, w2)))"
  by (induction fs arbitrary: w) (simp_all split: prod.splits)

lemma collect_append: "collect body (rs @ ss) acc = bind_sum (collect body rs acc) (collect body ss)"
proof (induction rs arbitrary: acc)
  case (Cons r rs)
  then show ?case by (cases "body r acc") simp_all
qed simp

lemma for_waves_collect:
  assumes "gather (concat ws) w = (rs, w')"
  shows "case collect body rs acc of Inr acc' \<Rightarrow> for_waves body ws acc w = (Inr acc', w')
    | Inl e \<Rightarrow> fst (for_waves body ws acc w) = Inl e"
  using assms
proof (induction ws arbitrary: acc w rs)
  case (Cons wave ws)
  obtain r1 w1 where g1: "gather wave w = (r1, w1)" by (cases "gather wave w")
  obtain r2 where g2: "gather (concat ws) w1 = (r2, w')" and rs: "rs = r1 @ r2"
    using Cons.prems g1 by (auto simp: gather_append split: prod.splits)
  show ?case
  proof (cases "collect body r1 acc")
    case (Inl e)
    then show ?thesis using g1 by (simp add: rs collect_append)
  next
    case (Inr acc1)
    then show ?thesis using g1 Cons.IH [OF g2, of acc1]
      by (simp add: rs collect_append split: sum.splits)
  qed
qed simp

section \<open>Observations by host\<close>

lemma by_host_get: "dict_get (fold (\<lambda>o'. append_at (po_address o') o') obs d) h [] = dict_get d h [] @ filter (\<lambda>o'. po_address o' = h) obs"
  by (induction obs arbitrary: d) (auto simp: append_at_def)

lemma append_at_keys: "distinct (map fst d) \<Longrightarrow> distinct (map fst (append_at k v d))"
  by (simp add: append_at_def distinct_update)

lemma by_host_distinct: "distinct (map fst (by_host obs))"
proof -
  have "distinct (map fst d) \<Longrightarrow> distinct (map fst (fold (\<lambda>o'. append_at (po_address o') o') obs d))" for d
    by (induction obs arbitrary: d) (simp_all add: append_at_keys)
  then show ?thesis by (simp add: by_host_def)
qed

lemma by_host_keys: "fst ` set (by_host obs) = po_address ` set obs"
proof -
  have "fst ` set (fold (\<lambda>o'. append_at (po_address o') o') obs d) = fst ` set d \<union> po_address ` set obs" for d
    by (induction obs arbitrary: d) (auto simp: append_at_def dom_update)
  then show ?thesis by (simp add: by_host_def)
qed

lemma by_host_entry: "(h, os) \<in> set (by_host obs) \<Longrightarrow> os = filter (\<lambda>o'. po_address o' = h) obs"
  using by_host_get [of obs "[]" h] by_host_distinct [of obs]
  by (auto simp: by_host_def dict_get_def split: option.splits dest: map_of_is_SomeI)


lemma filter_host_concat:
  assumes "distinct (map fst d)" and "\<And>k os f. f \<in> set (F k os) \<Longrightarrow> f_host f = k"
  shows "filter (\<lambda>f. f_host f = h) (concat (map (\<lambda>(k, os). F k os) d))
    = (case map_of d h of None \<Rightarrow> [] | Some os \<Rightarrow> F h os)"
  using assms(1)
proof (induction d)
  case (Cons kv d)
  obtain k os where kv: "kv = (k, os)" by (cases kv)
  show ?case
  proof (cases "k = h")
    case True
    with Cons have "map_of d h = None" by (auto simp: kv map_of_eq_None_iff)
    with Cons True show ?thesis
      using assms(2) [of _ h os] by (auto simp: kv intro: filter_True)
  next
    case False
    then have "filter (\<lambda>f. f_host f = h) (F k os) = []"
      using assms(2) [of _ k os] by (auto simp: filter_empty_conv)
    with Cons False show ?thesis by (simp add: kv)
  qed
qed simp

lemma by_host_map_of: "map_of (by_host obs) h =
   (if filter (\<lambda>o'. po_address o' = h) obs = [] then None else Some (filter (\<lambda>o'. po_address o' = h) obs))"
proof (cases "map_of (by_host obs) h")
  case None
  then have "h \<notin> po_address ` set obs" using by_host_keys [of obs] by (simp add: map_of_eq_None_iff)
  with None show ?thesis by (auto simp: filter_empty_conv)
next
  case (Some os)
  then have "(h, os) \<in> set (by_host obs)" by (rule map_of_SomeD)
  moreover from this have "h \<in> po_address ` set obs"
    by (metis by_host_keys fst_conv image_eqI)
  ultimately show ?thesis using Some by_host_entry [of h os obs] by (auto simp: filter_empty_conv)
qed

lemma findings_of_host:
  "filter (\<lambda>f. f_host f = h) (to_findings seen obs) =
     (let mine = filter (\<lambda>o'. po_address o' = h) obs in
      if mine = [] then []
      else map (open_finding seen h) (open_ports mine) @ [summary_finding seen h mine])"
proof -
  let ?F = "\<lambda>h os. map (open_finding seen h) (open_ports os) @ [summary_finding seen h os]"
  have "filter (\<lambda>f. f_host f = h) (concat (map (\<lambda>(k, os). ?F k os) (by_host obs)))
    = (case map_of (by_host obs) h of None \<Rightarrow> [] | Some os \<Rightarrow> ?F h os)"
    by (rule filter_host_concat [OF by_host_distinct])
      (auto simp: open_finding_def summary_finding_def)
  then show ?thesis by (simp add: to_findings_def by_host_map_of Let_def)
qed

lemma states_partition:
  "length obs = length (open_ports obs) + count_state PortClosed obs + count_state PortFiltered obs"
proof (induction obs)
  case (Cons x xs)
  then show ?case by (cases "po_state x") (simp_all add: open_ports_def count_state_def)
qed (simp add: open_ports_def count_state_def)

definition answered :: "guard_exn + unit \<Rightarrow> bool" where
  "answered r \<longleftrightarrow> r = Inr () \<or> r = Inl (OsExn ConnectionRefused)"

definition silent :: "guard_exn + unit \<Rightarrow> bool" where
  "silent r \<longleftrightarrow> r = Inl (OsExn TimedOut) \<or> r = Inl (OsExn OtherOsError)"

lemma probe_once_Some:
  "probe_once pr a p w = (Inr (Some ev), w') \<Longrightarrow> \<exists>r. pr_connect pr a p w = (r, w') \<and> answered r"
  by (auto simp: probe_once_def answered_def
      split: prod.splits sum.splits guard_exn.splits os_error.splits)

lemma probe_once_None:
  "probe_once pr a p w = (Inr None, w') \<Longrightarrow> \<exists>r. pr_connect pr a p w = (r, w') \<and> silent r"
  by (auto simp: probe_once_def silent_def
      split: prod.splits sum.splits guard_exn.splits os_error.splits)

lemma probe_host_alive:
  assumes "probe_host pr seen a ports w = (Inr (Some f), w')"
  shows "\<exists>p ev w1 r. p \<in> set ports \<and> f = alive_finding seen a p ev
    \<and> pr_connect pr a p w1 = (r, w') \<and> answered r"
  using assms
proof (induction ports arbitrary: w)
  case (Cons p ports)
  obtain r w1 where o: "probe_once pr a p w = (r, w1)" by (cases "probe_once pr a p w")
  from Cons.prems o consider ev where "r = Inr (Some ev)" "w1 = w'" "f = alive_finding seen a p ev"
    | "probe_host pr seen a ports w1 = (Inr (Some f), w')"
    by (auto split: if_splits sum.splits option.splits)
  then show ?case
  proof cases
    case 1
    then show ?thesis using probe_once_Some o by (metis list.set_intros(1))
  next
    case 2
    then show ?thesis using Cons.IH by (meson list.set_intros(2))
  qed
qed simp

lemma probe_host_silent:
  assumes "probe_host pr seen a ports w = (Inr None, w')"
  shows "(\<exists>w1. pr_cancelled pr w1)
    \<or> (\<forall>p \<in> set ports. \<exists>w1 w2 r. pr_connect pr a p w1 = (r, w2) \<and> silent r)"
  using assms
proof (induction ports arbitrary: w)
  case (Cons p ports)
  show ?case
  proof (cases "pr_cancelled pr w")
    case False
    with Cons.prems obtain w1 where "probe_once pr a p w = (Inr None, w1)"
        "probe_host pr seen a ports w1 = (Inr None, w')"
      by (auto split: prod.splits sum.splits option.splits)
    then show ?thesis using Cons.IH [of w1] probe_once_None by (metis set_ConsD)
  qed blast
qed simp

section \<open>What a run of waves does to its world\<close>

text \<open>
  A relation between worlds that every task of a run keeps is kept by the run: the tasks of a wave
  run one after the other, and the waves in order.
\<close>

locale progress =
  fixes inv :: "'w \<Rightarrow> bool" and step :: "'w \<Rightarrow> 'w \<Rightarrow> bool"
  assumes step_refl: "inv w \<Longrightarrow> step w w"
    and step_trans: "step v1 v2 \<Longrightarrow> step v2 v3 \<Longrightarrow> step v1 v3"
    and step_inv: "step v1 v2 \<Longrightarrow> inv v2"
begin

definition keeps :: "('w \<Rightarrow> 'r \<times> 'w) \<Rightarrow> bool" where
  "keeps f \<longleftrightarrow> (\<forall>w. inv w \<longrightarrow> step w (snd (f w)))"

lemma keepsI: "(\<And>w r w'. inv w \<Longrightarrow> f w = (r, w') \<Longrightarrow> step w w') \<Longrightarrow> keeps f"
  unfolding keeps_def by (metis prod.collapse)

lemma keepsD: "keeps f \<Longrightarrow> inv w \<Longrightarrow> f w = (r, w') \<Longrightarrow> step w w'"
  unfolding keeps_def by force

lemma step_then: "step v1 v2 \<Longrightarrow> (inv v2 \<Longrightarrow> step v2 v3) \<Longrightarrow> step v1 v3"
  using step_trans step_inv by blast

lemma gather_steps:
  "\<forall>f \<in> set fs. keeps f \<Longrightarrow> inv w \<Longrightarrow> gather fs w = (rs, w') \<Longrightarrow> step w w'"
proof (induction fs arbitrary: w rs)
  case (Cons f fs)
  obtain r1 w1 where f: "f w = (r1, w1)" by (cases "f w")
  then have e: "step w w1" using Cons.prems keepsD by (metis list.set_intros(1))
  obtain r2 where "gather fs w1 = (r2, w')" using Cons.prems f by (auto split: prod.splits)
  then show ?case using Cons e by (intro step_then [OF e]) (metis list.set_intros(2))
qed (simp add: step_refl)

lemma for_waves_steps:
  "\<forall>f \<in> set (concat ws). keeps f \<Longrightarrow> inv w \<Longrightarrow> for_waves body ws acc w = (r, w') \<Longrightarrow> step w w'"
proof (induction ws arbitrary: w acc)
  case (Cons wave ws)
  obtain rs w1 where g: "gather wave w = (rs, w1)" by (cases "gather wave w")
  then have e: "step w w1" using Cons.prems by (intro gather_steps) auto
  from Cons.prems(3) g consider "w' = w1" | acc1 where "for_waves body ws acc1 w1 = (r, w')"
    by (auto split: sum.splits)
  then show ?case
  proof cases
    case 2
    show ?thesis using Cons.IH [OF _ _ 2] Cons.prems(1) by (intro step_then [OF e]) simp
  qed (use e in simp)
qed (simp add: step_refl)

lemma waves_map_steps:
  assumes "\<And>x. x \<in> set xs \<Longrightarrow> keeps (g x)" and "inv w"
    and "for_waves body (waves n (map g xs)) acc w = (r, w')"
  shows "step w w'"
  using assms(2,3) by (rule for_waves_steps [rotated]) (use assms(1) in auto)

end

section \<open>Modules reach the network through their connector only\<close>

text \<open>What a module may do with a prober: connect.  A relation between worlds that a connect keeps is
  kept by a run of the module.\<close>

locale probing = progress inv step for inv :: "'w \<Rightarrow> bool" and step :: "'w \<Rightarrow> 'w \<Rightarrow> bool" +
  fixes pr :: "'w prober"
  assumes connect_step: "inv w \<Longrightarrow> pr_connect pr a p w = (r, w') \<Longrightarrow> step w w'"
begin

lemma probe_once_steps: "inv w \<Longrightarrow> probe_once pr a p w = (r, w') \<Longrightarrow> step w w'"
  using connect_step [of w a p]
  by (auto simp: probe_once_def split: prod.splits sum.splits guard_exn.splits os_error.splits)

lemma probe_state_steps: "inv w \<Longrightarrow> probe_state pr a p w = (r, w') \<Longrightarrow> step w w'"
  using connect_step [of w a p]
  by (auto simp: probe_state_def split: prod.splits sum.splits guard_exn.splits os_error.splits)

lemma probe_host_steps: "inv w \<Longrightarrow> probe_host pr seen a ps w = (r, w') \<Longrightarrow> step w w'"
proof (induction ps arbitrary: w)
  case (Cons p ps)
  obtain r1 w1 where o: "probe_once pr a p w = (r1, w1)" by (cases "probe_once pr a p w")
  then have e: "step w w1" using Cons.prems(1) probe_once_steps by blast
  from Cons.prems(2) o consider "w' = w" | "w' = w1" | "probe_host pr seen a ps w1 = (r, w')"
    by (auto split: if_splits sum.splits option.splits)
  then show ?case
    using e Cons.IH step_inv step_trans step_refl Cons.prems(1) by cases blast+
qed (simp add: step_refl)

lemma probe_host_keeps: "keeps (probe_host pr seen a ps)"
  by (rule keepsI) (rule probe_host_steps)

lemma probe_port_keeps: "keeps (probe_port pr ap)"
  using probe_state_steps step_refl
  by (intro keepsI) (auto simp: probe_port_def split: prod.splits sum.splits if_splits)

lemma discovery_run_steps:
  assumes "inv w" and "discovery_run pr seen cx w = (r, w')"
  shows "step w w'"
proof -
  from assms(2) consider "w' = w" | ps as r1 where "for_waves note_outcome
      (waves DEFAULT_WAVE_SIZE (map (\<lambda>a. probe_host pr seen a ps) as)) ([], False) w = (r1, w')"
    by (auto simp: discovery_run_def split: sum.splits prod.splits)
  then show ?thesis
  proof cases
    case 2
    show ?thesis by (rule waves_map_steps [OF _ assms(1) 2]) (rule probe_host_keeps)
  qed (simp add: step_refl assms(1))
qed

lemma port_scan_run_steps:
  assumes "inv w" and "port_scan_run fr pr seen cx w = (r, w')"
  shows "step w w'"
proof -
  from assms(2) consider "w' = w" | aps r1 where "for_waves note_outcome
      (waves DEFAULT_WAVE_SIZE (map (probe_port pr) aps)) ([], False) w = (r1, w')"
    by (auto simp: port_scan_run_def split: sum.splits prod.splits)
  then show ?thesis
  proof cases
    case 2
    show ?thesis by (rule waves_map_steps [OF _ assms(1) 2]) (rule probe_port_keeps)
  qed (simp add: step_refl assms(1))
qed

end

text \<open>
  The contract between a connector and the modules: a connect keeps the connector's invariant,
  and what it adds to the trace of attempts is permitted.
\<close>

locale connector =
  fixes pr :: "'w prober"
    and inv :: "'w \<Rightarrow> bool"
    and trace :: "'w \<Rightarrow> connect_attempt list"
    and permits :: "connect_attempt \<Rightarrow> bool"
  assumes connect_keeps: "inv w \<Longrightarrow> pr_connect pr a p w = (r, w') \<Longrightarrow>
    inv w' \<and> (\<exists>new. trace w' = trace w @ new \<and> (\<forall>x \<in> set new. permits x))"
begin

definition extends :: "'w \<Rightarrow> 'w \<Rightarrow> bool" where
  "extends w w' \<longleftrightarrow> inv w' \<and> (\<exists>new. trace w' = trace w @ new \<and> (\<forall>x \<in> set new. permits x))"

end

sublocale connector \<subseteq> probing inv extends pr
  using connect_keeps by unfold_locales (auto simp: extends_def)

section \<open>The guard as the connector of a module\<close>

text \<open>
  \<open>context.guard.connect\<close> bound to the context's target.  With a free slot in every semaphore a
  task that runs alone is never left waiting, so the connect returns.
\<close>

definition slots_free :: "governor \<Rightarrow> bool" where
  "slots_free g \<longleftrightarrow> 0 < global_free g \<and> (\<forall>h. 0 < host_semaphore g h)"

definition guard_prober :: "'l sink \<Rightarrow> scope_profile \<Rightarrow> 'k os_connect \<Rightarrow> validated_target \<Rightarrow>
    ('l guard_world \<Rightarrow> bool) \<Rightarrow> 'l guard_world prober" where
  "guard_prober sink scope os target cancelled =
     \<lparr>pr_connect = (\<lambda>a p w. case the (connect sink scope os target a p w) of
                              (Inl e, w') \<Rightarrow> (Inl e, w')
                            | (Inr _, w') \<Rightarrow> (Inr (), w')),
      pr_cancelled = cancelled\<rparr>"

lemma enter_slot_returns: "slots_free g \<Longrightarrow> enter_slot g h \<noteq> None"
  using not_less [of 0 "host_semaphore g h"]
  by (auto simp: enter_slot_def slots_free_def split: sum.splits)

lemma connect_returns:
  assumes "slots_free (w_governor w)"
  shows "connect sink S os v a p w \<noteq> None"
  using enter_slot_returns [OF assms, of "str_addr a"]
  by (auto simp: connect_def deny_def Let_def split: prod.splits sum.splits option.splits)

lemma connect_slots_free:
  "connect sink S os v a p w = Some (r, w') \<Longrightarrow> slots_free (w_governor w) \<Longrightarrow> slots_free (w_governor w')"
  using connect_slot_returned [of sink S os v a p w r w'] by (simp add: slots_free_def)

definition permitted_attempt :: "scope_profile \<Rightarrow> validated_target \<Rightarrow> connect_attempt \<Rightarrow> bool" where
  "permitted_attempt scope target x \<longleftrightarrow>
     (\<exists>a. covers target a \<and> address_denial scope a = None
        \<and> at_family x = version a \<and> at_host x = str_addr a)
     \<and> 0 < at_port x \<and> at_port x \<le> 65535 \<and> at_guarded x"

lemma guard_prober_connector:
  "connector (guard_prober sink scope os target cancelled) (\<lambda>w. slots_free (w_governor w))
     w_attempts (permitted_attempt scope target)"
proof
  fix w :: "'a guard_world" and a p r w'
  assume free: "slots_free (w_governor w)"
    and run: "pr_connect (guard_prober sink scope os target cancelled) a p w = (r, w')"
  obtain r1 w1 where c: "connect sink scope os target a p w = Some (r1, w1)"
    using connect_returns [OF free] by fast
  with run have "w' = w1" by (auto simp: guard_prober_def split: sum.splits)
  then show "slots_free (w_governor w') \<and> (\<exists>new. w_attempts w' = w_attempts w @ new
      \<and> (\<forall>x \<in> set new. permitted_attempt scope target x))"
    using connect_attempts [OF c] connect_slots_free [OF c free]
    by (auto simp: permitted_attempt_def)
qed

interpretation guarded: connector "guard_prober sink scope os target cancelled"
  "\<lambda>w. slots_free (w_governor w)" w_attempts "permitted_attempt scope target"
  for sink scope os target cancelled
  by (rule guard_prober_connector)

section \<open>What the probe modules report\<close>

text \<open>Waves bound the work without changing it.  Cutting the tasks into waves loses and
  reorders none of them, no wave is longer than the wave size, and the outcome is the one of
  running all the tasks at once: the same collected value, the same world, the same exception.\<close>

theorem waves_change_nothing:
  "concat (waves n fs) = fs \<and> (\<forall>wave \<in> set (waves n fs). 0 < length wave \<and> length wave \<le> max 1 n)
   \<and> (case collect body (fst (gather fs w)) acc of
        Inr acc' \<Rightarrow> for_waves body (waves n fs) acc w = (Inr acc', snd (gather fs w))
      | Inl e \<Rightarrow> fst (for_waves body (waves n fs) acc w) = Inl e)"
proof -
  have "\<forall>wave \<in> set (waves n fs). 0 < length wave \<and> length wave \<le> max 1 n"
    unfolding waves_def by (intro ballI waves_loop_bounds [of "[]"]) simp_all
  moreover have "case collect body (fst (gather fs w)) acc of
        Inr acc' \<Rightarrow> for_waves body (waves n fs) acc w = (Inr acc', snd (gather fs w))
      | Inl e \<Rightarrow> fst (for_waves body (waves n fs) acc w) = Inl e"
    by (rule for_waves_collect) simp
  ultimately show ?thesis by simp
qed

definition counting_task :: "nat \<Rightarrow> nat \<times> nat" where
  "counting_task w = (w, Suc w)"

definition appending :: "nat \<Rightarrow> nat list \<Rightarrow> unit + nat list" where
  "appending r acc = Inr (acc @ [r])"

lemma waves_change_nothing_witness:
  "for_waves appending (waves 2 [counting_task, counting_task, counting_task]) [] 0
     = (Inr [0, 1, 2], 3)"
  using waves_change_nothing [of 2 "[counting_task, counting_task, counting_task]" appending "[]" 0]
  by (simp add: counting_task_def appending_def)


text \<open>Alive always says why.  A host is reported alive only when one of the ports tried was
  answered, by an accepted or a refused connection, and the finding names that port; a host that
  is not reported had every port tried without an answer, unless a cancellation was requested.\<close>

theorem alive_needs_an_answer:
  "(probe_host pr seen a ports w = (Inr (Some f), w') \<longrightarrow>
      (\<exists>p ev w1 r. p \<in> set ports \<and> f = alive_finding seen a p ev
         \<and> pr_connect pr a p w1 = (r, w') \<and> answered r))
   \<and> (probe_host pr seen a ports w = (Inr None, w') \<longrightarrow>
      (\<exists>w1. pr_cancelled pr w1)
      \<or> (\<forall>p \<in> set ports. \<exists>w1 w2 r. pr_connect pr a p w1 = (r, w2) \<and> silent r))"
  by (intro conjI impI) (erule probe_host_alive, erule probe_host_silent)

definition refusing_prober :: "nat prober" where
  "refusing_prober = \<lparr>pr_connect = (\<lambda>a p n. (Inl (OsExn (if p = 80 then ConnectionRefused else TimedOut)),
     Suc n)), pr_cancelled = (\<lambda>_. False)\<rparr>"

lemma alive_needs_an_answer_witness:
  "\<exists>p ev. p \<in> {22, 80}
     \<and> alive_finding (\<lambda>_ _. 0) lab_host 80 ''tcp/80 refused the connection''
         = alive_finding (\<lambda>_ _. 0) lab_host p ev"
proof -
  let ?f = "alive_finding (\<lambda>_ _. 0) lab_host 80 ''tcp/80 refused the connection''"
  have "str_of_int 80 = ''80''" by (simp add: str_of_int_def text_eval)
  then have "probe_host refusing_prober (\<lambda>_ _. 0) lab_host [22, 80] 0 = (Inr (Some ?f), 2)"
    by (simp add: probe_once_def refusing_prober_def)
  then show ?thesis
    using alive_needs_an_answer [of refusing_prober "\<lambda>_ _. 0" lab_host "[22, 80]" 0 ?f 2] by auto
qed

text \<open>The probe modules stay in scope.  A run of host discovery or of the port scan through a
  guard, whatever its options, its findings or its end, adds only attempts at permitted
  destinations: each is an address of the target, contained in the scope profile and never
  denied, on a port of 1-65535, made while the guard had sockets unlocked.\<close>

theorem probe_modules_stay_in_scope:
  assumes "slots_free (w_governor w)"
    and "discovery_run (guard_prober sink scope os target cancelled) seen cx w = (r, w')
       \<or> port_scan_run fr (guard_prober sink scope os target cancelled) seen cx w = (r2, w')"
  shows "\<exists>new. w_attempts w' = w_attempts w @ new
    \<and> (\<forall>x \<in> set new. permitted_attempt scope target x)"
proof -
  from assms(2) have "guarded.extends scope target w w'"
    using guarded.discovery_run_steps [OF assms(1)] guarded.port_scan_run_steps [OF assms(1)]
    by blast
  then show ?thesis by (simp add: guarded.extends_def)
qed

definition lab_context :: module_context where
  "lab_context = \<lparr>cx_scan_id = ''s1'', cx_target = lab_target, cx_scope = lab_scope,
     cx_options = [], cx_prior_findings = []\<rparr>"

lemma lab_slots_free: "slots_free (w_governor lab_world)"
  by (simp add: slots_free_def lab_world_def lab_governor_def new_governor_def
      INTENSITY_PROFILES_def validate_hard_ceiling_iff [THEN iffD2] within_ceiling_def
      host_semaphore_def)

lemma probe_modules_stay_in_scope_witness:
  "list_all (permitted_attempt lab_scope lab_target) (w_attempts (snd (discovery_run
     (guard_prober mem_record lab_scope open_os lab_target (\<lambda>_. False)) (\<lambda>_ _. 0)
     lab_context lab_world)))"
proof -
  let ?run = "discovery_run (guard_prober mem_record lab_scope open_os lab_target (\<lambda>_. False))
     (\<lambda>_ _. 0) lab_context lab_world"
  have "?run = (fst ?run, snd ?run)" by simp
  from probe_modules_stay_in_scope [OF lab_slots_free disjI1 [OF this]] show ?thesis
    by (auto simp: lab_world_def list_all_iff)
qed

end
