(* ===== verification/Py_Re.thy ===== *)
theory Py_Re
  imports Py_Str "HOL-Library.Sublist"
begin

text \<open>
  The part of the standard library that reads text a scanned host chose: UTF-8 decoding with
  \<open>errors="replace"\<close>, and the regular expressions of \<open>re\<close>.  Such text is a list of code points.
  A pattern is matched by backtracking: the matches at a position are listed in the order in which
  \<open>re\<close> tries them, and the first one counts.  The classes \<open>\d\<close>, \<open>\w\<close> and \<open>\s\<close> are exact below 256;
  above, they are the Unicode character database, which is a parameter, as is the lower case of a
  text with code points above 255.
\<close>

section \<open>Text of any code points\<close>

type_synonym ustr = "nat list"

definition uni :: "py_str \<Rightarrow> ustr" where
  "uni s = map of_char s"

record unicode_db =
  ud_decimal :: "nat \<Rightarrow> bool"
  ud_alnum :: "nat \<Rightarrow> bool"
  ud_space :: "nat \<Rightarrow> bool"
  ud_value :: "nat \<Rightarrow> nat"
  ud_lower :: "ustr \<Rightarrow> ustr"

definition u_digit :: "unicode_db \<Rightarrow> nat \<Rightarrow> bool" where
  "u_digit db c \<longleftrightarrow> (if c < 256 then 48 \<le> c \<and> c \<le> 57 else ud_decimal db c)"

definition latin1_alnum :: "nat \<Rightarrow> bool" where
  "latin1_alnum c \<longleftrightarrow> 48 \<le> c \<and> c \<le> 57 \<or> 65 \<le> c \<and> c \<le> 90 \<or> 97 \<le> c \<and> c \<le> 122
     \<or> c \<in> {170, 178, 179, 181, 185, 186, 188, 189, 190}
     \<or> 192 \<le> c \<and> c \<le> 255 \<and> c \<noteq> 215 \<and> c \<noteq> 247"

definition u_word :: "unicode_db \<Rightarrow> nat \<Rightarrow> bool" where
  "u_word db c \<longleftrightarrow> c = 95 \<or> (if c < 256 then latin1_alnum c else ud_alnum db c)"

definition u_space :: "unicode_db \<Rightarrow> nat \<Rightarrow> bool" where
  "u_space db c \<longleftrightarrow> (if c < 256 then 9 \<le> c \<and> c \<le> 13 \<or> 28 \<le> c \<and> c \<le> 32 \<or> c = 133 \<or> c = 160
     else ud_space db c)"

definition u_strip :: "unicode_db \<Rightarrow> ustr \<Rightarrow> ustr" where
  "u_strip db s = rev (dropWhile (u_space db) (rev (dropWhile (u_space db) s)))"

definition latin1_lower :: "nat \<Rightarrow> nat" where
  "latin1_lower c = (if 65 \<le> c \<and> c \<le> 90 \<or> 192 \<le> c \<and> c \<le> 222 \<and> c \<noteq> 215 then c + 32 else c)"

definition u_lower :: "unicode_db \<Rightarrow> ustr \<Rightarrow> ustr" where
  "u_lower db s = (if list_all (\<lambda>c. c < 256) s then map latin1_lower s else ud_lower db s)"

text \<open>\<open>int(text)\<close> of decimal digits.\<close>

definition u_int :: "unicode_db \<Rightarrow> ustr \<Rightarrow> nat" where
  "u_int db s = foldl (\<lambda>n c. n * 10 + (if c < 256 then c - 48 else ud_value db c)) 0 s"

section \<open>Decoding UTF-8\<close>

text \<open>
  A byte that starts no well-formed sequence, and a sequence cut short, become one U+FFFD each;
  what follows is decoded from the first byte that does not fit.
\<close>

definition is_cont :: "nat \<Rightarrow> bool" where "is_cont b \<longleftrightarrow> 128 \<le> b \<and> b < 192"

definition REPLACEMENT :: nat where "REPLACEMENT = 65533"

text \<open>The range of the second byte that the first one leaves open.\<close>

definition second_ok :: "nat \<Rightarrow> nat \<Rightarrow> bool" where
  "second_ok a b \<longleftrightarrow> is_cont b \<and> (a = 224 \<longrightarrow> 160 \<le> b) \<and> (a = 237 \<longrightarrow> b < 160)
     \<and> (a = 240 \<longrightarrow> 144 \<le> b) \<and> (a = 244 \<longrightarrow> b < 144)"

fun utf8_decode :: "nat list \<Rightarrow> ustr" where
  "utf8_decode [] = []"
| "utf8_decode (a # bs) =
     (if a < 128 then a # utf8_decode bs
      else if 194 \<le> a \<and> a < 224 then
        (case bs of b # r \<Rightarrow> if second_ok a b then ((a - 192) * 64 + (b - 128)) # utf8_decode r
                            else REPLACEMENT # utf8_decode bs
         | [] \<Rightarrow> [REPLACEMENT])
      else if 224 \<le> a \<and> a < 240 then
        (case bs of b # r \<Rightarrow>
           if second_ok a b then
             (case r of c # r' \<Rightarrow>
                if is_cont c then ((a - 224) * 4096 + (b - 128) * 64 + (c - 128)) # utf8_decode r'
                else REPLACEMENT # utf8_decode r
              | [] \<Rightarrow> [REPLACEMENT])
           else REPLACEMENT # utf8_decode bs
         | [] \<Rightarrow> [REPLACEMENT])
      else if 240 \<le> a \<and> a < 245 then
        (case bs of b # r \<Rightarrow>
           if second_ok a b then
             (case r of c # r' \<Rightarrow>
                if is_cont c then
                  (case r' of d # r'' \<Rightarrow>
                     if is_cont d then ((a - 240) * 262144 + (b - 128) * 4096 + (c - 128) * 64 + (d - 128))
                       # utf8_decode r''
                     else REPLACEMENT # utf8_decode r'
                   | [] \<Rightarrow> [REPLACEMENT])
                else REPLACEMENT # utf8_decode r
              | [] \<Rightarrow> [REPLACEMENT])
           else REPLACEMENT # utf8_decode bs
         | [] \<Rightarrow> [REPLACEMENT])
      else REPLACEMENT # utf8_decode bs)"

lemma utf8_decode_ascii: "list_all (\<lambda>b. b < 128) bs \<Longrightarrow> utf8_decode bs = bs"
  by (induction bs) auto

lemma utf8_decode_bad_start: "245 \<le> b \<Longrightarrow> utf8_decode (b # bs) = REPLACEMENT # utf8_decode bs"
  by simp

section \<open>Patterns\<close>

datatype cls_item = ClsRange nat nat | ClsDigit | ClsWord | ClsSpace

record cls =
  cl_negated :: bool
  cl_ignore_case :: bool
  cl_items :: "cls_item list"

text \<open>What \<open>re.IGNORECASE\<close> adds to a code point: the letters that lower to the same one.\<close>

definition fold_case :: "nat \<Rightarrow> nat" where
  "fold_case c = (if 65 \<le> c \<and> c \<le> 90 \<or> 192 \<le> c \<and> c \<le> 222 \<and> c \<noteq> 215 then c + 32
     else if c = 304 \<or> c = 305 then 105 else if c = 383 then 115 else if c = 8490 then 107 else c)"

fun item_matches :: "unicode_db \<Rightarrow> bool \<Rightarrow> nat \<Rightarrow> cls_item \<Rightarrow> bool" where
  "item_matches db ic c (ClsRange a b) \<longleftrightarrow> a \<le> c \<and> c \<le> b
     \<or> ic \<and> (a \<le> fold_case c \<and> fold_case c \<le> b \<or> a \<le> fold_case c - 32 \<and> fold_case c - 32 \<le> b
              \<and> 97 \<le> fold_case c \<and> fold_case c \<le> 122)"
| "item_matches db ic c ClsDigit \<longleftrightarrow> u_digit db c"
| "item_matches db ic c ClsWord \<longleftrightarrow> u_word db c"
| "item_matches db ic c ClsSpace \<longleftrightarrow> u_space db c"

definition in_cls :: "unicode_db \<Rightarrow> cls \<Rightarrow> nat \<Rightarrow> bool" where
  "in_cls db k c \<longleftrightarrow> cl_negated k \<noteq> list_ex (item_matches db (cl_ignore_case k) c) (cl_items k)"

text \<open>
  \<open>RxOne\<close> is a class, \<open>RxMany\<close> its greedy or lazy repetition, \<open>RxStar\<close> the greedy repetition of a
  pattern that matches no empty text, \<open>RxGroup\<close> a capturing group.
\<close>

datatype rx = RxEmpty | RxOne cls | RxMany bool cls | RxSeq rx rx | RxOpt rx | RxStar rx | RxGroup nat rx
  | TextStart | LineStart | LineEnd | WordBoundary

type_synonym captures = "(nat \<times> nat \<times> nat) list"

definition run_length :: "(nat \<Rightarrow> bool) \<Rightarrow> ustr \<Rightarrow> nat \<Rightarrow> nat" where
  "run_length P s p = length (takeWhile P (drop p s))"

fun star_loop :: "nat \<Rightarrow> (nat \<Rightarrow> captures \<Rightarrow> (nat \<times> captures) list) \<Rightarrow> nat \<Rightarrow> captures \<Rightarrow>
    (nat \<times> captures) list" where
  "star_loop 0 f p cs = [(p, cs)]"
| "star_loop (Suc n) f p cs =
     concat (map (\<lambda>(q, ds). if p < q then star_loop n f q ds else []) (f p cs)) @ [(p, cs)]"

definition is_word_at :: "unicode_db \<Rightarrow> ustr \<Rightarrow> nat \<Rightarrow> bool" where
  "is_word_at db s p \<longleftrightarrow> p < length s \<and> u_word db (s ! p)"

fun rx_match :: "unicode_db \<Rightarrow> ustr \<Rightarrow> rx \<Rightarrow> nat \<Rightarrow> captures \<Rightarrow> (nat \<times> captures) list" where
  "rx_match db s RxEmpty p cs = [(p, cs)]"
| "rx_match db s (RxOne k) p cs = (if p < length s \<and> in_cls db k (s ! p) then [(Suc p, cs)] else [])"
| "rx_match db s (RxMany greedy k) p cs =
     (let n = run_length (in_cls db k) s p; ends = map (\<lambda>i. (p + i, cs)) [0..<Suc n]
      in if greedy then rev ends else ends)"
| "rx_match db s (RxSeq a b) p cs = concat (map (\<lambda>(q, ds). rx_match db s b q ds) (rx_match db s a p cs))"
| "rx_match db s (RxOpt a) p cs = rx_match db s a p cs @ [(p, cs)]"
| "rx_match db s (RxStar a) p cs = star_loop (length s - p) (rx_match db s a) p cs"
| "rx_match db s (RxGroup n a) p cs = map (\<lambda>(q, ds). (q, (n, p, q) # ds)) (rx_match db s a p cs)"
| "rx_match db s TextStart p cs = (if p = 0 then [(p, cs)] else [])"
| "rx_match db s LineStart p cs = (if p = 0 \<or> s ! (p - 1) = 10 then [(p, cs)] else [])"
| "rx_match db s LineEnd p cs = (if length s \<le> p \<or> s ! p = 10 then [(p, cs)] else [])"
| "rx_match db s WordBoundary p cs =
     (if (0 < p \<and> is_word_at db s (p - 1)) \<noteq> is_word_at db s p then [(p, cs)] else [])"

text \<open>\<open>pattern.match\<close> and \<open>pattern.search\<close>: where the match starts and ends, and its groups.\<close>

record rx_result =
  mt_start :: nat
  mt_end :: nat
  mt_groups :: captures

definition match_at :: "unicode_db \<Rightarrow> rx \<Rightarrow> ustr \<Rightarrow> nat \<Rightarrow> rx_result option" where
  "match_at db r s p = (case rx_match db s r p [] of
     [] \<Rightarrow> None | (q, cs) # _ \<Rightarrow> Some \<lparr>mt_start = p, mt_end = q, mt_groups = cs\<rparr>)"

definition re_match :: "unicode_db \<Rightarrow> rx \<Rightarrow> ustr \<Rightarrow> rx_result option" where
  "re_match db r s = match_at db r s 0"

fun first_some :: "('a \<Rightarrow> 'b option) \<Rightarrow> 'a list \<Rightarrow> 'b option" where
  "first_some f [] = None"
| "first_some f (x # xs) = (case f x of Some y \<Rightarrow> Some y | None \<Rightarrow> first_some f xs)"

definition re_search :: "unicode_db \<Rightarrow> rx \<Rightarrow> ustr \<Rightarrow> rx_result option" where
  "re_search db r s = first_some (match_at db r s) [0..<Suc (length s)]"

definition u_slice :: "ustr \<Rightarrow> nat \<Rightarrow> nat \<Rightarrow> ustr" where
  "u_slice s p q = take (q - p) (drop p s)"

definition re_group :: "ustr \<Rightarrow> rx_result \<Rightarrow> nat \<Rightarrow> ustr option" where
  "re_group s m n = (if n = 0 then Some (u_slice s (mt_start m) (mt_end m))
     else map_option (\<lambda>(p, q). u_slice s p q) (map_of (mt_groups m) n))"

section \<open>Abbreviations for writing patterns\<close>

definition chars_of :: "py_str \<Rightarrow> cls_item list" where
  "chars_of s = map (\<lambda>c. ClsRange (of_char c) (of_char c)) s"

definition any_of :: "bool \<Rightarrow> cls_item list \<Rightarrow> cls" where
  "any_of ic items = \<lparr>cl_negated = False, cl_ignore_case = ic, cl_items = items\<rparr>"

definition none_of :: "cls_item list \<Rightarrow> cls" where
  "none_of items = \<lparr>cl_negated = True, cl_ignore_case = False, cl_items = items\<rparr>"

fun rx_lit :: "bool \<Rightarrow> py_str \<Rightarrow> rx" where
  "rx_lit ic [] = RxEmpty"
| "rx_lit ic [c] = RxOne (any_of ic (chars_of [c]))"
| "rx_lit ic (c # s) = RxSeq (RxOne (any_of ic (chars_of [c]))) (rx_lit ic s)"

fun rx_seq :: "rx list \<Rightarrow> rx" where
  "rx_seq [] = RxEmpty"
| "rx_seq [r] = r"
| "rx_seq (r # rs) = RxSeq r (rx_seq rs)"

definition rx_plus :: "cls \<Rightarrow> rx" where
  "rx_plus k = RxSeq (RxOne k) (RxMany True k)"

section \<open>What a match says\<close>

text \<open>
  Every match lies in the text, and so does every group it captures; a group's text consists of
  characters of the classes inside the group.
\<close>

fun rx_chars :: "unicode_db \<Rightarrow> (nat \<Rightarrow> bool) \<Rightarrow> rx \<Rightarrow> bool" where
  "rx_chars db P (RxOne k) \<longleftrightarrow> (\<forall>c. in_cls db k c \<longrightarrow> P c)"
| "rx_chars db P (RxMany g k) \<longleftrightarrow> (\<forall>c. in_cls db k c \<longrightarrow> P c)"
| "rx_chars db P (RxSeq a b) \<longleftrightarrow> rx_chars db P a \<and> rx_chars db P b"
| "rx_chars db P (RxOpt a) \<longleftrightarrow> rx_chars db P a"
| "rx_chars db P (RxStar a) \<longleftrightarrow> rx_chars db P a"
| "rx_chars db P (RxGroup n a) \<longleftrightarrow> rx_chars db P a"
| "rx_chars db P r \<longleftrightarrow> True"

fun group_chars :: "unicode_db \<Rightarrow> (nat \<Rightarrow> nat \<Rightarrow> bool) \<Rightarrow> rx \<Rightarrow> bool" where
  "group_chars db P (RxSeq a b) \<longleftrightarrow> group_chars db P a \<and> group_chars db P b"
| "group_chars db P (RxOpt a) \<longleftrightarrow> group_chars db P a"
| "group_chars db P (RxStar a) \<longleftrightarrow> group_chars db P a"
| "group_chars db P (RxGroup n a) \<longleftrightarrow> rx_chars db (P n) a \<and> group_chars db P a"
| "group_chars db P r \<longleftrightarrow> True"

definition all_between :: "(nat \<Rightarrow> bool) \<Rightarrow> ustr \<Rightarrow> nat \<Rightarrow> nat \<Rightarrow> bool" where
  "all_between P s p q \<longleftrightarrow> p \<le> q \<and> q \<le> length s \<and> (\<forall>i. p \<le> i \<and> i < q \<longrightarrow> P (s ! i))"

definition captures_ok :: "(nat \<Rightarrow> nat \<Rightarrow> bool) \<Rightarrow> ustr \<Rightarrow> captures \<Rightarrow> bool" where
  "captures_ok P s cs \<longleftrightarrow> (\<forall>(n, p, q) \<in> set cs. all_between (P n) s p q)"

lemma all_between_trans: "all_between P s p q \<Longrightarrow> all_between P s q r \<Longrightarrow> all_between P s p r"
  unfolding all_between_def by (meson leI le_trans)

lemma all_between_refl [simp]: "all_between P s p p \<longleftrightarrow> p \<le> length s"
  by (auto simp: all_between_def)

lemma all_between_Suc [simp]: "all_between P s p (Suc p) \<longleftrightarrow> p < length s \<and> P (s ! p)"
  by (auto simp: all_between_def less_Suc_eq)

lemma run_length_spec: "p \<le> length s \<Longrightarrow> i \<le> run_length P s p \<Longrightarrow> all_between P s p (p + i)"
proof -
  assume p: "p \<le> length s" and i: "i \<le> run_length P s p"
  have len: "run_length P s p \<le> length s - p"
    using length_takeWhile_le [of P "drop p s"] by (simp add: run_length_def)
  have "P (s ! j)" if "p \<le> j" "j < p + i" for j
  proof -
    have "j - p < run_length P s p" using that i by linarith
    then have "P (drop p s ! (j - p))"
      using takeWhile_nth [of "j - p" P "drop p s"] set_takeWhileD [of "takeWhile P (drop p s) ! (j - p)" P]
        nth_mem [of "j - p" "takeWhile P (drop p s)"] by (simp add: run_length_def)
    then show ?thesis using that len i by (simp add: nth_drop)
  qed
  then show ?thesis using p i len by (auto simp: all_between_def)
qed

lemma star_loop_inv:
  assumes step: "\<And>p cs q ds. I p cs \<Longrightarrow> (q, ds) \<in> set (f p cs) \<Longrightarrow> I q ds"
  shows "I p cs \<Longrightarrow> (q, ds) \<in> set (star_loop n f p cs) \<Longrightarrow> I q ds"
proof (induction n arbitrary: p cs)
  case (Suc n)
  from Suc.prems(2) consider "q = p" "ds = cs"
    | q1 ds1 where "(q1, ds1) \<in> set (f p cs)" "(q, ds) \<in> set (star_loop n f q1 ds1)"
    by (auto split: if_splits)
  then show ?case
    using Suc.IH step Suc.prems(1) by cases blast+
qed simp

lemma rx_match_chars:
  "rx_chars db P r \<Longrightarrow> p \<le> length s \<Longrightarrow> (q, ds) \<in> set (rx_match db s r p cs) \<Longrightarrow> all_between P s p q"
proof (induction r arbitrary: p q cs ds)
  case (RxMany g k)
  then obtain i where i: "i \<le> run_length (in_cls db k) s p" "q = p + i"
    by (auto simp: Let_def split: if_splits)
  then show ?case
    using run_length_spec [OF RxMany.prems(2) i(1)] RxMany.prems(1) by (auto simp: all_between_def)
next
  case (RxSeq a b)
  then obtain q1 ds1 where ab: "(q1, ds1) \<in> set (rx_match db s a p cs)" "(q, ds) \<in> set (rx_match db s b q1 ds1)"
    by auto
  have one: "all_between P s p q1" using RxSeq.IH(1) [OF _ RxSeq.prems(2) ab(1)] RxSeq.prems(1) by simp
  then have "q1 \<le> length s" by (simp add: all_between_def)
  from RxSeq.IH(2) [OF _ this ab(2)] RxSeq.prems(1) one show ?case
    using all_between_trans by auto
next
  case (RxStar a)
  have "all_between P s p q"
  proof (rule star_loop_inv [where I = "\<lambda>q ds. all_between P s p q"])
    show "(q, ds) \<in> set (star_loop (length s - p) (rx_match db s a) p cs)" using RxStar.prems by simp
    show "all_between P s p p" using RxStar.prems by (auto simp: all_between_def)
    show "all_between P s p q2"
      if one: "all_between P s p q1" and m: "(q2, ds2) \<in> set (rx_match db s a q1 ds1)"
      for q1 ds1 q2 ds2
    proof (rule all_between_trans [OF one])
      have "q1 \<le> length s" using one by (simp add: all_between_def)
      from RxStar.IH [OF _ this m] RxStar.prems(1) show "all_between P s q1 q2" by simp
    qed
  qed
  then show ?case .
next
  case (RxOpt a)
  from RxOpt.prems(3) consider "(q, ds) \<in> set (rx_match db s a p cs)" | "q = p" by auto
  then show ?case using RxOpt.IH [OF _ RxOpt.prems(2)] RxOpt.prems(1,2) by cases (auto simp: all_between_def)
next
  case (RxGroup n a)
  from RxGroup.prems(3) obtain ds1 where "(q, ds1) \<in> set (rx_match db s a p cs)" by auto
  from RxGroup.IH [OF _ RxGroup.prems(2) this] RxGroup.prems(1) show ?case by simp
qed (simp_all split: if_splits)

lemma rx_chars_True: "rx_chars db (\<lambda>_. True) r"
  by (induction r) auto

lemmas rx_match_within = rx_match_chars [OF rx_chars_True]

lemma rx_match_groups:
  "group_chars db P r \<Longrightarrow> p \<le> length s \<Longrightarrow> captures_ok P s cs \<Longrightarrow> (q, ds) \<in> set (rx_match db s r p cs) \<Longrightarrow>
   captures_ok P s ds"
proof (induction r arbitrary: p q cs ds)
  case (RxSeq a b)
  from RxSeq.prems(4) obtain q1 ds1 where
    ab: "(q1, ds1) \<in> set (rx_match db s a p cs)" "(q, ds) \<in> set (rx_match db s b q1 ds1)"
    by auto
  have q1: "q1 \<le> length s" using rx_match_within [OF RxSeq.prems(2) ab(1)] by (simp add: all_between_def)
  have "captures_ok P s ds1" using RxSeq.IH(1) [OF _ RxSeq.prems(2,3) ab(1)] RxSeq.prems(1) by simp
  from RxSeq.IH(2) [OF _ q1 this ab(2)] RxSeq.prems(1) show ?case by simp
next
  case (RxStar a)
  have "q \<le> length s \<and> captures_ok P s ds"
  proof (rule star_loop_inv [where I = "\<lambda>q ds. q \<le> length s \<and> captures_ok P s ds"])
    show "(q, ds) \<in> set (star_loop (length s - p) (rx_match db s a) p cs)" using RxStar.prems by simp
    show "p \<le> length s \<and> captures_ok P s cs" using RxStar.prems by simp
    show "q2 \<le> length s \<and> captures_ok P s ds2"
      if q1: "q1 \<le> length s \<and> captures_ok P s ds1" and m: "(q2, ds2) \<in> set (rx_match db s a q1 ds1)"
      for q1 ds1 q2 ds2
    proof
      show "captures_ok P s ds2" using RxStar.IH [OF _ _ _ m] RxStar.prems(1) q1 by simp
      show "q2 \<le> length s" using rx_match_within [OF _ m] q1 by (simp add: all_between_def)
    qed
  qed
  then show ?case by simp
next
  case (RxGroup n a)
  from RxGroup.prems(4) obtain ds1 where g: "(q, ds1) \<in> set (rx_match db s a p cs)" "ds = (n, p, q) # ds1"
    by auto
  have "captures_ok P s ds1" using RxGroup.IH [OF _ RxGroup.prems(2,3) g(1)] RxGroup.prems(1) by simp
  moreover have "all_between (P n) s p q"
    using rx_match_chars [OF _ RxGroup.prems(2) g(1)] RxGroup.prems(1) by simp
  ultimately show ?case by (simp add: captures_ok_def g(2))
next
  case (RxOpt a)
  from RxOpt.prems(4) consider "(q, ds) \<in> set (rx_match db s a p cs)" | "ds = cs" by auto
  then show ?case using RxOpt.IH [OF _ RxOpt.prems(2,3)] RxOpt.prems(1,3) by cases auto
next
  case (RxMany g k)
  then have "ds = cs" by (auto simp: Let_def split: if_splits)
  with RxMany.prems show ?case by simp
qed (simp_all split: if_splits)

lemma first_some_SomeD: "first_some f xs = Some y \<Longrightarrow> \<exists>x \<in> set xs. f x = Some y"
  by (induction xs) (auto split: option.splits)

lemma first_some_None_iff: "first_some f xs = None \<longleftrightarrow> (\<forall>x \<in> set xs. f x = None)"
  by (induction xs) (auto split: option.splits)

lemma match_at_groups:
  assumes "match_at db r s p = Some m" and "p \<le> length s" and "group_chars db P r"
    and "map_of (mt_groups m) n = Some (a, b)"
  shows "all_between (P n) s a b"
proof -
  from assms(1) obtain q cs l where "rx_match db s r p [] = (q, cs) # l" "mt_groups m = cs"
    by (auto simp: match_at_def split: list.splits)
  then have "(q, cs) \<in> set (rx_match db s r p [])" "mt_groups m = cs" by auto
  with assms(2,3) have "captures_ok P s (mt_groups m)"
    using rx_match_groups [of db P r p s "[]" q cs] by (simp add: captures_ok_def)
  then show ?thesis using map_of_SomeD [OF assms(4)] by (auto simp: captures_ok_def)
qed

lemma all_between_slice:
  assumes "all_between P s a b"
  shows "list_all P (u_slice s a b) \<and> sublist (u_slice s a b) s"
proof -
  have "sublist (u_slice s a b) s"
    unfolding u_slice_def by (rule sublist_order.order_trans [OF sublist_take sublist_drop])
  moreover have "list_all P (u_slice s a b)"
    using assms by (auto simp: all_between_def u_slice_def list_all_length)
  ultimately show ?thesis by simp
qed

text \<open>The text of a group of a search: part of the searched text, of the characters of the group.\<close>

lemma search_group:
  assumes "re_search db r s = Some m" and "0 < n" and "re_group s m n = Some t"
    and "group_chars db (\<lambda>i c. i = n \<longrightarrow> P c) r"
  shows "list_all P t \<and> sublist t s"
proof -
  from assms(1) obtain p where p: "p \<le> length s" "match_at db r s p = Some m"
    using first_some_SomeD [of "match_at db r s" "[0..<Suc (length s)]" m]
    unfolding re_search_def by (metis atLeastLessThan_iff less_Suc_eq_le set_upt)
  from assms(2,3) obtain a b where g: "map_of (mt_groups m) n = Some (a, b)" "t = u_slice s a b"
    by (auto simp: re_group_def)
  from match_at_groups [OF p(2,1) assms(4) g(1)] show ?thesis
    using all_between_slice g(2) by (simp add: all_between_def list_all_iff)
qed

lemma match_group:
  assumes "re_match db r s = Some m" and "0 < n" and "re_group s m n = Some t"
    and "group_chars db (\<lambda>i c. i = n \<longrightarrow> P c) r"
  shows "list_all P t \<and> sublist t s"
proof -
  from assms(2,3) obtain a b where g: "map_of (mt_groups m) n = Some (a, b)" "t = u_slice s a b"
    by (auto simp: re_group_def)
  from match_at_groups [OF assms(1) [unfolded re_match_def] _ assms(4) g(1)] show ?thesis
    using all_between_slice g(2) by (simp add: all_between_def list_all_iff)
qed

text \<open>Classes a match must use: a text without a character of one of them has no match.\<close>

fun rx_required :: "rx \<Rightarrow> cls list" where
  "rx_required (RxOne k) = [k]"
| "rx_required (RxSeq a b) = rx_required a @ rx_required b"
| "rx_required (RxGroup n a) = rx_required a"
| "rx_required r = []"

lemma rx_match_required:
  "(q, ds) \<in> set (rx_match db s r p cs) \<Longrightarrow> k \<in> set (rx_required r) \<Longrightarrow> \<exists>c \<in> set s. in_cls db k c"
proof (induction r arbitrary: p q cs ds)
  case (RxSeq a b)
  from RxSeq.prems(1) obtain q1 ds1 where
    "(q1, ds1) \<in> set (rx_match db s a p cs)" "(q, ds) \<in> set (rx_match db s b q1 ds1)"
    by auto
  then show ?case using RxSeq.IH RxSeq.prems(2) by auto
qed (auto split: if_splits)

lemma search_impossible:
  assumes "list_ex (\<lambda>k. list_all (\<lambda>c. \<not> in_cls db k c) s) (rx_required r)"
  shows "re_search db r s = None"
proof -
  have "rx_match db s r p [] = []" for p
    using assms rx_match_required [of _ _ db s r p "[]"]
    by (cases "rx_match db s r p []") (force simp: list_ex_iff list_all_iff)+
  then show ?thesis by (simp only: re_search_def first_some_None_iff match_at_def list.case) blast
qed

lemma first_some_append:
  "first_some f (xs @ ys) = (case first_some f xs of None \<Rightarrow> first_some f ys | Some y \<Rightarrow> Some y)"
  by (induction xs) (auto split: option.splits)

lemma u_strip_sublist: "sublist (u_strip db s) s"
proof -
  have "suffix (dropWhile P s) s" for P :: "nat \<Rightarrow> bool" and s by (rule suffix_dropWhile)
  then have "sublist (dropWhile P s) s" for P :: "nat \<Rightarrow> bool" and s by blast
  then show ?thesis
    unfolding u_strip_def by (metis rev_rev_ident sublist_order.order_trans sublist_rev)
qed

end
