(* ===== verification/Fingerprints.thy ===== *)
theory Fingerprints
  imports Findings Py_Re
begin

text \<open>
  \<open>backend/app/modules/fingerprints.py\<close>: what a banner says about the service behind it.  The
  patterns are the ones of the source, written as data.
\<close>

section \<open>Patterns\<close>

record service_guess =
  sg_service :: py_str
  sg_product :: "ustr option"
  sg_version :: "ustr option"
  sg_confidence :: confidence

record banner_pattern =
  bp_service :: py_str
  bp_product :: py_str
  bp_pattern :: rx

definition digits_dots :: cls where "digits_dots = any_of True (ClsDigit # chars_of ''.'')"
definition words_dots :: cls where "words_dots = any_of True (ClsWord # chars_of ''.'')"
definition spaces :: cls where "spaces = any_of True [ClsSpace]"
definition digits :: cls where "digits = any_of True [ClsDigit]"
definition rx_dot :: rx where "rx_dot = rx_lit True ''.''"

definition BANNER_PATTERNS :: "banner_pattern list" where
  "BANNER_PATTERNS =
   [\<lparr>bp_service = ''ssh'', bp_product = ''OpenSSH'', bp_pattern = rx_seq [rx_lit True ''SSH-'', rx_plus digits_dots,
       rx_lit True ''-OpenSSH'', RxOne (any_of True (chars_of ''_-'')), RxGroup 1 (rx_plus words_dots)]\<rparr>,
    \<lparr>bp_service = ''ssh'', bp_product = ''Dropbear'', bp_pattern = rx_seq [rx_lit True ''SSH-'', rx_plus digits_dots,
       rx_lit True ''-dropbear'', RxOpt (RxOne (any_of True (chars_of ''_-''))), RxGroup 1 (RxMany True words_dots)]\<rparr>,
    \<lparr>bp_service = ''ftp'', bp_product = ''vsftpd'',
       bp_pattern = rx_seq [rx_lit True ''vsftpd'', rx_plus spaces, RxGroup 1 (rx_plus digits_dots)]\<rparr>,
    \<lparr>bp_service = ''ftp'', bp_product = ''ProFTPD'',
       bp_pattern = rx_seq [rx_lit True ''ProFTPD'', rx_plus spaces, RxGroup 1 (rx_plus digits_dots)]\<rparr>,
    \<lparr>bp_service = ''ftp'', bp_product = ''FileZilla Server'',
       bp_pattern = rx_seq [rx_lit True ''FileZilla Server'', rx_plus spaces, RxGroup 1 (rx_plus digits_dots)]\<rparr>,
    \<lparr>bp_service = ''smtp'', bp_product = ''Postfix'', bp_pattern = rx_seq [WordBoundary, rx_lit True ''Postfix'',
       WordBoundary, RxOpt (rx_seq [rx_plus spaces, RxGroup 1 (rx_plus digits_dots)])]\<rparr>,
    \<lparr>bp_service = ''smtp'', bp_product = ''Exim'',
       bp_pattern = rx_seq [WordBoundary, rx_lit True ''Exim'', rx_plus spaces, RxGroup 1 (rx_plus digits_dots)]\<rparr>,
    \<lparr>bp_service = ''imap'', bp_product = ''Dovecot'', bp_pattern = rx_seq [WordBoundary, rx_lit True ''Dovecot'',
       WordBoundary, RxOpt (rx_seq [rx_plus spaces, RxGroup 1 (rx_plus digits_dots)])]\<rparr>,
    \<lparr>bp_service = ''mysql'', bp_product = ''MySQL'',
       bp_pattern = rx_seq [RxGroup 1 (rx_seq [rx_plus digits, rx_dot, rx_plus digits, rx_dot, rx_plus digits]),
         RxMany True (any_of True (ClsWord # chars_of ''-'')), RxOne (any_of True [ClsRange 0 0])]\<rparr>,
    \<lparr>bp_service = ''mysql'', bp_product = ''MariaDB'',
       bp_pattern = rx_seq [RxGroup 1 (rx_plus digits_dots), rx_lit True ''-MariaDB'']\<rparr>,
    \<lparr>bp_service = ''redis'', bp_product = ''Redis'',
       bp_pattern = rx_seq [rx_lit True ''redis_version:'', RxGroup 1 (rx_plus digits_dots)]\<rparr>,
    \<lparr>bp_service = ''postgresql'', bp_product = ''PostgreSQL'',
       bp_pattern = rx_seq [rx_lit True ''PostgreSQL'', rx_plus spaces, RxGroup 1 (rx_plus digits_dots)]\<rparr>,
    \<lparr>bp_service = ''telnet'', bp_product = ''Telnet'',
       bp_pattern = rx_seq [TextStart, RxOne (any_of False [ClsRange 255 255]), RxOne (any_of False [ClsRange 251 254])]\<rparr>]"

definition WELL_KNOWN_SERVICE_NAMES :: "(int \<times> py_str) list" where
  "WELL_KNOWN_SERVICE_NAMES =
   [(21, ''ftp''), (22, ''ssh''), (23, ''telnet''), (25, ''smtp''), (53, ''dns''), (80, ''http''),
    (110, ''pop3''), (135, ''msrpc''), (139, ''netbios-ssn''), (143, ''imap''), (443, ''https''),
    (445, ''microsoft-ds''), (993, ''imaps''), (995, ''pop3s''), (1433, ''ms-sql''), (3306, ''mysql''),
    (3389, ''ms-wbt-server''), (5432, ''postgresql''), (5900, ''vnc''), (6379, ''redis''),
    (8080, ''http-proxy''), (8443, ''https-alt''), (9200, ''elasticsearch''), (27017, ''mongodb'')]"

definition no_newline :: cls where "no_newline = none_of [ClsRange 10 10]"

definition HTTP_SERVER_HEADER :: rx where
  "HTTP_SERVER_HEADER = rx_seq [LineStart, rx_lit True ''server:'', RxMany True spaces, RxGroup 1 (rx_plus no_newline), LineEnd]"

definition HTTP_PRODUCT_VERSION :: rx where
  "HTTP_PRODUCT_VERSION = rx_seq [TextStart,
     RxGroup 1 (RxSeq (RxOne (any_of False [ClsRange 65 90, ClsRange 97 122]))
                  (RxMany True (any_of False (ClsWord # chars_of ''.+-'')))),
     RxOpt (rx_seq [rx_lit False ''/'', RxGroup 2 (rx_plus (any_of False (ClsWord # chars_of ''.'')))])]"

section \<open>Inference\<close>

text \<open>\<open>version = match.group(1) if match.groups() and match.group(1) else None\<close>\<close>

definition stated_version :: "ustr \<Rightarrow> rx_result \<Rightarrow> ustr option" where
  "stated_version banner m = (case re_group banner m 1 of Some v \<Rightarrow> if v = [] then None else Some v | None \<Rightarrow> None)"

definition version_confidence :: "ustr option \<Rightarrow> confidence" where
  "version_confidence v = (if v = None \<or> v = Some [] then ConfMedium else ConfHigh)"

definition try_pattern :: "unicode_db \<Rightarrow> ustr \<Rightarrow> banner_pattern \<Rightarrow> service_guess option" where
  "try_pattern db banner e =
     (case re_search db (bp_pattern e) banner of
        None \<Rightarrow> None
      | Some m \<Rightarrow> Some \<lparr>sg_service = bp_service e, sg_product = Some (uni (bp_product e)),
          sg_version = stated_version banner m, sg_confidence = version_confidence (stated_version banner m)\<rparr>)"

definition identify_from_banner :: "unicode_db \<Rightarrow> ustr \<Rightarrow> service_guess option" where
  "identify_from_banner db banner = first_some (try_pattern db banner) BANNER_PATTERNS"

definition identify_from_http_server_header :: "unicode_db \<Rightarrow> ustr \<Rightarrow> service_guess" where
  "identify_from_http_server_header db header_value =
     (let h = u_strip db header_value in
      case re_match db HTTP_PRODUCT_VERSION h of
        None \<Rightarrow> \<lparr>sg_service = ''http'', sg_product = None, sg_version = None, sg_confidence = ConfLow\<rparr>
      | Some m \<Rightarrow> \<lparr>sg_service = ''http'', sg_product = re_group h m 1, sg_version = re_group h m 2,
          sg_confidence = version_confidence (re_group h m 2)\<rparr>)"

definition service_name_for_port :: "int \<Rightarrow> service_guess option" where
  "service_name_for_port port =
     map_option (\<lambda>name. \<lparr>sg_service = name, sg_product = None, sg_version = None, sg_confidence = ConfLow\<rparr>)
       (map_of WELL_KNOWN_SERVICE_NAMES port)"

section \<open>Facts\<close>

definition version_char :: "unicode_db \<Rightarrow> nat \<Rightarrow> bool" where
  "version_char db c \<longleftrightarrow> u_word db c \<or> u_digit db c \<or> c = 46"

lemmas class_defs = in_cls_def any_of_def none_of_def chars_of_def rx_plus_def digits_dots_def words_dots_def
  digits_def rx_dot_def spaces_def no_newline_def

lemma BANNER_PATTERNS_groups:
  "list_all (\<lambda>e. group_chars db (\<lambda>i c. i = 1 \<longrightarrow> version_char db c) (bp_pattern e)) BANNER_PATTERNS"
  by (simp add: BANNER_PATTERNS_def class_defs version_char_def fold_case_def)

lemma HTTP_PRODUCT_VERSION_groups: "group_chars db (\<lambda>i c. i = 2 \<longrightarrow> version_char db c) HTTP_PRODUCT_VERSION"
  by (simp add: HTTP_PRODUCT_VERSION_def class_defs version_char_def)

text \<open>What a guess may say about a text: a version only if the text states it, and high confidence
  only with a version.\<close>

definition guess_stated :: "unicode_db \<Rightarrow> ustr \<Rightarrow> service_guess \<Rightarrow> bool" where
  "guess_stated db banner g \<longleftrightarrow>
     (case sg_version g of None \<Rightarrow> sg_confidence g \<noteq> ConfHigh
      | Some v \<Rightarrow> sublist v banner \<and> list_all (version_char db) v \<and> (v = [] \<longrightarrow> sg_confidence g \<noteq> ConfHigh))"

lemma try_pattern_stated:
  assumes "e \<in> set BANNER_PATTERNS" and "try_pattern db banner e = Some g"
  shows "guess_stated db banner g"
proof -
  from assms(2) obtain m where m: "re_search db (bp_pattern e) banner = Some m"
    and g: "sg_version g = stated_version banner m" "sg_confidence g = version_confidence (sg_version g)"
    by (auto simp: try_pattern_def split: option.splits)
  have "sublist v banner \<and> list_all (version_char db) v" if "sg_version g = Some v" for v
  proof -
    have "re_group banner m 1 = Some v" using that g(1) by (auto simp: stated_version_def split: option.splits if_splits)
    moreover have "group_chars db (\<lambda>i c. i = 1 \<longrightarrow> version_char db c) (bp_pattern e)"
      using BANNER_PATTERNS_groups assms(1) unfolding list_all_iff by blast
    ultimately show ?thesis using search_group [OF m, of 1 v "version_char db"] by simp
  qed
  then show ?thesis using g by (auto simp: guess_stated_def version_confidence_def split: option.splits)
qed

lemma identify_stated: "identify_from_banner db banner = Some g \<Longrightarrow> guess_stated db banner g"
  unfolding identify_from_banner_def using first_some_SomeD try_pattern_stated by fast

lemma identify_product:
  "identify_from_banner db banner = Some g \<Longrightarrow>
   \<exists>e \<in> set BANNER_PATTERNS. sg_service g = bp_service e \<and> sg_product g = Some (uni (bp_product e))"
  unfolding identify_from_banner_def using first_some_SomeD
  by (fastforce simp: try_pattern_def split: option.splits)

lemma header_stated: "guess_stated db header (identify_from_http_server_header db header)"
proof (cases "re_match db HTTP_PRODUCT_VERSION (u_strip db header)")
  case (Some m)
  have "sublist v header \<and> list_all (version_char db) v" if "re_group (u_strip db header) m 2 = Some v" for v
    using match_group [OF Some _ that] HTTP_PRODUCT_VERSION_groups u_strip_sublist sublist_order.order_trans
    by (metis zero_less_numeral)
  then show ?thesis
    using Some by (auto simp: guess_stated_def identify_from_http_server_header_def Let_def
        version_confidence_def split: option.splits)
qed (simp add: guess_stated_def identify_from_http_server_header_def Let_def)

section \<open>Two services that are not recognised\<close>

text \<open>
  A telnet server opens with the raw bytes 0xFF and 0xFB to 0xFE.  The patterns are matched on the
  decoded text, in which 0xFF is always a replacement character: telnet is never recognised.
\<close>

lemma telnet_never_recognised:
  assumes "identify_from_banner db (utf8_decode (255 # bytes)) = Some g"
  shows "sg_service g \<noteq> ''telnet''"
proof
  assume telnet: "sg_service g = ''telnet''"
  let ?t = "utf8_decode (255 # bytes)"
  let ?e = "\<lparr>bp_service = ''telnet'', bp_product = ''Telnet'',
       bp_pattern = rx_seq [TextStart, RxOne (any_of False [ClsRange 255 255]), RxOne (any_of False [ClsRange 251 254])]\<rparr>"
  have "match_at db (bp_pattern ?e) ?t p = None" for p
    by (simp add: match_at_def in_cls_def any_of_def REPLACEMENT_def del: utf8_decode.simps)
      (simp add: REPLACEMENT_def)
  then have "re_search db (bp_pattern ?e) ?t = None" unfolding re_search_def first_some_None_iff by blast
  then have none: "try_pattern db ?t ?e = None" by (simp only: try_pattern_def option.case)
  from assms obtain e where e: "e \<in> set BANNER_PATTERNS" "try_pattern db ?t e = Some g"
    unfolding identify_from_banner_def using first_some_SomeD by fast
  from e(2) telnet have "bp_service e = ''telnet''" by (auto simp: try_pattern_def split: option.splits)
  with e(1) have "e = ?e" by (auto simp: BANNER_PATTERNS_def)
  with none e(2) show False by simp
qed

text \<open>
  The handshake of MariaDB 10.3.1, whose version text ends in a zero byte: the MySQL pattern comes
  first and matches it, so it is reported as MySQL 10.3.1 with high confidence.
\<close>

definition no_unicode :: unicode_db where
  "no_unicode = \<lparr>ud_decimal = (\<lambda>_. False), ud_alnum = (\<lambda>_. False), ud_space = (\<lambda>_. False), ud_value = (\<lambda>_. 0),
     ud_lower = (\<lambda>s. s)\<rparr>"

definition mariadb_greeting :: "nat list" where
  "mariadb_greeting = [10, 49, 48, 46, 51, 46, 49, 45, 77, 97, 114, 105, 97, 68, 66, 0]"

lemma mariadb_text: "utf8_decode mariadb_greeting = mariadb_greeting"
  by (simp add: mariadb_greeting_def)

lemma mariadb_not_earlier:
  "list_all (\<lambda>e. list_ex (\<lambda>k. list_all (\<lambda>c. \<not> in_cls no_unicode k c) mariadb_greeting)
     (rx_required (bp_pattern e))) (take 8 BANNER_PATTERNS)"
  by (simp add: BANNER_PATTERNS_def class_defs mariadb_greeting_def fold_case_def u_digit_def u_word_def
      u_space_def latin1_alnum_def)

lemma mariadb_as_mysql:
  "re_search no_unicode (bp_pattern (BANNER_PATTERNS ! 8)) mariadb_greeting
     = Some \<lparr>mt_start = 1, mt_end = 16, mt_groups = [(1, 1, 7)]\<rparr>"
  by (simp add: re_search_def upt_conv_Cons match_at_def BANNER_PATTERNS_def class_defs Let_def
      run_length_def fold_case_def u_digit_def u_word_def latin1_alnum_def mariadb_greeting_def)

lemma mariadb_reported_as_mysql:
  "identify_from_banner no_unicode (utf8_decode mariadb_greeting)
     = Some \<lparr>sg_service = ''mysql'', sg_product = Some (uni ''MySQL''), sg_version = Some (uni ''10.3.1''),
         sg_confidence = ConfHigh\<rparr>"
proof -
  let ?t = mariadb_greeting
  have split: "BANNER_PATTERNS = take 8 BANNER_PATTERNS @ BANNER_PATTERNS ! 8 # drop 9 BANNER_PATTERNS"
    by (simp add: BANNER_PATTERNS_def)
  have "try_pattern no_unicode ?t e = None" if "e \<in> set (take 8 BANNER_PATTERNS)" for e
    using mariadb_not_earlier that search_impossible [of no_unicode ?t "bp_pattern e"]
    by (auto simp: list_all_iff try_pattern_def)
  then have "first_some (try_pattern no_unicode ?t) (take 8 BANNER_PATTERNS) = None"
    by (simp add: first_some_None_iff)
  moreover have "try_pattern no_unicode ?t (BANNER_PATTERNS ! 8)
      = Some \<lparr>sg_service = ''mysql'', sg_product = Some (uni ''MySQL''), sg_version = Some (uni ''10.3.1''),
         sg_confidence = ConfHigh\<rparr>"
    unfolding try_pattern_def mariadb_as_mysql
    by (simp add: stated_version_def version_confidence_def re_group_def u_slice_def uni_def mariadb_greeting_def)
      (simp add: BANNER_PATTERNS_def)
  ultimately show ?thesis
    unfolding identify_from_banner_def mariadb_text by (subst split) (simp add: first_some_append)
qed

end
