(* ===== verification/Dialogs.thy ===== *)
theory Dialogs
  imports Probes Fingerprints
begin

text \<open>
  Talking to an open port: what the enumeration modules see of \<open>guard.open_stream\<close> and of the
  stream it returns.  What a peer answers may depend on everything said before, so the world
  carries the number of exchanges made, and the environment answers by it.
\<close>

section \<open>Streams as a module sees them\<close>

record ('w, 'k) dialer = "'w prober" +
  dr_open :: "ip_address \<Rightarrow> int \<Rightarrow> bool \<Rightarrow> 'w \<Rightarrow> (guard_exn + 'k guarded_stream) \<times> 'w"
  dr_read :: "'k \<Rightarrow> nat \<Rightarrow> 'w \<Rightarrow> (os_error + nat list) \<times> 'w"
  dr_send :: "'k \<Rightarrow> py_str \<Rightarrow> 'w \<Rightarrow> (os_error + unit) \<times> 'w"
  dr_close :: "'k \<Rightarrow> 'w \<Rightarrow> 'w"

text \<open>\<open>except (TimeoutError, OSError)\<close>\<close>

fun caught :: "os_error \<Rightarrow> bool" where
  "caught (OtherException e) = False"
| "caught e = True"

text \<open>The request both modules send: \<open>GET\<close>, without credentials or body.\<close>

definition crlf :: py_str where "crlf = [CHR 0x0D, CHR 0x0A]"

definition http_get :: "py_str \<Rightarrow> py_str \<Rightarrow> py_str" where
  "http_get path host = ''GET '' @ path @ '' HTTP/1.1'' @ crlf @ ''Host: '' @ host @ crlf
     @ ''User-Agent: ScanLedger'' @ crlf @ ''Accept: */*'' @ crlf @ ''Connection: close'' @ crlf @ crlf"

text \<open>\<open>for candidate in network\<close>: every address, the first and the last included.\<close>

fun network_members :: "ip_network \<Rightarrow> ip_address list" where
  "network_members (Net4 n p) = map (\<lambda>i. IPv4 (of_nat i)) [unat n ..< Suc (unat (last_word n p))]"
| "network_members (Net6 n z p) = map (\<lambda>i. IPv6 (of_nat i) None) [unat n ..< Suc (unat (last_word n p))]"

definition address_for :: "validated_target \<Rightarrow> py_str \<Rightarrow> ip_address option" where
  "address_for target host =
     (case find (\<lambda>a. str_addr a = host) (vt_addresses target) of
        Some a \<Rightarrow> Some a
      | None \<Rightarrow> (case vt_network target of
                  None \<Rightarrow> None
                | Some n \<Rightarrow> find (\<lambda>a. str_addr a = host) (network_members n)))"

text \<open>The tasks of a module: one for each open port of each host, in order.\<close>

definition open_port_tasks :: "module_context \<Rightarrow> (py_str \<times> int) list" where
  "open_port_tasks cx = concat (map (\<lambda>(host, ports). map (\<lambda>p. (host, p)) ports) (open_ports_by_host cx))"

section \<open>Collecting the outcomes of the tasks\<close>

text \<open>\<open>findings.extend(outcome)\<close>: a task of enumeration returns a list.\<close>

definition note_outcomes :: "guard_exn + 'a list \<Rightarrow> 'a list \<times> bool \<Rightarrow> run_exn + ('a list \<times> bool)" where
  "note_outcomes outcome acc =
     (case outcome of
        Inl (BudgetExceeded _ _) \<Rightarrow> Inr (fst acc, True)
      | Inl e \<Rightarrow> Inl (run_exn_of e)
      | Inr xs \<Rightarrow> Inr (fst acc @ xs, snd acc))"

text \<open>What is collected are the outcomes of the tasks.\<close>

lemma collect_note_outcome:
  "collect note_outcome rs acc = Inr (xs, b) \<Longrightarrow> x \<in> set xs \<Longrightarrow> x \<in> set (fst acc) \<or> Inr (Some x) \<in> set rs"
proof (induction rs arbitrary: acc)
  case (Cons r rs)
  then obtain acc1 where n: "note_outcome r acc = Inr acc1" and c: "collect note_outcome rs acc1 = Inr (xs, b)"
    by (auto simp: bind_sum_Inr_iff)
  from Cons.IH [OF c Cons.prems(2)] n show ?case
    by (auto simp: note_outcome_def split: sum.splits guard_exn.splits option.splits)
qed simp

lemma collect_note_outcomes:
  "collect note_outcomes rs acc = Inr (xs, b) \<Longrightarrow> x \<in> set xs \<Longrightarrow>
     x \<in> set (fst acc) \<or> (\<exists>ys. Inr ys \<in> set rs \<and> x \<in> set ys)"
proof (induction rs arbitrary: acc)
  case (Cons r rs)
  then obtain acc1 where n: "note_outcomes r acc = Inr acc1" and c: "collect note_outcomes rs acc1 = Inr (xs, b)"
    by (auto simp: bind_sum_Inr_iff)
  from Cons.IH [OF c Cons.prems(2)] n show ?case
    by (auto simp: note_outcomes_def split: sum.splits guard_exn.splits)
qed simp

lemma gather_outcome:
  "gather fs w = (rs, w') \<Longrightarrow> r \<in> set rs \<Longrightarrow> \<exists>f \<in> set fs. \<exists>w1 w2. f w1 = (r, w2)"
proof (induction fs arbitrary: w rs)
  case (Cons f fs)
  then show ?case by (fastforce split: prod.splits)
qed simp

lemma for_waves_outcomes:
  assumes "for_waves body (waves n fs) acc w = (Inr acc', w')"
  obtains rs where "collect body rs acc = Inr acc'" "\<And>r. r \<in> set rs \<Longrightarrow> \<exists>f \<in> set fs. \<exists>w1 w2. f w1 = (r, w2)"
proof -
  obtain rs w2 where g: "gather (concat (waves n fs)) w = (rs, w2)"
    by (cases "gather (concat (waves n fs)) w")
  from for_waves_collect [OF g, of body acc] assms
  have "collect body rs acc = Inr acc'" by (auto split: sum.splits)
  with gather_outcome [OF g] show ?thesis by (intro that) simp_all
qed

lemma for_waves_note_outcome:
  assumes "for_waves note_outcome (waves n fs) ([], False) w = (Inr (xs, b), w')" and "x \<in> set xs"
  shows "\<exists>f \<in> set fs. \<exists>w1 w2. f w1 = (Inr (Some x), w2)"
  using for_waves_outcomes [OF assms(1)] collect_note_outcome [OF _ assms(2)] by (metis empty_iff fst_conv list.set(1))

lemma for_waves_note_outcomes:
  assumes "for_waves note_outcomes (waves n fs) ([], False) w = (Inr (xs, b), w')" and "x \<in> set xs"
  shows "\<exists>f \<in> set fs. \<exists>w1 w2 ys. f w1 = (Inr ys, w2) \<and> x \<in> set ys"
  using for_waves_outcomes [OF assms(1)] collect_note_outcomes [OF _ assms(2)] by (metis empty_iff fst_conv list.set(1))

section \<open>The contract of a dialer\<close>

text \<open>
  What a module may do with a dialer: connect, open streams, read from them, and say what is allowed
  to be said.  A relation between worlds that all of this keeps is kept by the module.
\<close>

locale conversation = probing inv step "prober.truncate dr"
  for inv :: "'w \<Rightarrow> bool" and step :: "'w \<Rightarrow> 'w \<Rightarrow> bool" and dr :: "('w, 'k) dialer" +
  fixes sayable :: "py_str \<Rightarrow> bool"
  assumes open_step: "inv w \<Longrightarrow> dr_open dr a p tls w = (r, w') \<Longrightarrow> step w w'"
    and read_step: "inv w \<Longrightarrow> dr_read dr k n w = (r1, w') \<Longrightarrow> step w w'"
    and send_step: "inv w \<Longrightarrow> sayable t \<Longrightarrow> dr_send dr k t w = (r2, w') \<Longrightarrow> step w w'"
    and close_step: "inv w \<Longrightarrow> step w (dr_close dr k w)"

section \<open>The guard as a dialer\<close>

text \<open>
  The world of a dialer over the guard: the guard's, and the exchanges so far.  What \<open>read\<close> and
  \<open>send\<close> return is the environment's, and may depend on all of them; \<open>upgrade\<close> is the library's.
\<close>

datatype 'k exchange = Received 'k nat | Sent 'k py_str

record 'k stream_io =
  io_read :: "'k exchange list \<Rightarrow> 'k \<Rightarrow> nat \<Rightarrow> os_error + nat list"
  io_send :: "'k exchange list \<Rightarrow> 'k \<Rightarrow> py_str \<Rightarrow> os_error + unit"

definition guard_dialer :: "'l sink \<Rightarrow> scope_profile \<Rightarrow> 'k os_connect \<Rightarrow> 'k os_open \<Rightarrow> 'k stream_io \<Rightarrow>
    validated_target \<Rightarrow> ('l guard_world \<Rightarrow> bool) \<Rightarrow> ('l guard_world \<times> 'k exchange list, 'k) dialer" where
  "guard_dialer sink scope os upgrade io target cancelled =
     \<lparr>pr_connect = (\<lambda>a p (w, t). case pr_connect (guard_prober sink scope os target cancelled) a p w of
                       (r, w') \<Rightarrow> (r, (w', t))),
      pr_cancelled = (\<lambda>(w, t). cancelled w),
      dr_open = (\<lambda>a p tls (w, t). case the (open_stream sink scope os upgrade target a p tls w) of
                       (r, _, w') \<Rightarrow> (r, (w', t))),
      dr_read = (\<lambda>k n (w, t). (io_read io t k n, (w, t @ [Received k n]))),
      dr_send = (\<lambda>k x (w, t). (io_send io t k x, (w, t @ [Sent k x]))),
      dr_close = (\<lambda>k w. w)\<rparr>"

lemma open_stream_world:
  "open_stream sink S os up v a p tls w = Some (r, ks, w') \<Longrightarrow> \<exists>r'. connect sink S os v a p w = Some (r', w')"
  by (auto simp: open_stream_def split: option.splits sum.splits prod.splits)

lemma open_stream_returns: "slots_free (w_governor w) \<Longrightarrow> open_stream sink S os up v a p tls w \<noteq> None"
  using connect_returns [of w sink S os v a p]
  by (auto simp: open_stream_def split: option.splits sum.splits prod.splits)

text \<open>
  What a module does through the guard: it keeps the invariant a connect of the guard keeps, whatever
  that is; the attempts grow by permitted ones, and the exchanges by what is allowed to be said.
\<close>

definition said :: "'k exchange list \<Rightarrow> py_str set" where
  "said h = {t. \<exists>k. Sent k t \<in> set h}"

definition dialog_step :: "('l guard_world \<Rightarrow> bool) \<Rightarrow> scope_profile \<Rightarrow> validated_target \<Rightarrow> (py_str \<Rightarrow> bool) \<Rightarrow>
    'l guard_world \<times> 'k exchange list \<Rightarrow> 'l guard_world \<times> 'k exchange list \<Rightarrow> bool" where
  "dialog_step I S v allowed w w' \<longleftrightarrow> I (fst w')
     \<and> (\<exists>new. w_attempts (fst w') = w_attempts (fst w) @ new \<and> (\<forall>x \<in> set new. permitted_attempt S v x))
     \<and> (\<exists>new. snd w' = snd w @ new \<and> (\<forall>t \<in> said new. allowed t))"

lemma said_simps [simp]:
  "said [] = {}" "said (h1 @ h2) = said h1 \<union> said h2" "said [Received k n] = {}" "said [Sent k t] = {t}"
  by (auto simp: said_def)

lemma dialog_step_trans: "dialog_step I S v ok v1 v2 \<Longrightarrow> dialog_step I S v ok v2 v3 \<Longrightarrow> dialog_step I S v ok v1 v3"
  by (fastforce simp: dialog_step_def)

lemma guard_dialer_contract:
  assumes keeps: "\<And>a p w r w'. I w \<Longrightarrow> connect sink S os v a p w = Some (r, w') \<Longrightarrow> I w'"
    and free: "\<And>w. I w \<Longrightarrow> slots_free (w_governor w)"
  shows "conversation (\<lambda>w. I (fst w)) (dialog_step I S v allowed) (guard_dialer sink S os up io v cancelled) allowed"
proof -
  let ?dr = "guard_dialer sink S os up io v cancelled"
  have connected: "dialog_step I S v allowed (w, t) (w', t)"
    if "I w" "connect sink S os v a p w = Some (r, w')" for a p w r w' t
    using connect_attempts [OF that(2)] keeps [OF that] by (auto simp: dialog_step_def permitted_attempt_def)
  have open_ok: "dialog_step I S v allowed (w, t) w'" if i: "I w" and o: "dr_open ?dr a p tls (w, t) = (r, w')"
    for a p tls w r w' t
  proof -
    obtain r1 ks w1 where s: "open_stream sink S os up v a p tls w = Some (r1, ks, w1)"
      using open_stream_returns [OF free [OF i]] by fast
    then have "w' = (w1, t)" using o by (simp add: guard_dialer_def)
    then show ?thesis using open_stream_world [OF s] connected [OF i] by blast
  qed
  have connect_ok: "dialog_step I S v allowed (w, t) w'" if i: "I w" and o: "pr_connect ?dr a p (w, t) = (r, w')"
    for a p w r w' t
  proof -
    obtain r1 w1 where s: "connect sink S os v a p w = Some (r1, w1)"
      using connect_returns [OF free [OF i]] by fast
    then have "w' = (w1, t)" using o by (auto simp: guard_dialer_def guard_prober_def split: sum.splits)
    then show ?thesis using connected [OF i s] by blast
  qed
  have truncated: "pr_connect (prober.truncate dr) = pr_connect dr" for dr :: "('a guard_world \<times> 'b exchange list, 'b) dialer"
    by (simp add: prober.truncate_def)
  show ?thesis
  proof (unfold_locales, goal_cases)
    case (2 v1 v2 v3)
    then show ?case by (rule dialog_step_trans)
  next
    case (4 w a p r w')
    then show ?case using connect_ok by (cases w) (simp add: truncated)
  next
    case (5 w a p tls r w')
    then show ?case using open_ok by (cases w) simp
  qed (auto simp: dialog_step_def guard_dialer_def)
qed

interpretation dialed: conversation "\<lambda>w. slots_free (w_governor (fst w))"
  "dialog_step (\<lambda>w. slots_free (w_governor w)) scope target allowed"
  "guard_dialer sink scope os upgrade io target cancelled" allowed
  for sink scope os upgrade io target cancelled allowed
  by (rule guard_dialer_contract) (auto dest: connect_slots_free)

end
