(* ===== verification/Service_Detect.thy ===== *)
theory Service_Detect
  imports Dialogs
begin

text \<open>
  \<open>backend/app/modules/service_detect.py\<close>: bounded banner grabbing.  The text of a finding is
  Latin-1 in this library; \<open>enc\<close> is how a finding holds a text of other code points, whatever it is.
\<close>

definition service_detect_name :: py_str where "service_detect_name = ''service_detect''"

definition BANNER_BYTES :: nat where "BANNER_BYTES = 4096"
definition TLS_PORTS :: "int list" where "TLS_PORTS = [443, 465, 636, 993, 995, 8443]"
definition HTTP_PORTS :: "int list" where
  "HTTP_PORTS = [80, 81, 591, 3000, 5000, 8000, 8008, 8080, 8081, 8088, 8888]"

definition service_detect_metadata :: module_metadata where
  "service_detect_metadata = (module_metadata_defaults service_detect_name ''Service and version detection''
     (''Reads the banner an open port volunteers and, for HTTP, sends one ''
      @ ''read-only GET. Infers product and version with a confidence level, ''
      @ ''and never guesses a version the service did not state.'')
     CatServiceDetection [TargetIp, TargetCidr, TargetHost])\<lparr>md_timeout_seconds := 900, md_order := 30\<rparr>"

text \<open>\<open>_read_banner\<close>: what the service offers, or what it answers to one \<open>GET\<close>.\<close>

definition read_banner :: "('w, 'k) dialer \<Rightarrow> 'k \<Rightarrow> py_str \<Rightarrow> 'w \<Rightarrow> (guard_exn + ustr) \<times> 'w" where
  "read_banner dr k host w =
     (case dr_read dr k BANNER_BYTES w of
        (Inl (OtherException e), w1) \<Rightarrow> (Inl (OsExn (OtherException e)), w1)
      | (first, w1) \<Rightarrow>
          (case (case first of Inr raw \<Rightarrow> raw | Inl _ \<Rightarrow> []) of
             b # bs \<Rightarrow> (Inr (utf8_decode (b # bs)), w1)
           | [] \<Rightarrow>
               (case dr_send dr k (http_get ''/'' host) w1 of
                  (Inl e, w2) \<Rightarrow> (if caught e then Inr [] else Inl (OsExn e), w2)
                | (Inr _, w2) \<Rightarrow>
                    (case dr_read dr k BANNER_BYTES w2 of
                       (Inl e, w3) \<Rightarrow> (if caught e then Inr [] else Inl (OsExn e), w3)
                     | (Inr raw, w3) \<Rightarrow> (Inr (utf8_decode raw), w3)))))"

definition guess_for :: "unicode_db \<Rightarrow> ustr \<Rightarrow> int \<Rightarrow> service_guess" where
  "guess_for db banner port =
     (let from_banner =
        (if banner = [] then None
         else (case identify_from_banner db banner of
                 Some g \<Rightarrow> Some g
               | None \<Rightarrow>
                   (case re_search db HTTP_SERVER_HEADER banner of
                      None \<Rightarrow> None
                    | Some header \<Rightarrow> Some (identify_from_http_server_header db
                        (case re_group banner header 1 of Some h \<Rightarrow> h | None \<Rightarrow> [])))))
      in case from_banner of
           Some g \<Rightarrow> g
         | None \<Rightarrow> (case service_name_for_port port of
                     Some g \<Rightarrow> g
                   | None \<Rightarrow> \<lparr>sg_service = ''unknown'', sg_product = None, sg_version = None,
                       sg_confidence = ConfLow\<rparr>))"

text \<open>Python's \<open>x or y\<close> on an optional text.\<close>

definition given :: "'a list option \<Rightarrow> 'a list option" where
  "given x = (case x of Some [] \<Rightarrow> None | _ \<Rightarrow> x)"

definition json_text :: "(ustr \<Rightarrow> py_str) \<Rightarrow> ustr option \<Rightarrow> json" where
  "json_text enc x = (case x of None \<Rightarrow> JNull | Some s \<Rightarrow> JStr (enc s))"

definition service_finding :: "(ustr \<Rightarrow> py_str) \<Rightarrow> (py_str \<Rightarrow> int option \<Rightarrow> int) \<Rightarrow> py_str \<Rightarrow> int \<Rightarrow>
    service_guess \<Rightarrow> ustr \<Rightarrow> bool \<Rightarrow> finding" where
  "service_finding enc seen host port g banner use_tls =
     (let described = (case given (sg_product g) of Some p \<Rightarrow> enc p | None \<Rightarrow> sg_service g);
          version_part = (case given (sg_version g) of Some v \<Rightarrow> '' '' @ enc v | None \<Rightarrow> '''');
          transport = (if use_tls then ''tls'' else ''tcp'')
      in \<lparr>f_host = host, f_category = FindPortService, f_kind = ''service.detected'',
          f_title = host @ '':'' @ str_of_int port @ ''/tcp runs '' @ described @ version_part,
          f_summary = ''Identified as '' @ described @ version_part @ '' (''
            @ confidence_str (sg_confidence g) @ '' confidence, '' @ transport @ '').''
            @ (if given (sg_version g) = None then '' The service did not state a version.'' else ''''),
          f_module = service_detect_name, f_identity_key = ''service/'' @ str_of_int port,
          f_port = Some port,
          f_normalized_value = [(''port'', JInt port), (''service'', JStr (sg_service g)),
            (''product'', json_text enc (sg_product g)), (''version'', json_text enc (sg_version g)),
            (''transport'', JStr transport)],
          f_raw_evidence = (if banner = [] then None else Some (enc (take 2000 banner))),
          f_confidence = Some (sg_confidence g), f_sources = [], f_observed_at = seen host (Some port)\<rparr>)"

definition identify :: "unicode_db \<Rightarrow> (ustr \<Rightarrow> py_str) \<Rightarrow> ('w, 'k) dialer \<Rightarrow> (py_str \<Rightarrow> int option \<Rightarrow> int) \<Rightarrow>
    module_context \<Rightarrow> py_str \<times> int \<Rightarrow> 'w \<Rightarrow> (guard_exn + finding option) \<times> 'w" where
  "identify db enc dr seen cx = (\<lambda>(host, port) w.
     if pr_cancelled dr w then (Inr None, w)
     else (case address_for (cx_target cx) host of
             None \<Rightarrow> (Inr None, w)
           | Some address \<Rightarrow>
               (let use_tls = port \<in> set TLS_PORTS in
                case dr_open dr address port use_tls w of
                  (Inl (OsExn e), w1) \<Rightarrow> (if caught e then Inr None else Inl (OsExn e), w1)
                | (Inl e, w1) \<Rightarrow> (Inl e, w1)
                | (Inr stream, w1) \<Rightarrow>
                    (case read_banner dr (stream_socket stream) host w1 of
                       (Inl e, w2) \<Rightarrow> (Inl e, dr_close dr (stream_socket stream) w2)
                     | (Inr banner, w2) \<Rightarrow>
                         (Inr (Some (service_finding enc seen host port (guess_for db banner port) banner use_tls)),
                          dr_close dr (stream_socket stream) w2)))))"

definition no_service_warning :: py_str where
  "no_service_warning = ''no open ports were available from this scan, so no service could be identified''"

definition service_budget_warning :: py_str where
  "service_budget_warning = ''the governor's probe budget was reached; some open ports were not identified''"

definition service_detect_run :: "unicode_db \<Rightarrow> (ustr \<Rightarrow> py_str) \<Rightarrow> ('w, 'k) dialer \<Rightarrow>
    (py_str \<Rightarrow> int option \<Rightarrow> int) \<Rightarrow> module_context \<Rightarrow> 'w \<Rightarrow> (run_exn + module_result) \<times> 'w" where
  "service_detect_run db enc dr seen cx w =
     (if open_ports_by_host cx = []
      then (Inr \<lparr>mr_findings = [], mr_cache_hit = False, mr_warnings = [no_service_warning]\<rparr>, w)
      else
        (case for_waves note_outcome (waves 32 (map (identify db enc dr seen cx) (open_port_tasks cx)))
                ([], False) w of
           (Inl e, w1) \<Rightarrow> (Inl e, w1)
         | (Inr (findings, budget_reached), w1) \<Rightarrow>
             (Inr \<lparr>mr_findings = findings, mr_cache_hit = False,
                mr_warnings = (if budget_reached then [service_budget_warning] else [])\<rparr>, w1)))"

section \<open>It stays within the contract of its dialer\<close>

context conversation
begin

lemma read_banner_steps:
  assumes "sayable (http_get ''/'' host)" and "inv w" and "read_banner dr k host w = (r, w')"
  shows "step w w'"
proof -
  obtain r1 w1 where one: "dr_read dr k BANNER_BYTES w = (r1, w1)" by (cases "dr_read dr k BANNER_BYTES w")
  obtain r2 w2 where two: "dr_send dr k (http_get ''/'' host) w1 = (r2, w2)"
    by (cases "dr_send dr k (http_get ''/'' host) w1")
  obtain r3 w3 where three: "dr_read dr k BANNER_BYTES w2 = (r3, w3)" by (cases "dr_read dr k BANNER_BYTES w2")
  have e1: "step w w1" using read_step [OF assms(2) one] .
  have e2: "step w1 w2" using send_step [OF step_inv [OF e1] assms(1) two] .
  have e3: "step w2 w3" using read_step [OF step_inv [OF e2] three] .
  have "w' \<in> {w1, w2, w3}"
    using assms(3) by (auto simp: read_banner_def one two three split: sum.splits os_error.splits list.splits)
  then show ?thesis using e1 e2 e3 step_trans by blast
qed

lemma identify_steps:
  assumes "sayable (http_get ''/'' host)" and "inv w"
    and "identify db enc dr seen cx (host, port) w = (r, w')"
  shows "step w w'"
proof (cases "pr_cancelled dr w \<or> address_for (cx_target cx) host = None")
  case True
  then show ?thesis using assms step_refl by (auto simp: identify_def split: option.splits)
next
  case False
  then obtain a where a: "\<not> pr_cancelled dr w" "address_for (cx_target cx) host = Some a" by auto
  obtain r1 w1 where o: "dr_open dr a port (port \<in> set TLS_PORTS) w = (r1, w1)"
    by (cases "dr_open dr a port (port \<in> set TLS_PORTS) w")
  have e1: "step w w1" using open_step [OF assms(2) o] .
  show ?thesis
  proof (cases r1)
    case (Inl e)
    then show ?thesis using assms(3) e1 by (cases e) (auto simp: identify_def a o)
  next
    case (Inr stream)
    obtain r2 w2 where b: "read_banner dr (stream_socket stream) host w1 = (r2, w2)"
      by (cases "read_banner dr (stream_socket stream) host w1")
    have e2: "step w1 w2" using read_banner_steps [OF assms(1) step_inv [OF e1] b] .
    have "w' = dr_close dr (stream_socket stream) w2"
      using assms(3) by (auto simp: identify_def a o Inr b Let_def split: sum.splits)
    then show ?thesis using e1 e2 close_step step_inv step_trans by metis
  qed
qed

lemma service_detect_run_steps:
  assumes says: "\<And>host port. (host, port) \<in> set (open_port_tasks cx) \<Longrightarrow> sayable (http_get ''/'' host)"
    and "inv w" and "service_detect_run db enc dr seen cx w = (r, w')"
  shows "step w w'"
proof -
  from assms(3) consider "w' = w" | r1 where "for_waves note_outcome
      (waves 32 (map (identify db enc dr seen cx) (open_port_tasks cx))) ([], False) w = (r1, w')"
    by (auto simp: service_detect_run_def split: sum.splits prod.splits if_splits)
  then show ?thesis
  proof cases
    case 2
    have "keeps (identify db enc dr seen cx hp)" if "hp \<in> set (open_port_tasks cx)" for hp
    proof -
      obtain host port where hp: "hp = (host, port)" by (cases hp)
      show ?thesis using that says unfolding hp by (intro keepsI identify_steps)
    qed
    from waves_map_steps [OF this assms(2) 2] show ?thesis .
  qed (simp add: step_refl assms(2))
qed

end

section \<open>What it reports\<close>

lemma group_chars_True: "group_chars db (\<lambda>i c. i = n \<longrightarrow> True) r"
  by (induction r) (auto simp: rx_chars_True)

lemma guess_for_stated: "guess_stated db banner (guess_for db banner port)"
proof -
  have fallback: "guess_stated db banner g" if "sg_version g = None" "sg_confidence g = ConfLow" for g
    using that by (simp add: guess_stated_def)
  have header: "guess_stated db banner (identify_from_http_server_header db h)"
    if m: "re_search db HTTP_SERVER_HEADER banner = Some m"
      and h: "h = (case re_group banner m 1 of Some h \<Rightarrow> h | None \<Rightarrow> [])" for m h
  proof -
    have "sublist h banner"
      using search_group [OF m _ _ group_chars_True, of 1] h by (cases "re_group banner m 1") auto
    then show ?thesis
      using header_stated [of db h] sublist_order.order_trans
      by (auto simp: guess_stated_def split: option.splits)
  qed
  show ?thesis
    using identify_stated [of db banner] header fallback
    by (auto simp: guess_for_def Let_def service_name_for_port_def split: option.splits)
qed

lemma identify_finding:
  assumes "identify db enc dr seen cx (host, port) w = (Inr (Some f), w')"
  shows "\<exists>banner. f = service_finding enc seen host port (guess_for db banner port) banner (port \<in> set TLS_PORTS)"
  using assms by (auto simp: identify_def Let_def split: if_splits option.splits sum.splits prod.splits
      guard_exn.splits)


text \<open>An OpenSSH server on the lab host.\<close>

definition text_of_latin1 :: "ustr \<Rightarrow> py_str" where "text_of_latin1 s = map char_of s"

definition ssh_text :: ustr where
  "ssh_text = [83, 83, 72, 45, 50, 46, 48, 45, 79, 112, 101, 110, 83, 83, 72, 95, 57, 46, 54]"

definition ssh_dialer :: "(nat, unit) dialer" where
  "ssh_dialer = \<lparr>pr_connect = (\<lambda>_ _ w. (Inr (), w)), pr_cancelled = (\<lambda>_. False),
     dr_open = (\<lambda>_ _ _ w. (Inr \<lparr>stream_socket = (), stream_tls = None\<rparr>, w)),
     dr_read = (\<lambda>_ _ w. (Inr ssh_text, Suc w)), dr_send = (\<lambda>_ _ w. (Inr (), Suc w)),
     dr_close = (\<lambda>_ w. w)\<rparr>"

definition ssh_context :: module_context where
  "ssh_context = lab_context\<lparr>cx_prior_findings := [open_finding (\<lambda>_ _. 0) ''192.168.1.10'' 22]\<rparr>"

definition ssh_guess :: service_guess where
  "ssh_guess = \<lparr>sg_service = ''ssh'', sg_product = Some (uni ''OpenSSH''), sg_version = Some (uni ''9.6''),
     sg_confidence = ConfHigh\<rparr>"

lemma ssh_guessed: "guess_for no_unicode ssh_text 22 = ssh_guess"
proof -
  let ?e = "BANNER_PATTERNS ! 0"
  have "re_search no_unicode (bp_pattern ?e) ssh_text = Some \<lparr>mt_start = 0, mt_end = 19, mt_groups = [(1, 16, 19)]\<rparr>"
    by (simp add: re_search_def upt_conv_Cons match_at_def BANNER_PATTERNS_def class_defs Let_def
        run_length_def fold_case_def u_digit_def u_word_def latin1_alnum_def ssh_text_def)
  then have "try_pattern no_unicode ssh_text ?e = Some ssh_guess"
    by (simp add: try_pattern_def stated_version_def version_confidence_def re_group_def u_slice_def
        uni_def ssh_text_def ssh_guess_def) (simp add: BANNER_PATTERNS_def)
  moreover have "BANNER_PATTERNS = ?e # drop 1 BANNER_PATTERNS" by (simp add: BANNER_PATTERNS_def)
  ultimately have "identify_from_banner no_unicode ssh_text = Some ssh_guess"
    unfolding identify_from_banner_def by (metis first_some.simps(2) option.case(2))
  then show ?thesis by (simp add: guess_for_def ssh_text_def)
qed

definition ssh_finding :: finding where
  "ssh_finding = service_finding text_of_latin1 (\<lambda>_ _. 0) ''192.168.1.10'' 22 ssh_guess ssh_text False"

lemma ssh_tasks: "open_port_tasks ssh_context = [(''192.168.1.10'', 22)]"
  and ssh_open: "open_ports_by_host ssh_context = [(''192.168.1.10'', [22])]"
  by (simp_all add: open_port_tasks_def open_ports_by_host_def ssh_context_def open_finding_def append_at_def)

lemma ssh_decoded: "utf8_decode ssh_text = ssh_text"
  by (rule utf8_decode_ascii) (simp add: ssh_text_def)

lemma ssh_address: "address_for (cx_target ssh_context) ''192.168.1.10'' = Some lab_host"
  by (simp add: address_for_def ssh_context_def lab_context_def lab_target_def)

lemma ssh_banner: "read_banner ssh_dialer () host w = (Inr ssh_text, Suc w)"
proof -
  have "ssh_text \<noteq> []" by (simp add: ssh_text_def)
  then show ?thesis using ssh_decoded by (simp add: read_banner_def ssh_dialer_def list.case_eq_if)
qed

lemma ssh_identified:
  "identify no_unicode text_of_latin1 ssh_dialer (\<lambda>_ _. 0) ssh_context (''192.168.1.10'', 22) w
     = (Inr (Some ssh_finding), Suc w)"
proof -
  have "pr_cancelled ssh_dialer w = False"
    "dr_open ssh_dialer a p tls w = (Inr \<lparr>stream_socket = (), stream_tls = None\<rparr>, w)"
    "dr_close ssh_dialer k w' = w'" for a p tls k w' by (simp_all add: ssh_dialer_def)
  moreover have "22 \<notin> set TLS_PORTS" by (simp add: TLS_PORTS_def)
  ultimately show ?thesis
    by (simp add: identify_def ssh_address ssh_banner ssh_guessed ssh_finding_def)
qed

lemma ssh_detected:
  "service_detect_run no_unicode text_of_latin1 ssh_dialer (\<lambda>_ _. 0) ssh_context 0
     = (Inr \<lparr>mr_findings = [ssh_finding], mr_cache_hit = False, mr_warnings = []\<rparr>, 1)"
  by (simp add: service_detect_run_def ssh_tasks ssh_open waves_def ssh_identified note_outcome_def)


end
