(* ===== verification/Protocol_Enum.thy ===== *)
theory Protocol_Enum
  imports Service_Detect
begin

text \<open>
  \<open>backend/app/modules/protocol_enum.py\<close>: what a service publishes about itself.  Every request is
  a \<open>GET\<close> or a handshake.
\<close>

definition protocol_enum_name :: py_str where "protocol_enum_name = ''protocol_enum''"

definition READ_BYTES :: nat where "READ_BYTES = 16384"

definition TITLE_PATTERN :: rx where
  "TITLE_PATTERN = rx_seq [rx_lit True ''<title'', RxMany True (none_of (chars_of ''>'')), rx_lit True ''>'',
     RxGroup 1 (RxMany False (none_of [])), rx_lit True ''</title>'']"

definition STATUS_PATTERN :: rx where
  "STATUS_PATTERN = rx_seq [TextStart, rx_lit False ''HTTP/'',
     rx_plus (any_of False (ClsDigit # chars_of ''.'')), rx_plus (any_of False [ClsSpace]),
     RxGroup 1 (rx_seq [RxOne (any_of False [ClsDigit]), RxOne (any_of False [ClsDigit]),
       RxOne (any_of False [ClsDigit])])]"

definition SECURITY_HEADERS :: "py_str list" where
  "SECURITY_HEADERS = [''strict-transport-security'', ''content-security-policy'', ''x-frame-options'',
     ''x-content-type-options'', ''referrer-policy'', ''permissions-policy'']"

record http_response =
  hr_status :: "int option"
  hr_headers :: "(ustr \<times> ustr) list"
  hr_title :: "ustr option"
  hr_raw_head :: ustr

definition protocol_enum_metadata :: module_metadata where
  "protocol_enum_metadata = (module_metadata_defaults protocol_enum_name ''Read-only protocol enumeration''
     (''Collects HTTP status, headers, page title, security headers and ''
      @ ''robots.txt, plus TLS certificate subject, SAN, issuer and validity. ''
      @ ''Read-only: nothing is written, submitted, or authenticated.'')
     CatEnumeration [TargetIp, TargetCidr, TargetHost])\<lparr>md_timeout_seconds := 900, md_order := 40\<rparr>"

section \<open>Splitting a response\<close>

text \<open>\<open>text.split("\r\n\r\n", 1)\<close>: what precedes the first blank line, and what follows it.\<close>

definition blank_line :: ustr where "blank_line = [13, 10, 13, 10]"

fun split_once :: "ustr \<Rightarrow> ustr \<Rightarrow> ustr \<times> ustr option" where
  "split_once sep [] = ([], None)"
| "split_once sep (c # cs) =
     (if take (length sep) (c # cs) = sep then ([], Some (drop (length sep) (c # cs)))
      else (case split_once sep cs of (a, b) \<Rightarrow> (c # a, b)))"

text \<open>\<open>head.split("\r\n")\<close>.\<close>

fun split_crlf :: "ustr \<Rightarrow> ustr list" where
  "split_crlf [] = [[]]"
| "split_crlf (c # cs) =
     (if c = 13 \<and> take 1 cs = [10] then [] # split_crlf (drop 1 cs)
      else (case split_crlf cs of l # ls \<Rightarrow> (c # l) # ls | [] \<Rightarrow> [[c]]))"

definition COLON :: nat where "COLON = 58"

text \<open>\<open>line.partition(":")\<close>, the name stripped and lowered; a later line replaces an earlier one.\<close>

definition add_header :: "unicode_db \<Rightarrow> ustr \<Rightarrow> (ustr \<times> ustr) list \<Rightarrow> (ustr \<times> ustr) list" where
  "add_header db line headers =
     (if COLON \<in> set line
      then dict_set headers (u_lower db (u_strip db (takeWhile (\<lambda>c. c \<noteq> COLON) line)))
             (u_strip db (drop 1 (dropWhile (\<lambda>c. c \<noteq> COLON) line)))
      else headers)"

definition headers_of :: "unicode_db \<Rightarrow> ustr \<Rightarrow> (ustr \<times> ustr) list" where
  "headers_of db head = fold (add_header db) (drop 1 (split_crlf head)) []"

definition group_1 :: "ustr \<Rightarrow> rx_result \<Rightarrow> ustr" where
  "group_1 text m = (case re_group text m 1 of Some t \<Rightarrow> t | None \<Rightarrow> [])"

definition parse_response :: "unicode_db \<Rightarrow> ustr \<Rightarrow> http_response option" where
  "parse_response db text =
     (case re_match db STATUS_PATTERN text of
        None \<Rightarrow> None
      | Some status \<Rightarrow>
          Some \<lparr>hr_status = Some (int (u_int db (group_1 text status))),
            hr_headers = headers_of db (fst (split_once blank_line text)),
            hr_title = (case re_search db TITLE_PATTERN text of
                          None \<Rightarrow> None
                        | Some title \<Rightarrow> Some (take 200 (u_strip db (group_1 text title)))),
            hr_raw_head = text\<rparr>)"

text \<open>\<open>_fetch\<close>: one request, one read.\<close>

definition fetch :: "unicode_db \<Rightarrow> ('w, 'k) dialer \<Rightarrow> 'k \<Rightarrow> py_str \<Rightarrow> py_str \<Rightarrow> 'w \<Rightarrow>
    (guard_exn + http_response option) \<times> 'w" where
  "fetch db dr k host path w =
     (case dr_send dr k (http_get path host) w of
        (Inl e, w1) \<Rightarrow> (if caught e then Inr None else Inl (OsExn e), w1)
      | (Inr _, w1) \<Rightarrow>
          (case dr_read dr k READ_BYTES w1 of
             (Inl e, w2) \<Rightarrow> (if caught e then Inr None else Inl (OsExn e), w2)
           | (Inr raw, w2) \<Rightarrow>
               (Inr (if raw = [] then None else parse_response db (utf8_decode raw)), w2)))"

section \<open>Certificates\<close>

text \<open>
  What the library makes of a certificate, or its exception; \<open>cert_san\<close> is the extension, which it
  may lack or fail to read.
\<close>

datatype san_lookup = SanNames "ustr list" | SanNotFound | SanUnreadable

record x509 =
  x5_subject :: ustr
  x5_issuer :: ustr
  x5_serial_number :: int
  x5_not_before :: py_str
  x5_not_after :: py_str
  x5_san :: san_lookup
  x5_names_equal :: bool

record certificate_details =
  cd_subject :: ustr
  cd_issuer :: ustr
  cd_serial :: py_str
  cd_not_before :: py_str
  cd_not_after :: py_str
  cd_san :: "ustr list"
  cd_self_signed :: bool

definition parse_certificate :: "(nat list \<Rightarrow> x509 option) \<Rightarrow> nat list \<Rightarrow> certificate_details option" where
  "parse_certificate load_der der =
     (case load_der der of
        None \<Rightarrow> None
      | Some c \<Rightarrow>
          (let details = (\<lambda>san. \<lparr>cd_subject = x5_subject c, cd_issuer = x5_issuer c,
             cd_serial = (if x5_serial_number c < 0 then ''-'' else '''') @ hex_of_nat (nat \<bar>x5_serial_number c\<bar>),
             cd_not_before = x5_not_before c, cd_not_after = x5_not_after c,
             cd_san = san, cd_self_signed = x5_names_equal c\<rparr>)
           in case x5_san c of
                SanNames names \<Rightarrow> Some (details names)
              | SanNotFound \<Rightarrow> Some (details [])
              | SanUnreadable \<Rightarrow> None))"

definition enumeration_finding :: "(py_str \<Rightarrow> int option \<Rightarrow> int) \<Rightarrow> py_str \<Rightarrow> int \<Rightarrow> py_str \<Rightarrow> py_str \<Rightarrow> py_str \<Rightarrow>
    py_str \<Rightarrow> json_object \<Rightarrow> py_str option \<Rightarrow> confidence \<Rightarrow> finding" where
  "enumeration_finding seen host port kind title summary key value_of evidence conf =
     \<lparr>f_host = host, f_category = FindEnumeration, f_kind = kind, f_title = title, f_summary = summary,
       f_module = protocol_enum_name, f_identity_key = key @ ''/'' @ str_of_int port, f_port = Some port,
       f_normalized_value = value_of, f_raw_evidence = evidence, f_confidence = Some conf, f_sources = [],
       f_observed_at = seen host (Some port)\<rparr>"

definition or_else :: "'a list option \<Rightarrow> 'a list \<Rightarrow> 'a list" where
  "or_else x fallback = (case given x of Some v \<Rightarrow> v | None \<Rightarrow> fallback)"

definition opt_json :: "py_str option \<Rightarrow> json" where
  "opt_json x = (case x of None \<Rightarrow> JNull | Some s \<Rightarrow> JStr s)"

definition at_port_text :: "py_str \<Rightarrow> int \<Rightarrow> py_str" where
  "at_port_text host port = host @ '':'' @ str_of_int port"

definition certificate_finding :: "(ustr \<Rightarrow> py_str) \<Rightarrow> (nat list \<Rightarrow> x509 option) \<Rightarrow>
    (py_str \<Rightarrow> int option \<Rightarrow> int) \<Rightarrow> py_str \<Rightarrow> int \<Rightarrow> tls_info \<Rightarrow> finding option" where
  "certificate_finding enc load_der seen host port tls =
     (case certificate_der tls of
        None \<Rightarrow> None
      | Some der \<Rightarrow>
          (case parse_certificate load_der der of
             None \<Rightarrow>
               Some (enumeration_finding seen host port ''tls.session'' (at_port_text host port @ '' negotiated TLS'')
                 (''Negotiated '' @ or_else (tls_protocol tls) ''TLS'' @ '' with cipher ''
                  @ or_else (tls_cipher tls) ''unknown''
                  @ ''. The certificate could not be parsed and is reported as unreadable rather ''
                  @ ''than assumed valid.'')
                 ''tls'' [(''port'', JInt port), (''protocol'', opt_json (tls_protocol tls)),
                          (''cipher'', opt_json (tls_cipher tls))] None ConfMedium)
           | Some d \<Rightarrow>
               Some (enumeration_finding seen host port ''tls.cert''
                 (at_port_text host port @ '' presents a TLS certificate for ''
                  @ (if cd_subject d = [] then ''an unnamed subject'' else enc (cd_subject d)))
                 (''Issued by '' @ (if cd_issuer d = [] then ''an unnamed issuer'' else enc (cd_issuer d))
                  @ '', valid '' @ cd_not_before d @ '' to '' @ cd_not_after d
                  @ (if cd_san d = [] then '''' else '', SAN: '' @ join '', '' (map enc (take 5 (cd_san d))))
                  @ ''. Negotiated '' @ or_else (tls_protocol tls) ''TLS'' @ ''.'')
                 ''tls'' [(''port'', JInt port), (''protocol'', opt_json (tls_protocol tls)),
                          (''cipher'', opt_json (tls_cipher tls)),
                          (''subject'', JStr (enc (cd_subject d))), (''issuer'', JStr (enc (cd_issuer d))),
                          (''serial'', JStr (cd_serial d)), (''not_before'', JStr (cd_not_before d)),
                          (''not_after'', JStr (cd_not_after d)),
                          (''san'', JList (map (JStr \<circ> enc) (cd_san d))),
                          (''self_signed'', JBool (cd_self_signed d))] None ConfHigh)))"

section \<open>Findings of one response\<close>

definition has_header :: "http_response \<Rightarrow> py_str \<Rightarrow> bool" where
  "has_header response name = dict_has (hr_headers response) (uni name)"

definition server_of :: "http_response \<Rightarrow> ustr option" where
  "server_of response = map_of (hr_headers response) (uni ''server'')"

definition http_findings :: "(ustr \<Rightarrow> py_str) \<Rightarrow> (py_str \<Rightarrow> int option \<Rightarrow> int) \<Rightarrow> py_str \<Rightarrow> int \<Rightarrow>
    http_response \<Rightarrow> bool \<Rightarrow> finding list" where
  "http_findings enc seen host port response use_tls =
     (let scheme = (if use_tls then ''https'' else ''http'');
          present = filter (has_header response) SECURITY_HEADERS;
          missing = filter (\<lambda>name. \<not> has_header response name) SECURITY_HEADERS;
          bits = [''HTTP '' @ (case hr_status response of Some n \<Rightarrow> str_of_int n | None \<Rightarrow> ''None'')]
            @ (case given (server_of response) of Some s \<Rightarrow> [''Server: '' @ enc s] | None \<Rightarrow> [])
            @ (case given (hr_title response) of Some t \<Rightarrow> [''Title: '' @ enc t] | None \<Rightarrow> [])
      in [enumeration_finding seen host port ''http.response''
            (at_port_text host port @ '' answered an HTTP request ('' @ scheme @ '')'')
            (join ''. '' bits @ ''.'') ''http''
            [(''port'', JInt port), (''scheme'', JStr scheme),
             (''status'', case hr_status response of Some n \<Rightarrow> JInt n | None \<Rightarrow> JNull),
             (''server'', json_text enc (server_of response)), (''title'', json_text enc (hr_title response)),
             (''security_headers_present'', JList (map JStr present)),
             (''security_headers_missing'', JList (map JStr missing))]
            (Some (enc (take 2000 (fst (split_once blank_line (hr_raw_head response)))))) ConfHigh])"

definition robots_finding :: "unicode_db \<Rightarrow> (ustr \<Rightarrow> py_str) \<Rightarrow> (py_str \<Rightarrow> int option \<Rightarrow> int) \<Rightarrow> py_str \<Rightarrow> int \<Rightarrow>
    http_response option \<Rightarrow> finding option" where
  "robots_finding db enc seen host port fetched =
     (case fetched of
        None \<Rightarrow> None
      | Some response \<Rightarrow>
          if hr_status response \<noteq> Some 200 then None
          else (let content = (case snd (split_once blank_line (hr_raw_head response)) of Some b \<Rightarrow> b | None \<Rightarrow> []) in
                if u_strip db content = [] then None
                else Some (enumeration_finding seen host port ''http.robots''
                  (at_port_text host port @ '' publishes robots.txt'')
                  (''robots.txt returned '' @ str_of_nat (length content) @ '' characters of directives.'')
                  ''robots'' [(''port'', JInt port), (''length'', JInt (int (length content)))]
                  (Some (enc (take 2000 content))) ConfHigh)))"

section \<open>One port, and all of them\<close>

definition fetch_path :: "unicode_db \<Rightarrow> (ustr \<Rightarrow> py_str) \<Rightarrow> ('w, 'k) dialer \<Rightarrow> (py_str \<Rightarrow> int option \<Rightarrow> int) \<Rightarrow>
    py_str \<Rightarrow> int \<Rightarrow> ip_address \<Rightarrow> bool \<Rightarrow> py_str \<Rightarrow> 'w \<Rightarrow> (guard_exn + finding option) \<times> 'w" where
  "fetch_path db enc dr seen host port address use_tls path w =
     (case dr_open dr address port use_tls w of
        (Inl (OsExn e), w1) \<Rightarrow> (if caught e then Inr None else Inl (OsExn e), w1)
      | (Inl e, w1) \<Rightarrow> (Inl e, w1)
      | (Inr stream, w1) \<Rightarrow>
          (case fetch db dr (stream_socket stream) host path w1 of
             (Inl e, w2) \<Rightarrow> (Inl e, dr_close dr (stream_socket stream) w2)
           | (Inr response, w2) \<Rightarrow>
               (Inr (robots_finding db enc seen host port response), dr_close dr (stream_socket stream) w2)))"

definition list_of :: "'a option \<Rightarrow> 'a list" where
  "list_of x = (case x of Some y \<Rightarrow> [y] | None \<Rightarrow> [])"

definition enumerate_port :: "unicode_db \<Rightarrow> (ustr \<Rightarrow> py_str) \<Rightarrow> (nat list \<Rightarrow> x509 option) \<Rightarrow> ('w, 'k) dialer \<Rightarrow>
    (py_str \<Rightarrow> int option \<Rightarrow> int) \<Rightarrow> module_context \<Rightarrow> py_str \<times> int \<Rightarrow> 'w \<Rightarrow> (guard_exn + finding list) \<times> 'w" where
  "enumerate_port db enc load_der dr seen cx = (\<lambda>(host, port) w.
     if pr_cancelled dr w then (Inr [], w)
     else (case address_for (cx_target cx) host of
             None \<Rightarrow> (Inr [], w)
           | Some address \<Rightarrow>
               (let use_tls = port \<in> set TLS_PORTS in
                case dr_open dr address port use_tls w of
                  (Inl (OsExn e), w1) \<Rightarrow> (if caught e then Inr [] else Inl (OsExn e), w1)
                | (Inl e, w1) \<Rightarrow> (Inl e, w1)
                | (Inr stream, w1) \<Rightarrow>
                    (let certificate = (case stream_tls stream of
                           None \<Rightarrow> None
                         | Some tls \<Rightarrow> certificate_finding enc load_der seen host port tls) in
                     case fetch db dr (stream_socket stream) host ''/'' w1 of
                       (Inl e, w2) \<Rightarrow> (Inl e, dr_close dr (stream_socket stream) w2)
                     | (Inr response, w2) \<Rightarrow>
                         (let findings = list_of certificate
                                @ (case response of
                                     None \<Rightarrow> []
                                   | Some r \<Rightarrow> http_findings enc seen host port r use_tls) in
                          case fetch_path db enc dr seen host port address use_tls ''/robots.txt''
                                 (dr_close dr (stream_socket stream) w2) of
                            (Inl e, w3) \<Rightarrow> (Inl e, w3)
                          | (Inr robots, w3) \<Rightarrow> (Inr (findings @ list_of robots), w3))))))"

definition nothing_to_enumerate_warning :: py_str where
  "nothing_to_enumerate_warning = ''no open ports were available from this scan to enumerate''"

definition enumeration_budget_warning :: py_str where
  "enumeration_budget_warning = ''the governor's probe budget was reached; some ports were not enumerated''"

definition protocol_enum_run :: "unicode_db \<Rightarrow> (ustr \<Rightarrow> py_str) \<Rightarrow> (nat list \<Rightarrow> x509 option) \<Rightarrow> ('w, 'k) dialer \<Rightarrow>
    (py_str \<Rightarrow> int option \<Rightarrow> int) \<Rightarrow> module_context \<Rightarrow> 'w \<Rightarrow> (run_exn + module_result) \<times> 'w" where
  "protocol_enum_run db enc load_der dr seen cx w =
     (if open_ports_by_host cx = []
      then (Inr \<lparr>mr_findings = [], mr_cache_hit = False, mr_warnings = [nothing_to_enumerate_warning]\<rparr>, w)
      else
        (case for_waves note_outcomes (waves 16 (map (enumerate_port db enc load_der dr seen cx) (open_port_tasks cx)))
                ([], False) w of
           (Inl e, w1) \<Rightarrow> (Inl e, w1)
         | (Inr (findings, budget_reached), w1) \<Rightarrow>
             (Inr \<lparr>mr_findings = findings, mr_cache_hit = False,
                mr_warnings = (if budget_reached then [enumeration_budget_warning] else [])\<rparr>, w1)))"

section \<open>It stays within the contract of its dialer\<close>

context conversation
begin

lemma fetch_steps:
  assumes "sayable (http_get path host)" and "inv w" and "fetch db dr k host path w = (r, w')"
  shows "step w w'"
proof -
  obtain r1 w1 where one: "dr_send dr k (http_get path host) w = (r1, w1)"
    by (cases "dr_send dr k (http_get path host) w")
  obtain r2 w2 where two: "dr_read dr k READ_BYTES w1 = (r2, w2)" by (cases "dr_read dr k READ_BYTES w1")
  have e1: "step w w1" using send_step [OF assms(2,1) one] .
  have e2: "step w1 w2" using read_step [OF step_inv [OF e1] two] .
  have "w' \<in> {w1, w2}" using assms(3) by (auto simp: fetch_def one two split: sum.splits)
  then show ?thesis using e1 e2 step_trans by blast
qed

lemma fetch_path_steps:
  assumes "sayable (http_get path host)" and "inv w"
    and "fetch_path db enc dr seen host port a tls path w = (r, w')"
  shows "step w w'"
proof -
  obtain r1 w1 where o: "dr_open dr a port tls w = (r1, w1)" by (cases "dr_open dr a port tls w")
  have e1: "step w w1" using open_step [OF assms(2) o] .
  show ?thesis
  proof (cases r1)
    case (Inl e)
    then show ?thesis using assms(3) e1 by (cases e) (auto simp: fetch_path_def o)
  next
    case (Inr stream)
    obtain r2 w2 where b: "fetch db dr (stream_socket stream) host path w1 = (r2, w2)"
      by (cases "fetch db dr (stream_socket stream) host path w1")
    have e2: "step w1 w2" using fetch_steps [OF assms(1) step_inv [OF e1] b] .
    have "w' = dr_close dr (stream_socket stream) w2"
      using assms(3) by (auto simp: fetch_path_def o Inr b split: sum.splits)
    then show ?thesis using e1 e2 close_step step_inv step_trans by metis
  qed
qed

lemma enumerate_port_steps:
  assumes "sayable (http_get ''/'' host)" and "sayable (http_get ''/robots.txt'' host)" and "inv w"
    and "enumerate_port db enc load_der dr seen cx (host, port) w = (r, w')"
  shows "step w w'"
proof (cases "pr_cancelled dr w \<or> address_for (cx_target cx) host = None")
  case True
  then show ?thesis using assms step_refl by (auto simp: enumerate_port_def split: option.splits)
next
  case False
  then obtain a where a: "\<not> pr_cancelled dr w" "address_for (cx_target cx) host = Some a" by auto
  let ?tls = "port \<in> set TLS_PORTS"
  obtain r1 w1 where o: "dr_open dr a port ?tls w = (r1, w1)" by (cases "dr_open dr a port ?tls w")
  have e1: "step w w1" using open_step [OF assms(3) o] .
  show ?thesis
  proof (cases r1)
    case (Inl e)
    then show ?thesis using assms(4) e1 by (cases e) (auto simp: enumerate_port_def a o)
  next
    case (Inr stream)
    let ?k = "stream_socket stream"
    obtain r2 w2 where b: "fetch db dr ?k host ''/'' w1 = (r2, w2)" by (cases "fetch db dr ?k host ''/'' w1")
    obtain r3 w3 where c: "fetch_path db enc dr seen host port a ?tls ''/robots.txt'' (dr_close dr ?k w2) = (r3, w3)"
      by (cases "fetch_path db enc dr seen host port a ?tls ''/robots.txt'' (dr_close dr ?k w2)")
    have e2: "step w1 w2" using fetch_steps [OF assms(1) step_inv [OF e1] b] .
    have e3: "step w2 (dr_close dr ?k w2)" using close_step [OF step_inv [OF e2]] .
    have e4: "step (dr_close dr ?k w2) w3" using fetch_path_steps [OF assms(2) step_inv [OF e3] c] .
    have "w' \<in> {dr_close dr ?k w2, w3}"
      using assms(4) by (auto simp: enumerate_port_def a o Inr b c Let_def split: sum.splits)
    then show ?thesis using e1 e2 e3 e4 step_trans by blast
  qed
qed

lemma protocol_enum_run_steps:
  assumes says: "\<And>host port. (host, port) \<in> set (open_port_tasks cx) \<Longrightarrow>
      sayable (http_get ''/'' host) \<and> sayable (http_get ''/robots.txt'' host)"
    and "inv w" and "protocol_enum_run db enc load_der dr seen cx w = (r, w')"
  shows "step w w'"
proof -
  from assms(3) consider "w' = w" | r1 where "for_waves note_outcomes
      (waves 16 (map (enumerate_port db enc load_der dr seen cx) (open_port_tasks cx))) ([], False) w = (r1, w')"
    by (auto simp: protocol_enum_run_def split: sum.splits prod.splits if_splits)
  then show ?thesis
  proof cases
    case 2
    have "keeps (enumerate_port db enc load_der dr seen cx hp)" if "hp \<in> set (open_port_tasks cx)" for hp
    proof -
      obtain host port where hp: "hp = (host, port)" by (cases hp)
      show ?thesis using that says unfolding hp by (intro keepsI enumerate_port_steps) blast+
    qed
    from waves_map_steps [OF this assms(2) 2] show ?thesis .
  qed (simp add: step_refl assms(2))
qed

end

section \<open>What is said, and what is reported\<close>

text \<open>C9. Service detection and enumeration are read-only and stay in scope.  Whatever the peers
  answer, and whatever has been exchanged before, all that a run of either module writes to a stream
  is a \<open>GET\<close> of the root or of \<open>/robots.txt\<close>, without credentials and without a body, naming a host
  that the port scan of the same scan found open; and the connections it asks for are permitted ones.\<close>

theorem enumeration_is_read_only:
  assumes "slots_free (w_governor w)"
    and "service_detect_run db enc (guard_dialer sink scope os upgrade io target cancelled) seen cx (w, h)
        = (r, (w', h'))
      \<or> protocol_enum_run db enc load_der (guard_dialer sink scope os upgrade io target cancelled) seen cx (w, h)
        = (r, (w', h'))"
  shows "\<exists>new attempts. h' = h @ new \<and> w_attempts w' = w_attempts w @ attempts
    \<and> said new \<subseteq> (\<Union>(host, port) \<in> set (open_port_tasks cx).
        {http_get ''/'' host, http_get ''/robots.txt'' host})
    \<and> list_all (permitted_attempt scope target) attempts"
proof -
  define allowed where "allowed t \<longleftrightarrow> (\<exists>(host, port) \<in> set (open_port_tasks cx).
    t = http_get ''/'' host \<or> t = http_get ''/robots.txt'' host)" for t
  have says: "allowed (http_get ''/'' host) \<and> allowed (http_get ''/robots.txt'' host)"
    if "(host, port) \<in> set (open_port_tasks cx)" for host port
    using that by (auto simp: allowed_def)
  have "dialog_step (\<lambda>w. slots_free (w_governor w)) scope target allowed (w, h) (w', h')"
    using assms(2)
  proof
    assume "service_detect_run db enc (guard_dialer sink scope os upgrade io target cancelled) seen cx (w, h)
      = (r, (w', h'))"
    from dialed.service_detect_run_steps [OF _ _ this] says assms(1) show ?thesis by simp
  next
    assume "protocol_enum_run db enc load_der (guard_dialer sink scope os upgrade io target cancelled) seen cx (w, h)
      = (r, (w', h'))"
    from dialed.protocol_enum_run_steps [OF _ _ this] says assms(1) show ?thesis by simp
  qed
  then obtain new attempts where "h' = h @ new" "\<forall>t \<in> said new. allowed t"
    and "w_attempts w' = w_attempts w @ attempts" "\<forall>x \<in> set attempts. permitted_attempt scope target x"
    by (auto simp: dialog_step_def)
  then show ?thesis
    by (intro exI [of _ new] exI [of _ attempts]) (auto simp: allowed_def list_all_iff)
qed

text \<open>A peer that greets nobody and answers every request with one response.\<close>

definition header_line :: "ustr \<times> ustr \<Rightarrow> ustr" where
  "header_line = (\<lambda>(n, v). n @ [COLON, 32] @ v)"

definition http_head :: "ustr \<Rightarrow> (ustr \<times> ustr) list \<Rightarrow> ustr" where
  "http_head status headers = status @ concat (map (\<lambda>x. [13, 10] @ header_line x) headers)"

definition http_text :: "ustr \<Rightarrow> (ustr \<times> ustr) list \<Rightarrow> ustr \<Rightarrow> ustr" where
  "http_text status headers body = http_head status headers @ blank_line @ body"

definition lab_status :: ustr where
  "lab_status = uni ''HTTP/1.1 200 OK''"

definition lab_headers :: "(ustr \<times> ustr) list" where
  "lab_headers = [(uni ''server'', uni ''nginx''), (uni ''x-frame-options'', uni ''DENY'')]"

definition lab_response :: ustr where
  "lab_response = http_text lab_status lab_headers (uni ''User-agent: *'')"

definition web_io :: "nat stream_io" where
  "web_io = \<lparr>io_read = (\<lambda>h k n. Inr lab_response), io_send = (\<lambda>h k t. Inr ())\<rparr>"

definition web_context :: module_context where
  "web_context = lab_context\<lparr>cx_prior_findings := [open_finding (\<lambda>_ _. 0) ''192.168.1.10'' 80]\<rparr>"

definition web_run :: "(run_exn + module_result) \<times> mem_ledger guard_world \<times> nat exchange list" where
  "web_run = protocol_enum_run no_unicode text_of_latin1 (\<lambda>_. None)
     (guard_dialer mem_record lab_scope open_os (\<lambda>_ _. Inr None) web_io lab_target (\<lambda>_. False))
     (\<lambda>_ _. 0) web_context (lab_world, [])"

lemma enumeration_is_read_only_witness:
  "said (snd (snd web_run)) \<subseteq> {http_get ''/'' ''192.168.1.10'', http_get ''/robots.txt'' ''192.168.1.10''}"
proof -
  have tasks: "open_port_tasks web_context = [(''192.168.1.10'', 80)]"
    by (simp add: open_port_tasks_def open_ports_by_host_def web_context_def open_finding_def append_at_def)
  have "web_run = (fst web_run, (fst (snd web_run), snd (snd web_run)))" by simp
  from enumeration_is_read_only [OF lab_slots_free disjI2 [OF this [unfolded web_run_def]]]
  show ?thesis by (auto simp: tasks web_run_def)
qed

section \<open>Reading a response\<close>

lemma split_once_fst_prefix: "prefix (fst (split_once sep s)) s"
  by (induction s) (auto split: prod.splits)

lemma split_once_fst_free: "sep \<noteq> [] \<Longrightarrow> \<not> sublist sep (fst (split_once sep s))"
proof (induction s)
  case (Cons c cs)
  show ?case
  proof (cases "take (length sep) (c # cs) = sep")
    case False
    have "prefix (fst (split_once sep (c # cs))) (c # cs)" by (rule split_once_fst_prefix)
    then have "\<not> prefix sep (fst (split_once sep (c # cs)))"
      using False by (metis prefix_order.trans append_eq_conv_conj prefix_def)
    then show ?thesis using False Cons by (auto simp: sublist_Cons_right split: prod.splits)
  qed (use Cons in simp)
qed simp

lemma split_crlf_line: "13 \<notin> set l \<Longrightarrow> split_crlf (l @ 13 # 10 # r) = l # split_crlf r"
  by (induction l) auto

lemma split_crlf_last: "13 \<notin> set l \<Longrightarrow> split_crlf l = [l]"
  by (induction l) auto

lemma split_crlf_headers:
  "13 \<notin> set status \<Longrightarrow> \<forall>x \<in> set hs. 13 \<notin> set (header_line x) \<Longrightarrow>
     split_crlf (status @ concat (map (\<lambda>x. [13, 10] @ header_line x) hs)) = status # map header_line hs"
proof (induction hs arbitrary: status)
  case (Cons x hs)
  have "split_crlf (status @ 13 # 10 # (header_line x @ concat (map (\<lambda>x. [13, 10] @ header_line x) hs)))
      = status # split_crlf (header_line x @ concat (map (\<lambda>x. [13, 10] @ header_line x) hs))"
    by (rule split_crlf_line) (rule Cons.prems)
  also have "split_crlf (header_line x @ concat (map (\<lambda>x. [13, 10] @ header_line x) hs))
      = header_line x # map header_line hs" using Cons by simp
  finally show ?case by simp
qed (simp add: split_crlf_last)

text \<open>A header as a server should write it: the name lowered and trimmed, the value trimmed.\<close>

definition plain_header :: "unicode_db \<Rightarrow> ustr \<times> ustr \<Rightarrow> bool" where
  "plain_header db = (\<lambda>(n, v). n \<noteq> [] \<and> u_lower db (u_strip db n) = n \<and> u_strip db v = v
     \<and> COLON \<notin> set n \<and> 13 \<notin> set n \<and> 13 \<notin> set v)"

lemma up_to_colon:
  "COLON \<notin> set n \<Longrightarrow> takeWhile (\<lambda>c. c \<noteq> COLON) (n @ COLON # v) = n"
  "COLON \<notin> set n \<Longrightarrow> dropWhile (\<lambda>c. c \<noteq> COLON) (n @ COLON # v) = COLON # v"
  by (induction n) auto

lemma add_plain_header:
  assumes "plain_header db (n, v)"
  shows "add_header db (header_line (n, v)) hs = dict_set hs n v"
proof -
  have "takeWhile (\<lambda>c. c \<noteq> COLON) (header_line (n, v)) = n" "dropWhile (\<lambda>c. c \<noteq> COLON) (header_line (n, v)) = COLON # 32 # v"
    using assms by (simp_all add: header_line_def plain_header_def up_to_colon)
  moreover have "u_strip db (32 # v) = u_strip db v" by (simp add: u_strip_def u_space_def)
  moreover have "COLON \<in> set (header_line (n, v))" by (simp add: header_line_def)
  ultimately show ?thesis using assms by (simp add: add_header_def plain_header_def)
qed

lemma dict_set_new: "\<not> dict_has d k \<Longrightarrow> dict_set d k v = d @ [(k, v)]"
  by (induction d) auto

lemma fold_plain_headers:
  "list_all (plain_header db) hs \<Longrightarrow> distinct (map fst (acc @ hs)) \<Longrightarrow>
     fold (add_header db) (map header_line hs) acc = acc @ hs"
proof (induction hs arbitrary: acc)
  case (Cons x hs)
  obtain n v where x: "x = (n, v)" by (cases x)
  have "add_header db (header_line x) acc = acc @ [x]"
    using Cons.prems add_plain_header [of db n v acc] by (simp add: x dict_set_new)
  then show ?case using Cons by simp
qed simp

lemma split_once_skip:
  "13 \<notin> set l \<Longrightarrow> split_once blank_line (l @ s) = (l @ fst (split_once blank_line s), snd (split_once blank_line s))"
  by (induction l) (auto simp: blank_line_def split: prod.splits)

lemma split_once_crlf:
  "c \<noteq> 13 \<Longrightarrow> split_once blank_line (13 # 10 # c # s)
     = (13 # 10 # fst (split_once blank_line (c # s)), snd (split_once blank_line (c # s)))"
  by (simp add: blank_line_def split: prod.splits)

lemma split_once_headers:
  "13 \<notin> set status \<Longrightarrow> \<forall>x \<in> set hs. header_line x \<noteq> [] \<and> 13 \<notin> set (header_line x) \<Longrightarrow>
     split_once blank_line (status @ concat (map (\<lambda>x. [13, 10] @ header_line x) hs) @ blank_line @ body)
       = (status @ concat (map (\<lambda>x. [13, 10] @ header_line x) hs), Some body)"
proof (induction hs arbitrary: status)
  case Nil
  have "split_once blank_line (blank_line @ body) = ([], Some body)" by (simp add: blank_line_def)
  then show ?case using Nil split_once_skip [of status "blank_line @ body"] by simp
next
  case (Cons x hs)
  let ?rest = "concat (map (\<lambda>x. [13, 10] @ header_line x) hs) @ blank_line @ body"
  obtain c l where l: "header_line x = c # l" using Cons.prems by (cases "header_line x") auto
  then have "c \<noteq> 13" using Cons.prems by auto
  have "split_once blank_line (header_line x @ ?rest)
      = (header_line x @ concat (map (\<lambda>x. [13, 10] @ header_line x) hs), Some body)"
    using Cons by simp
  then have "split_once blank_line (13 # 10 # header_line x @ ?rest)
      = (13 # 10 # header_line x @ concat (map (\<lambda>x. [13, 10] @ header_line x) hs), Some body)"
    using split_once_crlf [OF \<open>c \<noteq> 13\<close>] l by simp
  then show ?case
    using split_once_skip [OF Cons.prems(1), of "13 # 10 # header_line x @ ?rest"] by simp
qed

text \<open>The reader of a response inverts a writer of responses.  For a status line the code accepts,
  and headers with distinct, lowered and trimmed names and trimmed values without line breaks, the
  parsed response has exactly those headers in order, its head is the status line and the headers,
  and the text after the first blank line is the body.\<close>

theorem http_headers_round_trip:
  assumes "re_match db STATUS_PATTERN (http_text status hs body) = Some m" and "13 \<notin> set status"
    and "list_all (plain_header db) hs" and "distinct (map fst hs)"
  shows "\<exists>r. parse_response db (http_text status hs body) = Some r \<and> hr_headers r = hs
    \<and> split_once blank_line (hr_raw_head r) = (http_head status hs, Some body)"
proof -
  have lines: "\<forall>x \<in> set hs. header_line x \<noteq> [] \<and> 13 \<notin> set (header_line x)"
    using assms(3) by (fastforce simp: list_all_iff plain_header_def header_line_def COLON_def)
  have split: "split_once blank_line (http_text status hs body) = (http_head status hs, Some body)"
    using split_once_headers [OF assms(2) lines] by (simp add: http_text_def http_head_def)
  have "split_crlf (http_head status hs) = status # map header_line hs"
    unfolding http_head_def using lines by (intro split_crlf_headers assms(2)) blast
  then have "headers_of db (http_head status hs) = hs"
    using fold_plain_headers [OF assms(3), of "[]"] assms(4) by (simp add: headers_of_def)
  then show ?thesis using assms(1) split by (simp add: parse_response_def)
qed

lemma lab_status_accepted: "re_match no_unicode STATUS_PATTERN lab_response \<noteq> None"
  by (simp add: re_match_def match_at_def STATUS_PATTERN_def class_defs Let_def run_length_def u_digit_def
      u_space_def lab_response_def http_text_def http_head_def lab_status_def uni_def upt_conv_Cons)

lemma http_headers_round_trip_witness:
  "\<exists>r. parse_response no_unicode lab_response = Some r \<and> hr_headers r = lab_headers
    \<and> split_once blank_line (hr_raw_head r) = (http_head lab_status lab_headers, Some (uni ''User-agent: *''))"
proof -
  have "13 \<notin> set lab_status" by (simp add: lab_status_def uni_def)
  moreover have "list_all (plain_header no_unicode) lab_headers"
    by (simp add: lab_headers_def plain_header_def uni_def u_strip_def u_lower_def latin1_lower_def u_space_def COLON_def)
  moreover have "distinct (map fst lab_headers)" by (simp add: lab_headers_def uni_def)
  ultimately show ?thesis
    using http_headers_round_trip lab_status_accepted unfolding lab_response_def by blast
qed

section \<open>What is reported of a port\<close>

lemma fetch_response:
  "fetch db dr k host path w = (Inr (Some response), w') \<Longrightarrow>
     \<exists>text. parse_response db text = Some response"
  by (auto simp: fetch_def split: sum.splits if_splits prod.splits)

lemma parse_response_raw: "parse_response db text = Some r \<Longrightarrow> hr_raw_head r = text"
  by (auto simp: parse_response_def split: option.splits)

lemma enumeration_finding_sel [simp]:
  "f_host (enumeration_finding seen host port kind t s key v ev c) = host"
  "f_port (enumeration_finding seen host port kind t s key v ev c) = Some port"
  "f_kind (enumeration_finding seen host port kind t s key v ev c) = kind"
  "f_category (enumeration_finding seen host port kind t s key v ev c) = FindEnumeration"
  "f_module (enumeration_finding seen host port kind t s key v ev c) = protocol_enum_name"
  "f_raw_evidence (enumeration_finding seen host port kind t s key v ev c) = ev"
  by (simp_all add: enumeration_finding_def)

text \<open>The findings of a response and of a certificate, their kinds apart.\<close>

definition reported_as :: "py_str list \<Rightarrow> py_str \<Rightarrow> int \<Rightarrow> finding \<Rightarrow> bool" where
  "reported_as kinds host port f \<longleftrightarrow> f_category f = FindEnumeration \<and> f_host f = host \<and> f_port f = Some port
     \<and> f_module f = protocol_enum_name \<and> f_kind f \<in> set kinds"

lemma certificate_reported:
  "certificate_finding enc load_der seen host port tls = Some f \<Longrightarrow>
     reported_as [''tls.session'', ''tls.cert''] host port f"
  unfolding certificate_finding_def reported_as_def by (clarsimp split: option.splits; auto)

lemma robots_reported:
  "robots_finding db enc seen host port r = Some f \<Longrightarrow> reported_as [''http.robots''] host port f"
  unfolding robots_finding_def reported_as_def by (clarsimp simp: Let_def split: option.splits if_splits)

lemma http_reported:
  "f \<in> set (http_findings enc seen host port r tls) \<Longrightarrow> reported_as [''http.response''] host port f
     \<and> f_raw_evidence f = Some (enc (take 2000 (fst (split_once blank_line (hr_raw_head r)))))"
  unfolding http_findings_def Let_def reported_as_def by clarsimp

definition kinds_of_response :: "unicode_db \<Rightarrow> (ustr \<Rightarrow> py_str) \<Rightarrow> (nat list \<Rightarrow> x509 option) \<Rightarrow>
    (py_str \<Rightarrow> int option \<Rightarrow> int) \<Rightarrow> py_str \<Rightarrow> int \<Rightarrow> finding \<Rightarrow> bool" where
  "kinds_of_response db enc load_der seen host port f \<longleftrightarrow>
     (\<exists>tls. certificate_finding enc load_der seen host port tls = Some f)
     \<or> (\<exists>text r. parse_response db text = Some r \<and>
          (f \<in> set (http_findings enc seen host port r (port \<in> set TLS_PORTS))
           \<or> robots_finding db enc seen host port (Some r) = Some f))"

lemma fetch_path_finding:
  assumes "fetch_path db enc dr seen host port a tls path w = (Inr (Some f), w')"
  shows "\<exists>text r. parse_response db text = Some r \<and> robots_finding db enc seen host port (Some r) = Some f"
proof -
  from assms obtain k w1 w2 response where "fetch db dr k host path w1 = (Inr response, w2)"
    and f: "robots_finding db enc seen host port response = Some f"
    by (auto simp: fetch_path_def split: sum.splits prod.splits guard_exn.splits if_splits)
  moreover from f obtain r where r: "response = Some r" by (auto simp: robots_finding_def split: option.splits)
  ultimately obtain t0 where "parse_response db t0 = Some r" using fetch_response by metis
  with f r show ?thesis by blast
qed

text \<open>What a task can return: the certificate, the response and the directives of its own port.\<close>

lemma enumerate_port_findings:
  assumes "enumerate_port db enc load_der dr seen cx (host, port) w = (Inr fs, w')" and "f \<in> set fs"
  shows "kinds_of_response db enc load_der seen host port f"
proof (cases "pr_cancelled dr w \<or> address_for (cx_target cx) host = None")
  case True
  then show ?thesis using assms by (auto simp: enumerate_port_def split: option.splits)
next
  case False
  then obtain a where a: "\<not> pr_cancelled dr w" "address_for (cx_target cx) host = Some a" by auto
  let ?tls = "port \<in> set TLS_PORTS"
  obtain r1 w1 where o: "dr_open dr a port ?tls w = (r1, w1)" by (cases "dr_open dr a port ?tls w")
  show ?thesis
  proof (cases r1)
    case (Inl e)
    then show ?thesis using assms by (cases e) (auto simp: enumerate_port_def a o split: if_splits)
  next
    case (Inr stream)
    let ?k = "stream_socket stream"
    let ?cert = "case stream_tls stream of None \<Rightarrow> None | Some tls \<Rightarrow> certificate_finding enc load_der seen host port tls"
    obtain r2 w2 where b: "fetch db dr ?k host ''/'' w1 = (r2, w2)" by (cases "fetch db dr ?k host ''/'' w1")
    obtain r3 w3 where c: "fetch_path db enc dr seen host port a ?tls ''/robots.txt'' (dr_close dr ?k w2) = (r3, w3)"
      by (cases "fetch_path db enc dr seen host port a ?tls ''/robots.txt'' (dr_close dr ?k w2)")
    obtain response robots where r: "r2 = Inr response" "r3 = Inr robots"
      and fs: "fs = list_of ?cert @ (case response of None \<Rightarrow> [] | Some r \<Rightarrow> http_findings enc seen host port r ?tls)
        @ list_of robots"
      using assms(1) by (auto simp: enumerate_port_def a o Inr b c Let_def split: sum.splits)
    from assms(2) fs consider "?cert = Some f"
      | r where "response = Some r" "f \<in> set (http_findings enc seen host port r ?tls)" | "robots = Some f"
      by (auto simp: list_of_def split: option.splits)
    then show ?thesis
    proof cases
      case 1
      then show ?thesis by (auto simp: kinds_of_response_def split: option.splits)
    next
      case 2
      then obtain t0 where "parse_response db t0 = Some r" using fetch_response [of db dr ?k host "''/''" w1] b r by blast
      then show ?thesis unfolding kinds_of_response_def using 2(2) by blast
    next
      case 3
      then have "fetch_path db enc dr seen host port a ?tls ''/robots.txt'' (dr_close dr ?k w2) = (Inr (Some f), w3)"
        using c r by simp
      from fetch_path_finding [OF this] show ?thesis unfolding kinds_of_response_def by blast
    qed
  qed
qed

lemma kinds_of_response_module:
  "kinds_of_response db enc load_der seen host port f \<Longrightarrow>
     f_category f = FindEnumeration \<and> f_host f = host \<and> f_port f = Some port \<and> f_module f = protocol_enum_name"
proof -
  assume "kinds_of_response db enc load_der seen host port f"
  then have "\<exists>kinds. reported_as kinds host port f"
    unfolding kinds_of_response_def
    by (elim disjE exE conjE) (drule certificate_reported http_reported robots_reported, blast)+
  then show ?thesis unfolding reported_as_def by blast
qed

lemma http_evidence:
  assumes "kinds_of_response db enc load_der seen host port f" and "f_kind f = ''http.response''"
  shows "\<exists>head. f_raw_evidence f = Some (enc head) \<and> length head \<le> 2000 \<and> \<not> sublist blank_line head"
proof -
  have "\<not> reported_as [''tls.session'', ''tls.cert''] host port f" "\<not> reported_as [''http.robots''] host port f"
    using assms(2) by (simp_all add: reported_as_def)
  then obtain r where "f \<in> set (http_findings enc seen host port r (port \<in> set TLS_PORTS))"
    using assms(1) certificate_reported robots_reported unfolding kinds_of_response_def by blast
  then have e: "f_raw_evidence f = Some (enc (take 2000 (fst (split_once blank_line (hr_raw_head r)))))"
    using http_reported by blast
  let ?head = "fst (split_once blank_line (hr_raw_head r))"
  have "\<not> sublist blank_line ?head" by (rule split_once_fst_free) (simp add: blank_line_def)
  then have "\<not> sublist blank_line (take 2000 ?head)"
    by (metis prefix_imp_sublist sublist_order.order_trans take_is_prefix)
  with e show ?thesis by auto
qed


text \<open>The lab's web server, which answers every request with the same page.\<close>

definition lab_page :: http_response where
  "lab_page = the (parse_response no_unicode lab_response)"

definition web_dialer :: "(nat, unit) dialer" where
  "web_dialer = ssh_dialer\<lparr>dr_read := (\<lambda>_ _ w. (Inr lab_response, w)), dr_send := (\<lambda>_ _ w. (Inr (), w))\<rparr>"

definition web_finding :: finding where
  "web_finding = hd (http_findings text_of_latin1 (\<lambda>_ _. 0) ''192.168.1.10'' 80 lab_page False)"

lemma web_tasks: "open_port_tasks web_context = [(''192.168.1.10'', 80)]"
  and web_open: "open_ports_by_host web_context = [(''192.168.1.10'', [80])]"
  by (simp_all add: open_port_tasks_def open_ports_by_host_def web_context_def open_finding_def append_at_def)

lemma web_fetch: "fetch no_unicode web_dialer () host path w = (Inr (Some lab_page), w)"
proof -
  have "list_all (\<lambda>b. b < 128) lab_response"
    by (simp add: lab_response_def http_text_def http_head_def header_line_def lab_status_def lab_headers_def
        uni_def blank_line_def COLON_def)
  then have "utf8_decode lab_response = lab_response" by (rule utf8_decode_ascii)
  moreover have "lab_response \<noteq> []" by (simp add: lab_response_def http_text_def blank_line_def)
  moreover have "parse_response no_unicode lab_response = Some lab_page"
    using lab_status_accepted by (auto simp: lab_page_def parse_response_def)
  ultimately show ?thesis by (simp add: fetch_def web_dialer_def)
qed

lemma web_enumerated:
  "\<exists>robots. enumerate_port no_unicode text_of_latin1 (\<lambda>_. None) web_dialer (\<lambda>_ _. 0) web_context (''192.168.1.10'', 80) w
     = (Inr (web_finding # list_of robots), w)"
proof -
  have "pr_cancelled web_dialer w = False"
    "dr_open web_dialer a p tls w = (Inr \<lparr>stream_socket = (), stream_tls = None\<rparr>, w)"
    "dr_close web_dialer k w' = w'" for a p tls k w' by (simp_all add: web_dialer_def ssh_dialer_def)
  moreover have "80 \<notin> set TLS_PORTS" by (simp add: TLS_PORTS_def)
  moreover have "address_for (cx_target web_context) ''192.168.1.10'' = Some lab_host"
    by (simp add: address_for_def web_context_def lab_context_def lab_target_def)
  moreover have "http_findings text_of_latin1 (\<lambda>_ _. 0) ''192.168.1.10'' 80 lab_page False = [web_finding]"
    by (simp add: web_finding_def http_findings_def Let_def)
  ultimately show ?thesis
    by (auto simp: enumerate_port_def fetch_path_def web_fetch list_of_def [of None])
qed


text \<open>
  The budget that runs out between the page and \<open>/robots.txt\<close> of a port takes with it what the page
  and the handshake had shown: the task raises, and its findings are dropped.
\<close>

lemma budget_at_robots_loses_findings:
  assumes "\<not> pr_cancelled dr w" and "address_for (cx_target cx) host = Some a"
    and "dr_open dr a port (port \<in> set TLS_PORTS) w = (Inr stream, w1)"
    and "fetch db dr (stream_socket stream) host ''/'' w1 = (Inr (Some page), w2)"
    and "dr_open dr a port (port \<in> set TLS_PORTS) (dr_close dr (stream_socket stream) w2) = (Inl (BudgetExceeded m d), w3)"
  shows "enumerate_port db enc load_der dr seen cx (host, port) w = (Inl (BudgetExceeded m d), w3)"
    and "note_outcomes (Inl (BudgetExceeded m d) :: guard_exn + finding list) acc = Inr (fst acc, True)"
  using assms by (simp_all add: enumerate_port_def fetch_path_def note_outcomes_def Let_def)

end
