(* ===== verification/Scan_System.thy ===== *)
theory Scan_System
  imports Scan_Spec Protocol_Enum
begin

text \<open>
  The parts put together: the runner executes the repository's four modules, each through the guard
  of the scan, whose sink is the database, whose governor is the run's and whose scope profile is
  the stored one.
\<close>

section \<open>The modules in the world of a run\<close>

record sockets =
  so_guard_active :: bool
  so_attempts :: "connect_attempt list"
  so_exchanges :: "unit exchange list"

type_synonym scan_world = "sockets run_world"

text \<open>What a module run sees of it: the world of the guard, and the exchanges so far.\<close>

type_synonym dialog_world = "database guard_world \<times> unit exchange list"

definition to_guard :: "governor \<Rightarrow> scan_world \<Rightarrow> dialog_world" where
  "to_guard g w = (\<lparr>w_governor = g, w_ledger = rw_db w,
     w_guard_active = so_guard_active (rw_rest w), w_attempts = so_attempts (rw_rest w)\<rparr>,
     so_exchanges (rw_rest w))"

definition from_guard :: "scan_world \<Rightarrow> dialog_world \<Rightarrow> scan_world" where
  "from_guard w = (\<lambda>(g, h). w\<lparr>rw_db := w_ledger g, rw_governor := Some (w_governor g),
     rw_rest := \<lparr>so_guard_active = w_guard_active g, so_attempts = w_attempts g, so_exchanges = h\<rparr>\<rparr>)"

text \<open>
  What the modules are given besides the context: the operating system and the peers, the state of
  the cancel flag, the clock of the findings, the tables of the Unicode version, how a finding
  holds a text, and the certificate library.
\<close>

record environment =
  en_os :: "unit os_connect"
  en_upgrade :: "unit os_open"
  en_io :: "unit stream_io"
  en_cancelled :: "database guard_world \<Rightarrow> bool"
  en_seen :: "py_str \<Rightarrow> int option \<Rightarrow> int"
  en_float_repr :: "rat \<Rightarrow> py_str"
  en_unicode :: unicode_db
  en_text :: "ustr \<Rightarrow> py_str"
  en_load_der :: "nat list \<Rightarrow> x509 option"

definition scan_scope_id :: "database \<Rightarrow> py_str \<Rightarrow> py_str option" where
  "scan_scope_id d i = map_option sc_scope_id (get_scan d i)"

definition context_dialer :: "environment \<Rightarrow> module_context \<Rightarrow> database \<Rightarrow> (dialog_world, unit) dialer" where
  "context_dialer env cx d =
     guard_dialer (db_sink \<lparr>dl_scan_id = Some (cx_scan_id cx), dl_scope_id = scan_scope_id d (cx_scan_id cx)\<rparr>)
       (cx_scope cx) (en_os env) (en_upgrade env) (en_io env) (cx_target cx) (en_cancelled env)"

text \<open>A run on the world of the guard, as a run on the world of the runner.\<close>

definition guarded_run :: "(module_context \<Rightarrow> (dialog_world, unit) dialer \<Rightarrow> dialog_world \<Rightarrow>
    (run_exn + module_result) \<times> dialog_world) \<Rightarrow> environment \<Rightarrow> module_context \<Rightarrow> scan_world \<Rightarrow>
    (run_exn + module_result) \<times> scan_world" where
  "guarded_run run env cx w =
     (case rw_governor w of
        None \<Rightarrow> (Inl (RunOther ''no governor''), w)
      | Some g \<Rightarrow>
          (case run cx (context_dialer env cx (rw_db w)) (to_guard g w) of
             (r, gw) \<Rightarrow> (r, from_guard w gw)))"

definition host_discovery_module :: "environment \<Rightarrow> scan_world scan_module" where
  "host_discovery_module env = \<lparr>sm_metadata = discovery_metadata, sm_dependency = None,
     sm_run = guarded_run (\<lambda>cx dr. discovery_run (prober.truncate dr) (en_seen env) cx) env\<rparr>"

definition port_scan_module :: "environment \<Rightarrow> scan_world scan_module" where
  "port_scan_module env = \<lparr>sm_metadata = port_scan_metadata, sm_dependency = None,
     sm_run = guarded_run (\<lambda>cx dr. port_scan_run (en_float_repr env) (prober.truncate dr) (en_seen env) cx) env\<rparr>"

definition service_detect_module :: "environment \<Rightarrow> scan_world scan_module" where
  "service_detect_module env = \<lparr>sm_metadata = service_detect_metadata, sm_dependency = None,
     sm_run = guarded_run (\<lambda>cx dr. service_detect_run (en_unicode env) (en_text env) dr (en_seen env) cx) env\<rparr>"

definition protocol_enum_module :: "environment \<Rightarrow> scan_world scan_module" where
  "protocol_enum_module env = \<lparr>sm_metadata = protocol_enum_metadata, sm_dependency = None,
     sm_run = guarded_run (\<lambda>cx dr. protocol_enum_run (en_unicode env) (en_text env) (en_load_der env) dr
       (en_seen env) cx) env\<rparr>"

definition scan_registry :: "environment \<Rightarrow> scan_world registry" where
  "scan_registry env = projr (register_builtin_modules [host_discovery_module env, port_scan_module env,
     service_detect_module env, protocol_enum_module env] [])"

definition system_config :: "environment \<Rightarrow> resolver \<Rightarrow> (py_str \<Rightarrow> py_str) \<Rightarrow> (rat \<Rightarrow> py_str) \<Rightarrow>
    sockets run_config" where
  "system_config env resolver sha256 format_g =
     \<lparr>rc_registry = scan_registry env, rc_resolver = resolver, rc_sha256 = sha256,
      rc_format_g = format_g, rc_retention_days = DEFAULT_RETENTION_DAYS,
      rc_watchers = (\<lambda>i. bind_run (stream_footprint_turn i None) (\<lambda>_. return_run ()))\<rparr>"

section \<open>The modules keep their contract\<close>

text \<open>
  What the guard over the database adds to the world: ledger rows and attempts, an allowed row with
  a port for each attempt and in the same order.
\<close>

definition probe_of :: "connect_attempt \<Rightarrow> py_str \<times> int option" where
  "probe_of x = (at_host x, Some (at_port x))"

definition guard_inv :: "database_ledger \<Rightarrow> connect_attempt list \<Rightarrow> database \<Rightarrow> database guard_world \<Rightarrow> bool" where
  "guard_inv b old d gw \<longleftrightarrow> slots_free (w_governor gw) \<and> only_ledger_grows d (w_ledger gw)
     \<and> (db_ok d \<longrightarrow> db_ok (w_ledger gw))
     \<and> (\<exists>new. w_attempts gw = old @ new
         \<and> (recordable b d \<longrightarrow> probe_rows (dl_scan_id b) (w_ledger gw)
              = probe_rows (dl_scan_id b) d @ map probe_of new))"

lemma connect_ledger_once:
  assumes "connect sink S os v a p w = Some (r, w')"
  shows "w_ledger w' = w_ledger w \<or> (\<exists>e. w_ledger w' = sink e (w_ledger w))"
  using assms by (auto simp: connect_def deny_def try_connect_def Let_def
      split: if_splits option.splits sum.splits prod.splits)

lemma connect_on_record:
  assumes "connect (db_sink b) S os v a p w = Some (r, w')"
  shows "\<exists>new. w_attempts w' = w_attempts w @ new \<and> (recordable b (w_ledger w) \<longrightarrow>
    probe_rows (dl_scan_id b) (w_ledger w') = probe_rows (dl_scan_id b) (w_ledger w) @ map probe_of new)"
  using assms by (auto simp: connect_def deny_def try_connect_def Let_def db_sink_probes probe_of_def
      split: if_splits option.splits sum.splits prod.splits)

lemma recordable_frame: "only_ledger_grows d d' \<Longrightarrow> recordable b d' = recordable b d"
  by (simp add: recordable_def only_ledger_grows_def scan_exists_def split: option.split)

lemma guard_inv_connect:
  assumes ok: "guard_inv b old d w" and c: "connect (db_sink b) S os v a p w = Some (r, w')"
  shows "guard_inv b old d w'"
proof -
  have frame: "only_ledger_grows d (w_ledger w)" using ok by (simp add: guard_inv_def)
  have slots: "slots_free (w_governor w')" using ok connect_slots_free [OF c] by (simp add: guard_inv_def)
  from ok obtain new where "w_attempts w = old @ new" and "recordable b d \<longrightarrow>
      probe_rows (dl_scan_id b) (w_ledger w) = probe_rows (dl_scan_id b) d @ map probe_of new"
    by (auto simp: guard_inv_def)
  moreover obtain more where "w_attempts w' = w_attempts w @ more" and "recordable b (w_ledger w) \<longrightarrow>
      probe_rows (dl_scan_id b) (w_ledger w') = probe_rows (dl_scan_id b) (w_ledger w) @ map probe_of more"
    using connect_on_record [OF c] by blast
  ultimately have "\<exists>new. w_attempts w' = old @ new \<and> (recordable b d \<longrightarrow>
      probe_rows (dl_scan_id b) (w_ledger w') = probe_rows (dl_scan_id b) d @ map probe_of new)"
    by (intro exI [of _ "new @ more"]) (simp add: recordable_frame [OF frame])
  then show ?thesis
    using ok slots connect_ledger_once [OF c] db_sink_only_ledger [OF frame, of b] db_sink_ok [of "w_ledger w" b]
    by (auto simp: guard_inv_def)
qed

text \<open>What a module may say to a peer.\<close>

definition read_only_request :: "py_str \<Rightarrow> bool" where
  "read_only_request t \<longleftrightarrow> (\<exists>host. t = http_get ''/'' host \<or> t = http_get ''/robots.txt'' host)"

interpretation recorded: conversation "\<lambda>w. guard_inv b old d (fst w)"
  "dialog_step (guard_inv b old d) S v read_only_request"
  "guard_dialer (db_sink b) S os up io v cancelled" read_only_request
  for b old d S v os up io cancelled
  by (rule guard_dialer_contract) (fact guard_inv_connect, simp add: guard_inv_def)

text \<open>An attempt the scope profile permits, whatever the target it was made for.\<close>

definition scope_permits :: "scope_profile \<Rightarrow> connect_attempt \<Rightarrow> bool" where
  "scope_permits S x \<longleftrightarrow> (\<exists>a. address_denial S a = None \<and> at_family x = version a
     \<and> at_host x = str_addr a) \<and> 0 < at_port x \<and> at_port x \<le> 65535 \<and> at_guarded x"

text \<open>What the sockets of a run look like after a scan of the scope profile.\<close>

definition network_grows :: "scope_profile \<Rightarrow> sockets \<Rightarrow> sockets \<Rightarrow> bool" where
  "network_grows S so so' \<longleftrightarrow>
     (\<exists>new. so_attempts so' = so_attempts so @ new \<and> list_all (scope_permits S) new)
     \<and> (\<exists>new. so_exchanges so' = so_exchanges so @ new \<and> (\<forall>t \<in> said new. read_only_request t))"

definition network_sane :: "sockets \<Rightarrow> scope_profile \<Rightarrow> governor \<Rightarrow> sockets \<Rightarrow> bool" where
  "network_sane old S g so \<longleftrightarrow> slots_free g \<and> network_grows S old so"

lemma network_grows_refl: "network_grows S so so"
  by (simp add: network_grows_def)

lemma network_grows_trans: "network_grows S a b \<Longrightarrow> network_grows S b c \<Longrightarrow> network_grows S a c"
  by (fastforce simp: network_grows_def)

lemma unchanged_cancel: "\<exists>c. x = map_option (\<lambda>s. s\<lparr>sc_cancel_requested := c\<rparr>) x"
proof (cases x)
  case (Some s)
  then show ?thesis by (intro exI [of _ "sc_cancel_requested s"]) simp
qed simp

lemma only_ledger_task_keeps:
  assumes "only_ledger_grows (rw_db w) (rw_db w')" and "db_ok (rw_db w) \<longrightarrow> db_ok (rw_db w')"
  shows "task_keeps i w w'"
proof -
  have same: "scan_of i w' = scan_of i w" "statuses i w' = statuses i w"
      "contiguous (rw_db w') = contiguous (rw_db w)"
    using assms(1) by (simp_all add: only_ledger_grows_def contiguous_def events_of_def
        statuses_def runs_of_def scan_of_def get_scan_def)
  then show ?thesis
    using assms(2) unchanged_cancel [of "scan_of i w"] by (simp add: task_keeps_def run_ok_def)
qed

lemma runs_to_task_keeps:
  "runs_to i m w a (\<lambda>x. x) \<Longrightarrow> task_keeps i w (snd (m w)) \<and> rw_rest (snd (m w)) = rw_rest w
     \<and> rw_governor (snd (m w)) = rw_governor w"
  using unchanged_cancel [of "scan_of i w"] by (auto simp: runs_to_def task_keeps_def)

text \<open>
  What a module run does to the rest of the program: it adds ledger rows, a row of its scan for each
  attempt.
\<close>

definition run_adds :: "py_str \<Rightarrow> scan_world \<Rightarrow> scan_world \<Rightarrow> bool" where
  "run_adds i w w' \<longleftrightarrow> only_ledger_grows (rw_db w) (rw_db w')
     \<and> (\<exists>new. so_attempts (rw_rest w') = so_attempts (rw_rest w) @ new
         \<and> (scan_exists (rw_db w) i \<longrightarrow>
              probe_rows (Some i) (rw_db w') = probe_rows (Some i) (rw_db w) @ map probe_of new))"

lemma run_adds_refl: "run_adds i w w"
  by (simp add: run_adds_def only_ledger_grows_def)

lemma guarded_run_adds:
  assumes run: "\<And>b old gw r gw'. guard_inv b old (rw_db w) (fst gw) \<Longrightarrow>
      run cx (guard_dialer (db_sink b) (cx_scope cx) (en_os env) (en_upgrade env) (en_io env)
        (cx_target cx) (en_cancelled env)) gw = (r, gw') \<Longrightarrow>
      dialog_step (guard_inv b old (rw_db w)) (cx_scope cx) (cx_target cx) read_only_request gw gw'"
    and cx: "valid_context i S cx" and g: "rw_governor w = Some g" "slots_free g"
  obtains r gw h where "guarded_run run env cx w = (r, from_guard w (gw, h))"
    and "run_adds i w (from_guard w (gw, h))" and "slots_free (w_governor gw)"
    and "db_ok (rw_db w) \<longrightarrow> db_ok (w_ledger gw)" and "network_grows S (rw_rest w) (rw_rest (from_guard w (gw, h)))"
proof -
  let ?b = "\<lparr>dl_scan_id = Some (cx_scan_id cx), dl_scope_id = scan_scope_id (rw_db w) (cx_scan_id cx)\<rparr>"
  obtain r gw h where res: "run cx (context_dialer env cx (rw_db w)) (to_guard g w) = (r, (gw, h))"
    by (metis prod.exhaust)
  have "guard_inv ?b (so_attempts (rw_rest w)) (rw_db w) (fst (to_guard g w))"
    using g(2) by (simp add: guard_inv_def to_guard_def only_ledger_grows_def)
  from run [OF this res [unfolded context_dialer_def]] obtain attempts said_new where
    new: "guard_inv ?b (so_attempts (rw_rest w)) (rw_db w) gw" "w_attempts gw = so_attempts (rw_rest w) @ attempts"
      "\<forall>x \<in> set attempts. permitted_attempt (cx_scope cx) (cx_target cx) x"
      "h = so_exchanges (rw_rest w) @ said_new" "\<forall>t \<in> said said_new. read_only_request t"
    by (auto simp: to_guard_def dialog_step_def)
  have "list_all (scope_permits S) attempts"
    using new(3) cx by (auto simp: list_all_iff permitted_attempt_def scope_permits_def valid_context_def)
  then have "network_grows S (rw_rest w) (rw_rest (from_guard w (gw, h)))"
    using new by (auto simp: network_grows_def from_guard_def)
  moreover have "run_adds i w (from_guard w (gw, h))"
    using new(1) cx by (auto simp: run_adds_def guard_inv_def from_guard_def recordable_def valid_context_def)
  moreover have "guarded_run run env cx w = (r, from_guard w (gw, h))"
    by (simp add: guarded_run_def g(1) res)
  ultimately show ?thesis using new(1) by (intro that) (simp_all add: guard_inv_def)
qed

lemma guarded_run_keeps:
  assumes run: "\<And>b old gw r gw'. guard_inv b old (rw_db w) (fst gw) \<Longrightarrow>
      run cx (guard_dialer (db_sink b) (cx_scope cx) (en_os env) (en_upgrade env) (en_io env)
        (cx_target cx) (en_cancelled env)) gw = (r, gw') \<Longrightarrow>
      dialog_step (guard_inv b old (rw_db w)) (cx_scope cx) (cx_target cx) read_only_request gw gw'"
    and cx: "valid_context i S cx" and live: "live (network_sane old_rest S) w"
  shows "task_keeps i w (snd (guarded_run run env cx w))
    \<and> live (network_sane old_rest S) (snd (guarded_run run env cx w))"
proof -
  from live obtain g where g: "rw_governor w = Some g" "slots_free g"
    and grown: "network_grows S old_rest (rw_rest w)"
    by (auto simp: live_def network_sane_def)
  obtain r gw h where res: "guarded_run run env cx w = (r, from_guard w (gw, h))"
      "run_adds i w (from_guard w (gw, h))" "slots_free (w_governor gw)"
      "db_ok (rw_db w) \<longrightarrow> db_ok (w_ledger gw)" "network_grows S (rw_rest w) (rw_rest (from_guard w (gw, h)))"
    by (rule guarded_run_adds [OF run cx g])
  have "live (network_sane old_rest S) (from_guard w (gw, h))"
    using res(3) network_grows_trans [OF grown res(5)]
    by (auto simp: live_def from_guard_def network_sane_def)
  moreover have "task_keeps i w (from_guard w (gw, h))"
    using res(2,4) by (intro only_ledger_task_keeps) (simp_all add: run_adds_def from_guard_def)
  ultimately show ?thesis by (simp add: res(1))
qed

lemmas module_defs = host_discovery_module_def port_scan_module_def service_detect_module_def protocol_enum_module_def
lemmas metadata_defs = discovery_metadata_def port_scan_metadata_def service_detect_metadata_def
  protocol_enum_metadata_def module_metadata_defaults_def
lemmas module_name_defs = discovery_name_def port_scan_name_def service_detect_name_def protocol_enum_name_def

lemma scan_registry_eq: "scan_registry env = [(discovery_name, host_discovery_module env),
    (port_scan_name, port_scan_module env), (service_detect_name, service_detect_module env),
    (protocol_enum_name, protocol_enum_module env)]"
  by (simp add: scan_registry_def register_def registry_has_def sm_name_def module_defs metadata_defs module_name_defs)

lemma scan_registry_get:
  "registry_get (scan_registry env) n = Inr m \<longleftrightarrow>
     n = discovery_name \<and> m = host_discovery_module env \<or> n = port_scan_name \<and> m = port_scan_module env
     \<or> n = service_detect_name \<and> m = service_detect_module env
     \<or> n = protocol_enum_name \<and> m = protocol_enum_module env"
  by (auto simp: scan_registry_eq registry_get_Inr_iff module_name_defs split: if_splits)

lemma get_requests: "read_only_request (http_get ''/'' host)" "read_only_request (http_get ''/robots.txt'' host)"
  by (auto simp: read_only_request_def)

lemma system_tasks: "scan_tasks (system_config env R sha fg) i S (network_sane old S)"
proof
  fix n m cx and w :: scan_world
  assume get: "registry_get (rc_registry (system_config env R sha fg)) n = Inr m"
    and cx: "valid_context i S cx" and live: "live (network_sane old S) w"
  from get consider "m = host_discovery_module env" | "m = port_scan_module env"
    | "m = service_detect_module env" | "m = protocol_enum_module env"
    by (auto simp: system_config_def scan_registry_get)
  then show "task_keeps i w (snd (sm_run m cx w)) \<and> live (network_sane old S) (snd (sm_run m cx w))"
  proof cases
    case 1
    then show ?thesis unfolding host_discovery_module_def scan_module.simps
      by simp (intro guarded_run_keeps [OF _ cx live] recorded.discovery_run_steps)
  next
    case 2
    then show ?thesis
      by (simp add: port_scan_module_def)
        (intro guarded_run_keeps [OF _ cx live] recorded.port_scan_run_steps)
  next
    case 3
    then show ?thesis
      by (simp add: service_detect_module_def)
        (intro guarded_run_keeps [OF _ cx live] recorded.service_detect_run_steps get_requests)
  next
    case 4
    then show ?thesis
      by (simp add: protocol_enum_module_def)
        (intro guarded_run_keeps [OF _ cx live] recorded.protocol_enum_run_steps conjI get_requests)
  qed
next
  fix w :: scan_world
  assume ok: "run_ok i w" and live: "live (network_sane old S) w"
  have "runs_to i (bind_run (stream_footprint_turn i None) (\<lambda>_. return_run ())) w () (\<lambda>x. x)"
    using publish_footprint_runs [OF ok]
    by (auto simp: runs_to_def stream_footprint_turn_def bind_run_def then_run_def return_run_def)
  from runs_to_task_keeps [OF this] live
  show "(task_keeps i w (snd (rc_watchers (system_config env R sha fg) i w))
        \<or> scan_gone i (snd (rc_watchers (system_config env R sha fg) i w)))
      \<and> live (network_sane old S) (snd (rc_watchers (system_config env R sha fg) i w))"
    by (simp add: system_config_def live_def)
qed

interpretation system: scan_tasks "system_config env R sha fg" i S "network_sane old S"
  for env R sha fg i S old
  by (rule system_tasks)

section \<open>What executing a scan promises\<close>

lemma new_governor_slots_free: "new_governor name None now = Inr g \<Longrightarrow> slots_free g"
  using new_governor_within_ceiling [of name None now g]
  by (auto simp: new_governor_def Let_def slots_free_def host_semaphore_def within_ceiling_def
      split: option.splits sum.splits)

lemma system_execute:
  assumes "run_ok i w" and "scan_of i w = Some s"
    and "load_scope_profile (rw_db w) (sc_scope_id s) = Inr S"
    and "execute_scan (system_config env R sha fg) i w = (r, w')"
  shows "(rw_rest w' = rw_rest w \<or> live (network_sane (rw_rest w) S) w')
    \<and> (case r of Inl e \<Rightarrow> db_sound (rw_db w') | Inr st \<Rightarrow>
    refused_end i w st w' \<or> (\<exists>ns ss'. mset ns = mset (sc_selected_modules s)
      \<and> scan_spec ns False False (statuses i w) st ss' \<and> ended i st ss' w'))"
  by (rule system.execute_scan_refines [OF assms(1-3) _ assms(4)])
    (simp add: network_sane_def new_governor_slots_free network_grows_refl)

text \<open>C2. Executing a scan sends nothing outside the scope, and writes nothing inside it.  However
  the execution of a stored scan ends, with a status or with an exception, every connection the
  operating system was asked for by any of its four modules went to an address that is contained in
  the scope profile as it is stored now, is in no always-denied class and is not globally routable,
  on a port in 1-65535, with the guard's context variable set; and every text written to a peer is
  a \<open>GET\<close> of the root or of \<open>/robots.txt\<close>.  Earlier attempts and exchanges are all still there.\<close>

theorem attempts_stay_in_scope:
  assumes "run_ok i w" and "scan_of i w = Some s"
    and "load_scope_profile (rw_db w) (sc_scope_id s) = Inr scope"
    and "execute_scan (system_config env resolver sha256 format_g) i w = (r, w')"
  shows "\<exists>attempts exchanges. so_attempts (rw_rest w') = so_attempts (rw_rest w) @ attempts
    \<and> so_exchanges (rw_rest w') = so_exchanges (rw_rest w) @ exchanges
    \<and> list_all (\<lambda>x. (\<exists>a. at_family x = version a \<and> at_host x = str_addr a
          \<and> contains_address scope a \<and> is_always_denied a = None \<and> \<not> is_global a)
        \<and> 0 < at_port x \<and> at_port x \<le> 65535 \<and> at_guarded x) attempts
    \<and> said exchanges \<subseteq> {t. \<exists>host. t = http_get ''/'' host \<or> t = http_get ''/robots.txt'' host}"
proof -
  have "network_grows scope (rw_rest w) (rw_rest w')"
    using system_execute [OF assms] by (auto simp: live_def network_sane_def network_grows_refl)
  then obtain attempts exchanges where "so_attempts (rw_rest w') = so_attempts (rw_rest w) @ attempts"
    and ok: "list_all (scope_permits scope) attempts"
    and "so_exchanges (rw_rest w') = so_exchanges (rw_rest w) @ exchanges"
    and "\<forall>t \<in> said exchanges. read_only_request t"
    by (auto simp: network_grows_def)
  moreover have "\<not> is_global a" if "contains_address scope a" for a
    using created_scope_member [OF load_scope_created [OF assms(3)] that] allowed_not_global by blast
  then have "list_all (\<lambda>x. (\<exists>a. at_family x = version a \<and> at_host x = str_addr a
          \<and> contains_address scope a \<and> is_always_denied a = None \<and> \<not> is_global a)
        \<and> 0 < at_port x \<and> at_port x \<le> 65535 \<and> at_guarded x) attempts"
    using ok by (fastforce simp: list_all_iff scope_permits_def address_denial_None)
  ultimately show ?thesis by (auto simp: read_only_request_def)
qed



section \<open>Before the first module\<close>

lemma module_order_total:
  "list_all (registry_has reg) ns \<Longrightarrow> \<exists>ms. module_order reg ns = Inr ms"
proof -
  have "\<exists>ms. map_sum_list (registry_get reg) ns = Inr ms" if "list_all (registry_has reg) ns"
    using that registry_get_Inl_iff [of reg]
    by (cases "map_sum_list (registry_get reg) ns") (fastforce dest: map_sum_list_Inl simp: list_all_iff)+
  then show "list_all (registry_has reg) ns \<Longrightarrow> \<exists>ms. module_order reg ns = Inr ms"
    by (auto simp: module_order_def)
qed

lemma run_modules_canceled:
  assumes "run_ok i w" and "cancel_requested i w"
  shows "\<exists>w'. run_modules cfg i tt cx ns fl w = (Inr ScanCanceled, w')
    \<and> ended i ScanCanceled (skip_open (statuses i w)) w' \<and> rw_rest w' = rw_rest w"
  using cancel_scan_ends [OF assms(1), of cfg] assms(2)
  by (cases ns) (auto simp: conclude_def)

lemma execute_canceled:
  assumes "run_ok i w" and "scan_of i w = Some s" and "sc_cancel_requested s"
    and "load_scope_profile (rw_db w) (sc_scope_id s) = Inr scope"
    and "new_governor (sc_intensity_profile s) None 0 = Inr g"
    and "target_answer (rc_resolver cfg) scope (sc_target_input s) = Inr target"
    and "list_all (registry_has (rc_registry cfg)) (sc_selected_modules s)"
  shows "\<exists>w'. execute_scan cfg i w = (Inr ScanCanceled, w') \<and> rw_rest w' = rw_rest w
    \<and> ended i ScanCanceled (skip_open (statuses i w)) w'"
proof -
  have id: "sc_id s = i" using assms(2) get_scan_in by (auto simp: scan_of_def)
  obtain w1 where w1: "execute_scan cfg i w = after_validation cfg s scope
      (target_answer (rc_resolver cfg) scope (sc_target_input s)) w1" "run_ok i w1"
      "statuses i w1 = statuses i w" "scan_of i w1 = Some s" "rw_rest w1 = rw_rest w"
    by (rule execute_until_dispatch [OF assms(1,2,4,5)])
  obtain ns where ns: "module_order (rc_registry cfg) (sc_selected_modules s) = Inr ns"
    using module_order_total [OF assms(7)] by blast
  have "cancel_requested i w1" using w1(4) assms(3) by (simp add: cancel_requested_def scan_of_def)
  from run_modules_canceled [OF w1(2) this] w1(1,3,5) ns assms(6) show ?thesis
    by (fastforce simp: after_validation_def dispatch_def id)
qed

text \<open>A scan that is cancelled before it starts probes nothing.  With the cancel flag set when
  the execution of a stored scan begins, and with a target, an intensity and modules that are
  still valid, no module is run: nothing outside the database changes, the runs that were queued or
  running are skipped, and the scan ends as canceled.\<close>

theorem canceled_scan_stops:
  assumes "run_ok i w" and "scan_of i w = Some s" and "sc_cancel_requested s"
    and "load_scope_profile (rw_db w) (sc_scope_id s) = Inr scope"
    and "new_governor (sc_intensity_profile s) None 0 = Inr g"
    and "target_answer (rc_resolver cfg) scope (sc_target_input s) = Inr target"
    and "list_all (registry_has (rc_registry cfg)) (sc_selected_modules s)"
  shows "\<exists>w'. execute_scan cfg i w = (Inr ScanCanceled, w') \<and> rw_rest w' = rw_rest w
    \<and> ended i ScanCanceled (skip_open (statuses i w)) w'"
  by (rule execute_canceled [OF assms])

text \<open>A module that is gone strands its scan.  When a stored scan selects a module the
  registry no longer has, the execution raises the typed error before any module is run and
  nothing catches it: the scan's row is exactly as the claim left it, so it stays running, and its
  runs stay as they were.\<close>

theorem unknown_module_strands_scan:
  assumes "run_ok i w" and "scan_of i w = Some s"
    and "load_scope_profile (rw_db w) (sc_scope_id s) = Inr scope"
    and "new_governor (sc_intensity_profile s) None 0 = Inr g"
    and "target_answer (rc_resolver cfg) scope (sc_target_input s) = Inr target"
    and "\<not> list_all (registry_has (rc_registry cfg)) (sc_selected_modules s)"
  shows "\<exists>e w'. execute_scan cfg i w = (Inl (RunnerApp e), w') \<and> err_class e = UnknownModuleError
    \<and> scan_of i w' = Some s \<and> statuses i w' = statuses i w \<and> rw_rest w' = rw_rest w"
proof -
  obtain w1 where w1: "execute_scan cfg i w = after_validation cfg s scope
      (target_answer (rc_resolver cfg) scope (sc_target_input s)) w1" "run_ok i w1"
      "statuses i w1 = statuses i w" "scan_of i w1 = Some s" "rw_rest w1 = rw_rest w"
    by (rule execute_until_dispatch [OF assms(1-4)])
  obtain e where e: "map_sum_list (registry_get (rc_registry cfg)) (sc_selected_modules s) = Inl e"
    using all_registered assms(6) by (metis sum.exhaust)
  then have "err_class e = UnknownModuleError"
    using map_sum_list_Inl [OF e] by (auto simp: registry_get_def split: option.splits)
  with e w1 assms(5) show ?thesis
    by (simp add: after_validation_def dispatch_def module_order_def)
qed

text \<open>A claimed scan of the lab host, cancelled at once, for the witnesses.\<close>

definition claimed_scan :: "bool \<Rightarrow> py_str list \<Rightarrow> scan_row" where
  "claimed_scan cancel modules = (queued_scan ''a'' 10)\<lparr>sc_status := ScanRunning,
     sc_cancel_requested := cancel, sc_selected_modules := modules\<rparr>"

definition claimed_world :: "bool \<Rightarrow> py_str list \<Rightarrow> scan_world" where
  "claimed_world cancel modules =
     \<lparr>rw_db = lab_db\<lparr>db_scans := [claimed_scan cancel modules],
        db_runs := map (\<lambda>m. new_run_row m ''a'' m) modules\<rparr>,
      rw_publisher = new_publisher, rw_governor = None,
      rw_rest = \<lparr>so_guard_active = False, so_attempts = [], so_exchanges = []\<rparr>\<rparr>"

definition quiet_lab :: environment where
  "quiet_lab = \<lparr>en_os = (\<lambda>_ _ _. Inl TimedOut), en_upgrade = (\<lambda>_ _. Inr None),
     en_io = \<lparr>io_read = (\<lambda>_ _ _. Inl TimedOut), io_send = (\<lambda>_ _ _. Inl TimedOut)\<rparr>,
     en_cancelled = (\<lambda>_. False), en_seen = (\<lambda>_ _. 0), en_float_repr = (\<lambda>_. []),
     en_unicode = no_unicode, en_text = text_of_latin1, en_load_der = (\<lambda>_. None)\<rparr>"

abbreviation lab_config :: "sockets run_config" where
  "lab_config \<equiv> system_config quiet_lab split_resolver (\<lambda>s. s) (\<lambda>_. [])"

lemma claimed_world_ok:
  assumes "distinct modules"
  shows "run_ok ''a'' (claimed_world cancel modules)"
    and "scan_of ''a'' (claimed_world cancel modules) = Some (claimed_scan cancel modules)"
    and "load_scope_profile (rw_db (claimed_world cancel modules))
      (sc_scope_id (claimed_scan cancel modules)) = Inr lab_scope"
    and "statuses ''a'' (claimed_world cancel modules) = map (\<lambda>m. (m, ModQueued)) modules"
proof -
  show "scan_of ''a'' (claimed_world cancel modules) = Some (claimed_scan cancel modules)"
    by (simp add: scan_of_def get_scan_def claimed_world_def claimed_scan_def queued_scan_def)
  have "distinct (map (\<lambda>m. (''a'', m)) modules)"
    using assms by (simp add: distinct_map inj_on_def)
  then show "run_ok ''a'' (claimed_world cancel modules)"
    by (auto simp: run_ok_def db_ok_def claimed_world_def claimed_scan_def queued_scan_def lab_db_def
        empty_db_def scan_exists_def scope_exists_def new_run_row_def contiguous_def events_of_def
        scan_of_def get_scan_def comp_def)
  show "load_scope_profile (rw_db (claimed_world cancel modules))
      (sc_scope_id (claimed_scan cancel modules)) = Inr lab_scope"
    using lab_scope_loaded
    by (simp add: load_scope_profile_def get_scope_def claimed_world_def claimed_scan_def queued_scan_def
        lab_db_def)
  show "statuses ''a'' (claimed_world cancel modules) = map (\<lambda>m. (m, ModQueued)) modules"
    by (simp add: statuses_def runs_of_def claimed_world_def new_run_row_def comp_def)
qed

lemma claimed_scan_fields [simp]:
  "sc_cancel_requested (claimed_scan c ms) = c" "sc_selected_modules (claimed_scan c ms) = ms"
  "sc_intensity_profile (claimed_scan c ms) = ''polite''"
  "sc_target_input (claimed_scan c ms) = ''192.168.1.10''"
  by (simp_all add: claimed_scan_def queued_scan_def)

lemma lab_answer: "target_answer R lab_scope ''192.168.1.10'' = Inr lab_target"
  by (simp add: target_answer_def lab_target_valid_any)

lemma lab_has_discovery: "registry_has (rc_registry lab_config) ''host_discovery''"
  using scan_registry_get [of quiet_lab discovery_name "host_discovery_module quiet_lab"]
    registry_get_Inl_iff [of "scan_registry quiet_lab" discovery_name]
  by (auto simp: system_config_def discovery_name_def)

lemma lab_claimed:
  assumes "distinct modules" and "list_all (registry_has (rc_registry lab_config)) modules"
  shows "\<exists>w'. execute_scan lab_config ''a'' (claimed_world True modules) = (Inr ScanCanceled, w')
    \<and> rw_rest w' = rw_rest (claimed_world True modules)
    \<and> ended ''a'' ScanCanceled (map (\<lambda>m. (m, ModSkipped)) modules) w'"
proof -
  have "target_answer (rc_resolver lab_config) lab_scope (sc_target_input (claimed_scan True modules))
      = Inr lab_target"
    by (simp add: lab_answer)
  moreover have "new_governor (sc_intensity_profile (claimed_scan True modules)) None 0 = Inr lab_governor"
    using lab_governor_new by simp
  ultimately show ?thesis
    using execute_canceled [OF claimed_world_ok(1,2) [OF assms(1)] _ claimed_world_ok(3) [OF assms(1)],
      of True lab_governor lab_config lab_target] assms(2) claimed_world_ok(4) [OF assms(1), of True]
    by (simp add: skip_open_def comp_def)
qed

lemma attempts_stay_in_scope_witness:
  "list_all at_guarded (so_attempts (rw_rest (snd (execute_scan lab_config ''a''
     (claimed_world False [''host_discovery''])))))"
proof -
  have d: "distinct [''host_discovery'']" by simp
  obtain r w' where "execute_scan lab_config ''a'' (claimed_world False [''host_discovery'']) = (r, w')"
    by fastforce
  from attempts_stay_in_scope [OF claimed_world_ok(1-3) [OF d] this] this show ?thesis
    by (auto simp: list_all_iff claimed_world_def)
qed



lemma canceled_scan_stops_witness:
  "so_attempts (rw_rest (snd (execute_scan lab_config ''a'' (claimed_world True [''host_discovery''])))) = []"
proof -
  have d: "distinct [''host_discovery'']" by simp
  have "\<exists>w'. execute_scan lab_config ''a'' (claimed_world True [''host_discovery'']) = (Inr ScanCanceled, w')
      \<and> rw_rest w' = rw_rest (claimed_world True [''host_discovery''])
      \<and> ended ''a'' ScanCanceled (skip_open (statuses ''a'' (claimed_world True [''host_discovery'']))) w'"
    by (rule canceled_scan_stops [OF claimed_world_ok(1,2) [OF d] _ claimed_world_ok(3) [OF d],
        of _ lab_governor _ lab_target])
      (use lab_answer lab_governor_new lab_has_discovery in simp_all)
  then show ?thesis by (auto simp: claimed_world_def)
qed

lemma unknown_module_strands_scan_witness:
  "\<exists>e w'. execute_scan lab_config ''a'' (claimed_world False [''gone'']) = (Inl (RunnerApp e), w')
     \<and> scan_of ''a'' w' = Some (claimed_scan False [''gone''])"
proof -
  have d: "distinct [''gone'']" by simp
  have "\<not> registry_has (rc_registry lab_config) ''gone''"
    using registry_get_Inl_iff [of "scan_registry quiet_lab" "''gone''"]
      scan_registry_get [of quiet_lab "''gone''"]
    by (cases "registry_get (scan_registry quiet_lab) ''gone''")
      (auto simp: system_config_def module_name_defs)
  then show ?thesis
    using unknown_module_strands_scan [OF claimed_world_ok(1-3) [OF d], of False lab_governor lab_config lab_target]
      lab_answer lab_governor_new by auto
qed

end
