(* ===== verification/Api.thy ===== *)
theory Api
  imports Scan_Service "HOL-Library.Option_ord"
begin

text \<open>
  The routes of \<open>backend/app/api\<close>: scope profiles, scans, findings and the ledger.  A handler
  returns its response or raises; \<open>handle_app_error\<close> of \<open>main.py\<close> turns a typed error into the
  HTTP answer, anything else is a 500 of the framework.  The bounds FastAPI checks on a query's
  \<open>limit\<close> and \<open>offset\<close> before the handler runs are the predicates \<open>page_ok\<close>.
\<close>

section \<open>Responses\<close>

record http_answer =
  ha_status :: nat
  ha_body :: json_object

definition handle_app_error :: "app_error \<Rightarrow> http_answer" where
  "handle_app_error e = \<lparr>ha_status = class_http_status (err_class e), ha_body = to_payload e\<rparr>"

record scope_create =
  sq_name :: py_str
  sq_entries :: "py_str list"
  sq_allow_cgnat :: bool
  sq_allow_link_local :: bool

record scope_read =
  so_id :: py_str
  so_name :: py_str
  so_entries :: "py_str list"
  so_allow_cgnat :: bool
  so_allow_link_local :: bool
  so_created_at :: int
  so_updated_at :: int

record run_read =
  rr_module :: py_str
  rr_status :: module_status
  rr_attempt_count :: int
  rr_cache_hit :: bool
  rr_finding_count :: int
  rr_error_code :: "py_str option"
  rr_error_message :: "py_str option"
  rr_started_at :: "int option"
  rr_finished_at :: "int option"

record scan_summary =
  su_id :: py_str
  su_scope_id :: py_str
  su_target_input :: py_str
  su_target_normalized :: py_str
  su_target_type :: target_type
  su_intensity_profile :: py_str
  su_status :: scan_status
  su_note :: "py_str option"
  su_created_at :: int
  su_started_at :: "int option"
  su_finished_at :: "int option"

record scan_detail = scan_summary +
  sd_resolved_addresses :: "py_str list"
  sd_selected_modules :: "py_str list"
  sd_attestation_text :: py_str
  sd_attestation_version :: py_str
  sd_attestation_at :: int
  sd_cancel_requested :: bool
  sd_module_runs :: "run_read list"

record finding_read =
  fo_id :: py_str
  fo_host :: py_str
  fo_port :: "int option"
  fo_category :: finding_category
  fo_kind :: py_str
  fo_title :: py_str
  fo_summary :: py_str
  fo_normalized_value :: json_object
  fo_raw_evidence :: "py_str option"
  fo_module :: py_str
  fo_observed_at :: int
  fo_confidence :: "confidence option"
  fo_sources :: "py_str list"
  fo_fingerprint :: py_str

record ledger_read = ledger_args +
  lo_recorded_at :: int
  lo_scan_id :: "py_str option"
  lo_scope_id :: "py_str option"

record 'a page =
  pg_items :: "'a list"
  pg_total :: int
  pg_limit :: nat
  pg_offset :: nat

section \<open>Scope profiles\<close>

definition scope_to_read :: "scope_row \<Rightarrow> scope_read" where
  "scope_to_read r = \<lparr>so_id = sr_id r, so_name = sr_name r, so_entries = sr_entries r,
     so_allow_cgnat = sr_allow_cgnat r, so_allow_link_local = sr_allow_link_local r,
     so_created_at = sr_created_at r, so_updated_at = sr_updated_at r\<rparr>"

definition validate_payload :: "scope_create \<Rightarrow> app_error + unit" where
  "validate_payload p =
     (case create_scope (sq_name p) (sq_entries p) (sq_allow_cgnat p) (sq_allow_link_local p) of
        Inl message \<Rightarrow> Inl (app_error ScopeInvalidError message)
      | Inr _ \<Rightarrow> Inr ())"

definition list_scopes :: "database \<Rightarrow> scope_read list" where
  "list_scopes d = map scope_to_read (sort_key sr_name (db_scopes d))"

definition create_scope_profile :: "scope_create \<Rightarrow> database \<Rightarrow> (service_exn + scope_read) \<times> database" where
  "create_scope_profile p d =
     (case validate_payload p of
        Inl e \<Rightarrow> (Inl (AppExn e), d)
      | Inr _ \<Rightarrow>
          if list_ex (\<lambda>r. sr_name r = sq_name p) (db_scopes d)
          then (Inl (AppExn (app_error ScopeInvalidError
                  (''a scope profile named '' @ py_repr (sq_name p) @ '' already exists''))), d)
          else
            (let row = \<lparr>sr_id = new_uuid d, sr_name = sq_name p, sr_entries = sq_entries p,
                   sr_allow_cgnat = sq_allow_cgnat p, sr_allow_link_local = sq_allow_link_local p,
                   sr_created_at = utcnow d, sr_updated_at = utcnow (tick d)\<rparr>
             in case insert_scope row (use_uuid (tick (tick d))) of
                  Inl e \<Rightarrow> (Inl (DbExn e), d)
                | Inr d' \<Rightarrow> (Inr (scope_to_read row), d')))"

text \<open>
  The ORM writes a changed row only, and stamps \<open>updated_at\<close> when it does; the unique constraint on
  the name is the database's.
\<close>

definition updated_scope :: "scope_create \<Rightarrow> scope_row \<Rightarrow> scope_row" where
  "updated_scope p r = r\<lparr>sr_name := sq_name p, sr_entries := sq_entries p,
     sr_allow_cgnat := sq_allow_cgnat p, sr_allow_link_local := sq_allow_link_local p\<rparr>"

definition write_scope :: "scope_row \<Rightarrow> database \<Rightarrow> db_error + database" where
  "write_scope row d =
     (if list_ex (\<lambda>r. sr_id r \<noteq> sr_id row \<and> sr_name r = sr_name row) (db_scopes d)
      then Inl (IntegrityError ''scope_profiles.name'')
      else Inr (d\<lparr>db_scopes := map (\<lambda>r. if sr_id r = sr_id row then row else r) (db_scopes d)\<rparr>))"

definition scope_missing :: "py_str \<Rightarrow> app_error" where
  "scope_missing scope_id = app_error ScopeNotFoundError (''no scope profile with id '' @ py_repr scope_id)"

definition update_scope :: "py_str \<Rightarrow> scope_create \<Rightarrow> database \<Rightarrow> (service_exn + scope_read) \<times> database" where
  "update_scope scope_id p d =
     (case validate_payload p of
        Inl e \<Rightarrow> (Inl (AppExn e), d)
      | Inr _ \<Rightarrow>
          (case get_scope d scope_id of
             None \<Rightarrow> (Inl (AppExn (scope_missing scope_id)), d)
           | Some r \<Rightarrow>
               if updated_scope p r = r then (Inr (scope_to_read r), d)
               else
                 (let row = (updated_scope p r)\<lparr>sr_updated_at := utcnow d\<rparr> in
                  case write_scope row (tick d) of
                    Inl e \<Rightarrow> (Inl (DbExn e), d)
                  | Inr d' \<Rightarrow> (Inr (scope_to_read row), d'))))"

definition delete_scope :: "py_str \<Rightarrow> database \<Rightarrow> (service_exn + unit) \<times> database" where
  "delete_scope scope_id d =
     (case get_scope d scope_id of
        None \<Rightarrow> (Inl (AppExn (scope_missing scope_id)), d)
      | Some r \<Rightarrow>
          if list_ex (\<lambda>s. sc_scope_id s = scope_id) (db_scans d)
          then (Inl (AppExn (app_error ScopeInUseError
                  (''this scope profile is referenced by stored scans; delete those scans first ''
                   @ ''so their audit record never loses the scope it was authorized against''))), d)
          else (Inr (), d\<lparr>db_scopes := filter (\<lambda>r. sr_id r \<noteq> scope_id) (db_scopes d)\<rparr>))"

section \<open>Scans\<close>

definition scan_to_summary :: "scan_row \<Rightarrow> scan_summary" where
  "scan_to_summary s = \<lparr>su_id = sc_id s, su_scope_id = sc_scope_id s,
     su_target_input = sc_target_input s, su_target_normalized = sc_target_normalized s,
     su_target_type = sc_target_type s, su_intensity_profile = sc_intensity_profile s,
     su_status = sc_status s, su_note = sc_note s, su_created_at = sc_created_at s,
     su_started_at = sc_started_at s, su_finished_at = sc_finished_at s\<rparr>"

definition run_to_read :: "run_row \<Rightarrow> run_read" where
  "run_to_read r = \<lparr>rr_module = rn_module r, rr_status = rn_status r,
     rr_attempt_count = rn_attempt_count r, rr_cache_hit = rn_cache_hit r,
     rr_finding_count = rn_finding_count r, rr_error_code = rn_error_code r,
     rr_error_message = rn_error_message r, rr_started_at = rn_started_at r,
     rr_finished_at = rn_finished_at r\<rparr>"

definition scan_to_detail :: "scan_row \<Rightarrow> run_row list \<Rightarrow> scan_detail" where
  "scan_to_detail s runs = scan_summary.extend (scan_to_summary s)
     \<lparr>sd_resolved_addresses = sc_resolved_addrs s, sd_selected_modules = sc_selected_modules s,
      sd_attestation_text = sc_attestation_text s, sd_attestation_version = sc_attestation_version s,
      sd_attestation_at = sc_attestation_at s, sd_cancel_requested = sc_cancel_requested s,
      sd_module_runs = map run_to_read runs\<rparr>"

definition page_ok :: "nat \<Rightarrow> nat \<Rightarrow> bool" where
  "page_ok highest limit \<longleftrightarrow> 1 \<le> limit \<and> limit \<le> highest"

definition page_of :: "nat \<Rightarrow> nat \<Rightarrow> 'a list \<Rightarrow> ('a \<Rightarrow> 'b) \<Rightarrow> 'b page" where
  "page_of limit offset rows f = \<lparr>pg_items = map f (take limit (drop offset rows)),
     pg_total = int (length rows), pg_limit = limit, pg_offset = offset\<rparr>"

definition list_scans :: "nat \<Rightarrow> nat \<Rightarrow> py_str option \<Rightarrow> database \<Rightarrow> scan_summary page" where
  "list_scans limit offset status d =
     page_of limit offset
       (sort_key (\<lambda>s. - sc_created_at s) (filter (\<lambda>s. case status of None \<Rightarrow> True
          | Some t \<Rightarrow> scan_status_str (sc_status s) = t) (db_scans d)))
       scan_to_summary"

definition scan_missing :: "py_str \<Rightarrow> app_error" where
  "scan_missing scan_id = app_error ScanNotFoundError (''no scan with id '' @ py_repr scan_id)"

definition read_scan :: "py_str \<Rightarrow> database \<Rightarrow> service_exn + scan_detail" where
  "read_scan scan_id d =
     (case get_scan d scan_id of
        None \<Rightarrow> Inl (AppExn (scan_missing scan_id))
      | Some s \<Rightarrow> Inr (scan_to_detail s (sort_key rn_module (runs_of d scan_id))))"

definition queue_scan :: "resolver \<Rightarrow> 'w registry \<Rightarrow> scan_create \<Rightarrow> database \<Rightarrow>
    (service_exn + scan_detail) \<times> database" where
  "queue_scan resolver reg request d =
     (case create_scan resolver reg request d of
        (Inl e, d') \<Rightarrow> (Inl e, d')
      | (Inr scan_id, d') \<Rightarrow> (read_scan scan_id d', d'))"

definition cancel_scan :: "py_str \<Rightarrow> database \<Rightarrow> (service_exn + scan_detail) \<times> database" where
  "cancel_scan scan_id d =
     (case get_scan d scan_id of
        None \<Rightarrow> (Inl (AppExn (scan_missing scan_id)), d)
      | Some s \<Rightarrow>
          if scan_terminal (sc_status s)
          then (Inl (AppExn (app_error ScanAlreadyTerminalError
                  (''this scan already finished with status '' @ py_repr (scan_status_str (sc_status s))))), d)
          else
            (let d' = update_scans (\<lambda>x. sc_id x = scan_id) (\<lambda>x. x\<lparr>sc_cancel_requested := True\<rparr>) d
             in (read_scan scan_id d', d')))"

definition delete_scan :: "py_str \<Rightarrow> database \<Rightarrow> (service_exn + unit) \<times> database" where
  "delete_scan scan_id d =
     (case get_scan d scan_id of
        None \<Rightarrow> (Inl (AppExn (scan_missing scan_id)), d)
      | Some s \<Rightarrow> (Inr (), delete_scans (\<lambda>x. sc_id x = scan_id) d))"

section \<open>Findings and the ledger\<close>

definition matches :: "'a option \<Rightarrow> 'a \<Rightarrow> bool" where
  "matches want x = (case want of None \<Rightarrow> True | Some y \<Rightarrow> x = y)"

text \<open>SQLite orders a missing port before every port, as the order on options does.\<close>

definition finding_to_read :: "finding_row \<Rightarrow> finding_read" where
  "finding_to_read r = \<lparr>fo_id = fr_id r, fo_host = fr_host r, fo_port = fr_port r,
     fo_category = fr_category r, fo_kind = fr_kind r, fo_title = fr_title r,
     fo_summary = fr_summary r, fo_normalized_value = fr_normalized_value r,
     fo_raw_evidence = fr_raw_evidence r, fo_module = fr_module r, fo_observed_at = fr_observed_at r,
     fo_confidence = fr_confidence r, fo_sources = fr_sources r, fo_fingerprint = fr_fingerprint r\<rparr>"

definition list_findings :: "py_str \<Rightarrow> py_str option \<Rightarrow> py_str option \<Rightarrow> py_str option \<Rightarrow> nat \<Rightarrow> nat \<Rightarrow>
    database \<Rightarrow> service_exn + finding_read page" where
  "list_findings scan_id category module_name host limit offset d =
     (if get_scan d scan_id = None then Inl (AppExn (scan_missing scan_id))
      else Inr (page_of limit offset
        (sort_key fr_host (sort_key fr_port (sort_key fr_kind
          (filter (\<lambda>r. fr_scan_id r = scan_id \<and> matches category (finding_category_str (fr_category r))
              \<and> matches module_name (fr_module r) \<and> matches host (fr_host r)) (db_findings d)))))
        finding_to_read))"

definition ledger_to_read :: "ledger_row \<Rightarrow> ledger_read" where
  "ledger_to_read r = ledger_args.extend (ledger_args.truncate r)
     \<lparr>lo_recorded_at = lr_created_at r, lo_scan_id = lr_scan_id r, lo_scope_id = lr_scope_id r\<rparr>"

definition scan_ledger :: "py_str \<Rightarrow> database \<Rightarrow> service_exn + ledger_read list" where
  "scan_ledger scan_id d =
     (if get_scan d scan_id = None then Inl (AppExn (scan_missing scan_id))
      else Inr (map (\<lambda>r. (ledger_to_read r)\<lparr>lo_scan_id := None, lo_scope_id := None\<rparr>)
        (sort_key lr_created_at (sort_key lr_id
          (filter (\<lambda>r. lr_scan_id r = Some scan_id) (db_ledger d))))))"

definition list_ledger :: "py_str option \<Rightarrow> py_str option \<Rightarrow> nat \<Rightarrow> nat \<Rightarrow> database \<Rightarrow> ledger_read page" where
  "list_ledger want scope_id limit offset d =
     page_of limit offset
       (sort_key (\<lambda>r. - lr_created_at r) (sort_key lr_id
         (filter (\<lambda>r. matches want (decision_str (le_decision r))
            \<and> (case scope_id of None \<Rightarrow> True | Some i \<Rightarrow> lr_scope_id r = Some i)) (db_ledger d))))
       ledger_to_read"

definition list_refusals :: "nat \<Rightarrow> nat \<Rightarrow> database \<Rightarrow> ledger_read page" where
  "list_refusals limit offset d = list_ledger (Some ''denied'') None limit offset d"

section \<open>The event stream\<close>

text \<open>
  The route of the events: a scan that is not there is an error before any queue exists; otherwise the
  stream subscribes, sends what the client missed and goes on with its queue (\<open>stream_turn\<close>).  However
  it ends, the \<open>finally\<close> unsubscribes.
\<close>

definition scan_events :: "py_str \<Rightarrow> int \<Rightarrow> database \<Rightarrow> publisher \<Rightarrow>
    (service_exn + nat \<times> sse_frame list) \<times> publisher" where
  "scan_events scan_id last_event_id d p =
     (if get_scan d scan_id = None then (Inl (AppExn (scan_missing scan_id)), p)
      else (case subscribe scan_id p of
              (q, p1) \<Rightarrow> (Inr (q, stream_replay d scan_id last_event_id), p1)))"

definition end_stream :: "py_str \<Rightarrow> nat \<Rightarrow> publisher \<Rightarrow> publisher" where
  "end_stream scan_id q p = unsubscribe scan_id q p"

lemma stream_leaves_no_subscriber:
  assumes "scan_events i k d p = (r, p1)" and "publisher_ok p"
  shows "dict_get (pb_subscribers (case r of Inl e \<Rightarrow> p1 | Inr (q, fs) \<Rightarrow> end_stream i q p1)) j []
    = dict_get (pb_subscribers p) j []"
proof (cases "get_scan d i = None")
  case False
  let ?q = "pb_created p" and ?subs = "dict_get (pb_subscribers p) i []"
  have "r = Inr (?q, stream_replay d i k)" "p1 = snd (subscribe i p)"
    using assms(1) False by (auto simp: scan_events_def subscribe_def Let_def)
  moreover have "filter (\<lambda>x. x \<noteq> ?q) (?subs @ [?q]) = ?subs"
    using fresh_queue [OF assms(2), of i] by (auto simp: filter_id_conv)
  moreover have "map_of (pb_subscribers (snd (subscribe i p))) i = Some (?subs @ [?q])"
    by (simp add: subscribe_def Let_def update_conv)
  ultimately show ?thesis
    by (simp add: end_stream_def unsubscribe_def Let_def subscribe_def del: filter_append)
qed (use assms(1) in \<open>auto simp: scan_events_def\<close>)

section \<open>Requests\<close>

text \<open>
  The requests that change something, as a client sends them.  FastAPI answers a body that breaks
  a bound of its model with 422 before the handler runs, and an exception that is not a typed
  error with 500.
\<close>

datatype request = PostScope scope_create | PutScope py_str scope_create | DeleteScope py_str
  | PostScan scan_create | CancelScan py_str | DeleteScan py_str

definition valid_scope_create :: "scope_create \<Rightarrow> bool" where
  "valid_scope_create p \<longleftrightarrow> 1 \<le> length (sq_name p) \<and> length (sq_name p) \<le> 120 \<and> sq_entries p \<noteq> []"

definition MAX_TARGET_LENGTH :: nat where "MAX_TARGET_LENGTH = 255"

definition valid_scan_create :: "scan_create \<Rightarrow> bool" where
  "valid_scan_create q \<longleftrightarrow> 1 \<le> length (rq_target q) \<and> length (rq_target q) \<le> MAX_TARGET_LENGTH
     \<and> rq_modules q \<noteq> [] \<and> (case rq_note q of None \<Rightarrow> True | Some n \<Rightarrow> length n \<le> 2000)"

definition answer :: "nat \<Rightarrow> (service_exn + 'a) \<times> database \<Rightarrow> nat \<times> database" where
  "answer success = (\<lambda>(r, d). case r of
     Inr _ \<Rightarrow> (success, d)
   | Inl (AppExn e) \<Rightarrow> (ha_status (handle_app_error e), d)
   | Inl _ \<Rightarrow> (500, d))"

definition handle :: "resolver \<Rightarrow> 'w registry \<Rightarrow> request \<Rightarrow> database \<Rightarrow> nat \<times> database" where
  "handle resolver reg q d =
     (case q of
        PostScope p \<Rightarrow> if valid_scope_create p then answer 201 (create_scope_profile p d) else (422, d)
      | PutScope i p \<Rightarrow> if valid_scope_create p then answer 200 (update_scope i p d) else (422, d)
      | DeleteScope i \<Rightarrow> answer 204 (delete_scope i d)
      | PostScan p \<Rightarrow> if valid_scan_create p then answer 202 (queue_scan resolver reg p d) else (422, d)
      | CancelScan i \<Rightarrow> answer 200 (cancel_scan i d)
      | DeleteScan i \<Rightarrow> answer 204 (delete_scan i d))"

section \<open>Facts\<close>

lemma error_status: "400 \<le> class_http_status c"
  by (cases c) simp_all

lemma db_ok_scopes:
  "db_ok d \<Longrightarrow> distinct (map sr_id S) \<Longrightarrow> distinct (map sr_name S) \<Longrightarrow>
   sc_scope_id ` set (db_scans d) \<subseteq> sr_id ` set S \<Longrightarrow> db_ok (d\<lparr>db_scopes := S\<rparr>)"
  by (auto simp: db_ok_def scope_exists_iff scan_exists_iff)

lemma scopes_referenced: "db_ok d \<Longrightarrow> sc_scope_id ` set (db_scans d) \<subseteq> sr_id ` set (db_scopes d)"
  by (auto simp: db_ok_def scope_exists_iff)

lemma write_scope_ok:
  assumes ok: "db_ok d" and "write_scope row d = Inr d'"
  shows "db_ok d'"
proof -
  let ?S = "map (\<lambda>r. if sr_id r = sr_id row then row else r) (db_scopes d)"
  from assms(2) have d': "d' = d\<lparr>db_scopes := ?S\<rparr>"
    and free: "\<forall>x \<in> set (db_scopes d). sr_id x = sr_id row \<or> sr_name x \<noteq> sr_name row"
    by (auto simp: write_scope_def list_ex_iff split: if_splits)
  have ids: "map sr_id ?S = map sr_id (db_scopes d)" by simp
  then have sets: "sr_id ` set ?S = sr_id ` set (db_scopes d)" by (metis set_map)
  have "distinct (map sr_name ?S)"
    using ok free by (auto simp: db_ok_def distinct_map inj_on_def)
  moreover have "distinct (map sr_id ?S)"
    using ok by (simp only: ids db_ok_def)
  ultimately show ?thesis
    using scopes_referenced [OF ok] unfolding d' by (intro db_ok_scopes [OF ok]) (simp_all only: sets)
qed

text \<open>
  What every changing request keeps: a successful one the integrity of the database, a failed one
  every table but the ledger; and both every ledger row but those of a scan that is deleted.
\<close>

definition outlives :: "request \<Rightarrow> ledger_row \<Rightarrow> bool" where
  "outlives q r \<longleftrightarrow> (case q of DeleteScan i \<Rightarrow> lr_scan_id r \<noteq> Some i | _ \<Rightarrow> True)"

definition request_keeps :: "request \<Rightarrow> (service_exn + 'a) \<times> database \<Rightarrow> database \<Rightarrow> bool" where
  "request_keeps q m d \<longleftrightarrow> (case m of (r, d') \<Rightarrow> db_ok d' \<and> ((\<exists>e. r = Inl e) \<longrightarrow> only_ledger_grows d d')
     \<and> (\<exists>new. db_ledger d' = filter (outlives q) (db_ledger d) @ new))"

lemma unchanged_keeps:
  "db_ok d \<Longrightarrow> (\<And>r. r \<in> set (db_ledger d) \<Longrightarrow> outlives q r) \<Longrightarrow> request_keeps q (r, d) d"
  by (simp add: request_keeps_def only_ledger_grows_def filter_id_conv)

lemma written_keeps:
  "db_ok d' \<Longrightarrow> db_ledger d' = filter (outlives q) (db_ledger d) \<Longrightarrow> request_keeps q (Inr a, d') d"
  by (simp add: request_keeps_def)

lemma all_outlive: "(\<And>i. q \<noteq> DeleteScan i) \<Longrightarrow> outlives q = (\<lambda>_. True)"
  by (auto simp: outlives_def fun_eq_iff split: request.splits)

lemma create_scope_profile_keeps:
  assumes "db_ok d"
  shows "request_keeps (PostScope p) (create_scope_profile p d) d"
proof -
  have "request_keeps (PostScope p) (Inr a, d') d"
    if "insert_scope row (use_uuid (tick (tick d))) = Inr d'" for a row d'
    using that insert_scope_ok [OF that] assms
    by (intro written_keeps) (auto simp: insert_scope_def all_outlive split: if_splits)
  with assms show ?thesis
    by (auto simp: create_scope_profile_def Let_def all_outlive split: sum.splits intro!: unchanged_keeps)
qed

lemma update_scope_keeps:
  assumes "db_ok d"
  shows "request_keeps (PutScope i p) (update_scope i p d) d"
proof -
  have "request_keeps (PutScope i p) (Inr a, d') d" if "write_scope row (tick d) = Inr d'" for a row d'
    using that write_scope_ok [OF _ that] assms
    by (intro written_keeps) (auto simp: write_scope_def all_outlive split: if_splits)
  with assms show ?thesis
    by (auto simp: update_scope_def Let_def all_outlive split: sum.splits option.splits intro!: unchanged_keeps)
qed

lemma delete_scope_keeps:
  assumes "db_ok d"
  shows "request_keeps (DeleteScope i) (delete_scope i d) d"
proof (cases "get_scope d i = None \<or> list_ex (\<lambda>s. sc_scope_id s = i) (db_scans d)")
  case True
  with assms show ?thesis
    by (auto simp: delete_scope_def all_outlive split: option.splits intro!: unchanged_keeps)
next
  case False
  let ?S = "filter (\<lambda>r. sr_id r \<noteq> i) (db_scopes d)"
  have "sc_scope_id s \<in> sr_id ` set ?S" if s: "s \<in> set (db_scans d)" for s
  proof -
    have "sc_scope_id s \<noteq> i" using False s by (auto simp: list_ex_iff)
    moreover have "sc_scope_id s \<in> sr_id ` set (db_scopes d)" using scopes_referenced [OF assms] s by blast
    ultimately show ?thesis by (auto simp: image_iff)
  qed
  then have "db_ok (d\<lparr>db_scopes := ?S\<rparr>)"
    using assms by (intro db_ok_scopes) (auto simp: db_ok_def distinct_map_filter)
  moreover from False obtain r where "get_scope d i = Some r" by auto
  ultimately show ?thesis
    using False by (simp add: delete_scope_def all_outlive written_keeps)
qed

lemma create_scan_keeps:
  assumes "db_ok d" and "create_scan resolver reg p d = (r, d')"
  shows "db_ok d' \<and> ((\<exists>e. r = Inl e) \<longrightarrow> only_ledger_grows d d') \<and> (\<exists>new. db_ledger d' = db_ledger d @ new)
    \<and> (\<forall>i. r = Inr i \<longrightarrow> scan_exists d' i)"
proof -
  have refl: "only_ledger_grows d d" by (simp add: only_ledger_grows_def)
  let ?sink = "db_sink \<lparr>dl_scan_id = None, dl_scope_id = Some (rq_scope_id p)\<rparr>"
  show ?thesis
  proof (cases "check_request reg p d")
    case (Inl e)
    then show ?thesis using assms refl by (auto simp: create_scan_def)
  next
    case (Inr scope)
    obtain t d1 where v: "validate_target ?sink resolver scope (rq_target p) d = (t, d1)" by fastforce
    have frame: "only_ledger_grows d d1" and ok1: "db_ok d1"
      using validate_target_frame [OF v] validate_target_ok [OF v assms(1)] .
    have ledger: "\<exists>new. db_ledger d1 = db_ledger d @ new" using frame by (simp add: only_ledger_grows_def)
    show ?thesis
    proof (cases "\<exists>i. r = Inr i")
      case True
      then obtain i target where "r = Inr i" and store: "store_scan p target d1 = Inr (i, d')"
        using assms(2) Inr v by (auto simp: create_scan_def split: sum.splits prod.splits guard_exn.splits)
      then show ?thesis
        using store_scan_ok [OF store ok1] store_scan_Inr [OF store] ledger
        by (auto simp: scan_exists_iff new_scan_row_def)
    next
      case False
      then have "d' = d1"
        using assms(2) Inr v by (auto simp: create_scan_def split: sum.splits prod.splits guard_exn.splits)
      then show ?thesis using frame ok1 ledger False by auto
    qed
  qed
qed

lemma queue_scan_keeps:
  assumes "db_ok d"
  shows "request_keeps (PostScan p) (queue_scan resolver reg p d) d"
proof -
  obtain r d' where c: "create_scan resolver reg p d = (r, d')" by fastforce
  note kept = create_scan_keeps [OF assms c]
  show ?thesis
  proof (cases r)
    case (Inl e)
    then show ?thesis using kept c by (simp add: queue_scan_def request_keeps_def all_outlive)
  next
    case (Inr i)
    then obtain a where "read_scan i d' = Inr a"
      using kept get_scan_None_iff [of d' i] by (auto simp: read_scan_def split: option.splits)
    then show ?thesis using kept c Inr by (simp add: queue_scan_def request_keeps_def all_outlive)
  qed
qed

lemma cancel_scan_keeps:
  assumes "db_ok d"
  shows "request_keeps (CancelScan i) (cancel_scan i d) d"
proof -
  let ?d = "update_scans (\<lambda>x. sc_id x = i) (\<lambda>x. x\<lparr>sc_cancel_requested := True\<rparr>) d"
  have "\<exists>a. read_scan i ?d = Inr a" if "get_scan d i = Some s" for s
  proof -
    have "scan_exists ?d i" using that get_scan_None_iff [of d i] by simp
    then show ?thesis using get_scan_None_iff [of ?d i] by (auto simp: read_scan_def split: option.splits)
  qed
  moreover have "db_ok ?d" using assms by (intro update_scans_ok) simp_all
  ultimately show ?thesis
    using assms unchanged_keeps [OF assms, of "CancelScan i"]
      written_keeps [of ?d "CancelScan i" d]
    by (cases "get_scan d i") (auto simp: cancel_scan_def Let_def all_outlive)
qed

lemma delete_scan_keeps:
  assumes "db_ok d"
  shows "request_keeps (DeleteScan i) (delete_scan i d) d"
proof (cases "get_scan d i")
  case None
  then have "lr_scan_id r \<noteq> Some i" if "r \<in> set (db_ledger d)" for r
    using that assms by (auto simp: db_ok_def get_scan_None_iff)
  with None assms show ?thesis
    by (auto simp: delete_scan_def outlives_def intro!: unchanged_keeps)
next
  case (Some s)
  let ?gone = "map sc_id (filter (\<lambda>x. sc_id x = i) (db_scans d))"
  have "set ?gone = {i}" using get_scan_in [OF Some] by auto
  then have "db_ledger (delete_scans (\<lambda>x. sc_id x = i) d) = filter (outlives (DeleteScan i)) (db_ledger d)"
    by (auto simp: delete_scans_def Let_def outlives_def intro!: filter_cong split: option.splits)
  with Some assms show ?thesis
    by (auto simp: delete_scan_def intro!: written_keeps delete_scans_ok)
qed

text \<open>
  Reading a list page by page: the pages of a limit, in order, are the list.
\<close>

lemma pages_concat:
  "concat (map (\<lambda>k. take limit (drop (k * limit) xs)) [0..<n]) = take (n * limit) xs"
proof (induction n)
  case (Suc n)
  have "take (Suc n * limit) xs = take (n * limit) xs @ take limit (drop (n * limit) xs)"
    by (simp only: mult_Suc add.commute [of limit] take_add)
  with Suc show ?case by simp
qed simp

lemma answer_keeps:
  assumes "request_keeps q m d" and "success < 400" and "answer success m = (st, d')"
  shows "db_ok d' \<and> (400 \<le> st \<longrightarrow> only_ledger_grows d d')
    \<and> (\<exists>new. db_ledger d' = filter (outlives q) (db_ledger d) @ new)"
  using assms by (auto simp: answer_def request_keeps_def handle_app_error_def
      split: sum.splits service_exn.splits prod.splits)

lemma rejected_keeps:
  "db_ok d \<Longrightarrow> outlives q = (\<lambda>_. True) \<Longrightarrow> db_ok d \<and> only_ledger_grows d d
    \<and> (\<exists>new. db_ledger d = filter (outlives q) (db_ledger d) @ new)"
  by (simp add: only_ledger_grows_def)

lemma handle_keeps:
  assumes "db_ok d" and "handle resolver reg q d = (st, d')"
  shows "db_ok d' \<and> (400 \<le> st \<longrightarrow> only_ledger_grows d d')
    \<and> (\<exists>new. db_ledger d' = filter (outlives q) (db_ledger d) @ new)"
proof (cases q)
  case (PostScope p)
  then show ?thesis
    using assms answer_keeps [OF create_scope_profile_keeps [OF assms(1)], of 201 p st d']
      rejected_keeps [OF assms(1), of q]
    by (auto simp: handle_def all_outlive split: if_splits)
next
  case (PutScope i p)
  then show ?thesis
    using assms answer_keeps [OF update_scope_keeps [OF assms(1)], of 200 i p st d']
      rejected_keeps [OF assms(1), of q]
    by (auto simp: handle_def all_outlive split: if_splits)
next
  case (DeleteScope i)
  then show ?thesis
    using assms answer_keeps [OF delete_scope_keeps [OF assms(1)], of 204 i st d']
    by (simp add: handle_def)
next
  case (PostScan p)
  then show ?thesis
    using assms answer_keeps [OF queue_scan_keeps [OF assms(1)], of 202 resolver reg p st d']
      rejected_keeps [OF assms(1), of q]
    by (auto simp: handle_def all_outlive split: if_splits)
next
  case (CancelScan i)
  then show ?thesis
    using assms answer_keeps [OF cancel_scan_keeps [OF assms(1)], of 200 i st d']
    by (simp add: handle_def)
next
  case (DeleteScan i)
  then show ?thesis
    using assms answer_keeps [OF delete_scan_keeps [OF assms(1)], of 204 i st d']
    by (simp add: handle_def)
qed

section \<open>What the API promises\<close>

text \<open>C14. No request breaks the stored record.  Whatever changing request arrives, the database keeps
  its integrity: names and keys stay unique and no row refers to a scan or a scope profile that is
  not there, so a scope profile used by a scan cannot be deleted.  A request that is answered with
  an error has changed no table but the ledger, and no request removes a ledger row, except the
  deletion of a scan, which takes that scan's rows.\<close>

theorem api_keeps_integrity:
  assumes "db_ok d" and "handle resolver reg q d = (st, d')"
  shows "db_ok d' \<and> (400 \<le> st \<longrightarrow> only_ledger_grows d d')
    \<and> (\<exists>new. db_ledger d' = filter (outlives q) (db_ledger d) @ new)"
  by (rule handle_keeps [OF assms])

lemma lab_scan_deleted:
  "handle (\<lambda>_. Inr []) lab_registry (DeleteScan ''a'') lab_db
    = (204, delete_scans (\<lambda>x. sc_id x = ''a'') lab_db)"
  by (simp add: handle_def answer_def delete_scan_def get_scan_def lab_db_def empty_db_def queued_scan_def)

lemma api_keeps_integrity_witness:
  "db_ok lab_db \<and> db_ok (delete_scans (\<lambda>x. sc_id x = ''a'') lab_db)"
  using api_keeps_integrity [OF lab_db_ok(1) lab_scan_deleted] lab_db_ok(1) by simp

text \<open>A ledger of three entries, read two at a time.\<close>

definition lab_ledger_db :: database where
  "lab_ledger_db = lab_db\<lparr>db_ledger :=
     [ledger_row_of \<lparr>dl_scan_id = None, dl_scope_id = None\<rparr> (denied_entry ''10.0.0.1'' None ''out'') ''x'' 1,
      ledger_row_of \<lparr>dl_scan_id = None, dl_scope_id = None\<rparr> (denied_entry ''10.0.0.2'' None ''out'') ''y'' 2,
      ledger_row_of \<lparr>dl_scan_id = None, dl_scope_id = None\<rparr> (denied_entry ''10.0.0.3'' None ''out'') ''z'' 3]\<rparr>"

text \<open>Paging hides nothing.  The pages of the ledger that the API serves for a fixed filter and a
  limit within the bounds, read from the first one on until they hold as many entries as their
  stated total, list together every matching entry exactly once, newest first.\<close>

theorem ledger_pages_complete:
  assumes "page_ok 500 limit" and "pg_total (list_ledger want scope_id limit 0 d) \<le> int (n * limit)"
  shows "concat (map (\<lambda>k. pg_items (list_ledger want scope_id limit (k * limit) d)) [0..<n])
    = map ledger_to_read (sort_key (\<lambda>r. - lr_created_at r) (sort_key lr_id
        (filter (\<lambda>r. matches want (decision_str (le_decision r))
          \<and> (case scope_id of None \<Rightarrow> True | Some i \<Rightarrow> lr_scope_id r = Some i)) (db_ledger d))))"
proof -
  define rows where "rows = sort_key (\<lambda>r. - lr_created_at r) (sort_key lr_id
        (filter (\<lambda>r. matches want (decision_str (le_decision r))
          \<and> (case scope_id of None \<Rightarrow> True | Some i \<Rightarrow> lr_scope_id r = Some i)) (db_ledger d)))"
  have "length rows \<le> n * limit"
    using assms(2) by (simp only: list_ledger_def page_of_def rows_def page.simps of_nat_le_iff)
  then have "concat (map (\<lambda>k. take limit (drop (k * limit) rows)) [0..<n]) = rows"
    by (simp add: pages_concat)
  then have "map ledger_to_read (concat (map (\<lambda>k. take limit (drop (k * limit) rows)) [0..<n]))
      = map ledger_to_read rows" by simp
  then show ?thesis
    by (simp add: list_ledger_def page_of_def map_concat comp_def flip: rows_def)
qed

lemma lab_ledger_total: "pg_total (list_ledger None None 2 0 lab_ledger_db) \<le> int (2 * 2)"
  by code_simp

lemma lab_ledger_sorted:
  "map le_destination (map ledger_to_read (sort_key (\<lambda>r. - lr_created_at r) (sort_key lr_id
      (filter (\<lambda>r. matches None (decision_str (le_decision r))
        \<and> (case None of None \<Rightarrow> True | Some i \<Rightarrow> lr_scope_id r = Some i)) (db_ledger lab_ledger_db)))))
   = [''10.0.0.3'', ''10.0.0.2'', ''10.0.0.1'']"
  by code_simp

lemma ledger_pages_complete_witness:
  "map le_destination (concat (map (\<lambda>k. pg_items (list_ledger None None 2 (k * 2) lab_ledger_db)) [0..<2]))
     = [''10.0.0.3'', ''10.0.0.2'', ''10.0.0.1'']"
  unfolding ledger_pages_complete [OF _ lab_ledger_total, unfolded page_ok_def, simplified]
  using lab_ledger_sorted by simp

end
