(* ===== verification/Scan_Frame.thy ===== *)
theory Scan_Frame
  imports Scan_System Api
begin

text \<open>
  What the execution of a scan leaves alone, and what it puts on record: no other scan starts
  running, and the ledger of the scan gains a row for each connection attempt.  The frame is a
  relation between worlds; an action is inside it when each of its steps is, so the proofs follow
  the text of the runner.  Requests that arrive while the scan runs are steps of it too.
\<close>

section \<open>The frame\<close>

definition running_others :: "py_str \<Rightarrow> database \<Rightarrow> py_str set" where
  "running_others i d = sc_id ` {s \<in> set (db_scans d). sc_status s = ScanRunning \<and> sc_id s \<noteq> i}"

definition distinct_scans :: "database \<Rightarrow> bool" where
  "distinct_scans d \<longleftrightarrow> distinct (map sc_id (db_scans d))"

definition db_frame :: "py_str \<Rightarrow> (py_str \<times> int option) list \<Rightarrow> database \<Rightarrow> database \<Rightarrow> bool" where
  "db_frame i probes d d' \<longleftrightarrow> distinct_scans d \<longrightarrow>
     distinct_scans d' \<and> running_others i d' \<subseteq> running_others i d
     \<and> (scan_exists d' i \<longrightarrow> scan_exists d i \<and> probe_rows (Some i) d' = probe_rows (Some i) d @ probes)"

definition gov_free :: "scan_world \<Rightarrow> bool" where
  "gov_free w \<longleftrightarrow> (case rw_governor w of None \<Rightarrow> True | Some g \<Rightarrow> slots_free g)"

definition run_frame :: "py_str \<Rightarrow> scan_world \<Rightarrow> scan_world \<Rightarrow> bool" where
  "run_frame i w w' \<longleftrightarrow> gov_free w \<longrightarrow> gov_free w'
     \<and> (\<exists>new. so_attempts (rw_rest w') = so_attempts (rw_rest w) @ new
         \<and> db_frame i (map probe_of new) (rw_db w) (rw_db w'))"

definition frames :: "py_str \<Rightarrow> (sockets, 'a) run_action \<Rightarrow> bool" where
  "frames i m \<longleftrightarrow> (\<forall>w. run_frame i w (snd (m w)))"

lemma db_frame_refl: "db_frame i [] d d"
  by (simp add: db_frame_def)

lemma db_frame_trans: "db_frame i xs d1 d2 \<Longrightarrow> db_frame i ys d2 d3 \<Longrightarrow> db_frame i (xs @ ys) d1 d3"
  by (auto simp: db_frame_def)

lemma db_frame_trans0: "db_frame i [] d1 d2 \<Longrightarrow> db_frame i [] d2 d3 \<Longrightarrow> db_frame i [] d1 d3"
  using db_frame_trans by fastforce

lemma run_frame_refl: "run_frame i w w"
  using db_frame_refl by (auto simp: run_frame_def)

lemma run_frame_trans:
  assumes "run_frame i w1 w2" and "run_frame i w2 w3"
  shows "run_frame i w1 w3"
  unfolding run_frame_def
proof
  assume free: "gov_free w1"
  from assms(1) free obtain new where one: "gov_free w2"
      "so_attempts (rw_rest w2) = so_attempts (rw_rest w1) @ new"
      "db_frame i (map probe_of new) (rw_db w1) (rw_db w2)"
    by (auto simp: run_frame_def)
  from assms(2) one(1) obtain more where two: "gov_free w3"
      "so_attempts (rw_rest w3) = so_attempts (rw_rest w2) @ more"
      "db_frame i (map probe_of more) (rw_db w2) (rw_db w3)"
    by (auto simp: run_frame_def)
  show "gov_free w3 \<and> (\<exists>new. so_attempts (rw_rest w3) = so_attempts (rw_rest w1) @ new
      \<and> db_frame i (map probe_of new) (rw_db w1) (rw_db w3))"
    using two(1,2) one(2) db_frame_trans [OF one(3) two(3)]
    by (intro conjI exI [of _ "new @ more"]) simp_all
qed

lemma run_frame_db:
  "db_frame i [] (rw_db w) (rw_db w') \<Longrightarrow> rw_governor w' = rw_governor w \<Longrightarrow> rw_rest w' = rw_rest w \<Longrightarrow> run_frame i w w'"
  by (auto simp: run_frame_def gov_free_def)

text \<open>Steps that leave the scans and the ledger alone, and steps that change scans one by one.\<close>

lemma same_frame: "db_scans d' = db_scans d \<Longrightarrow> db_ledger d' = db_ledger d \<Longrightarrow> db_frame i [] d d'"
  by (simp add: db_frame_def running_others_def distinct_scans_def scan_exists_def probe_rows_def)

lemma update_scans_frame:
  assumes "\<And>s. sc_id (f s) = sc_id s" and "\<And>s. P s \<Longrightarrow> sc_id s = i \<or> sc_status (f s) = sc_status s"
  shows "db_frame i [] d (update_scans P f d)"
proof -
  have ids: "map sc_id (db_scans (update_scans P f d)) = map sc_id (db_scans d)"
    using assms(1) by (simp add: update_scans_def)
  have "scan_exists (update_scans P f d) i \<longleftrightarrow> scan_exists d i"
    unfolding scan_exists_iff using arg_cong [OF ids, of set] by (simp only: set_map)
  moreover have "running_others i (update_scans P f d) \<subseteq> running_others i d"
    using assms by (force simp: running_others_def update_scans_def split: if_splits)
  moreover have "probe_rows (Some i) (update_scans P f d) = probe_rows (Some i) d"
    by (simp add: probe_rows_def update_scans_def)
  ultimately show ?thesis
    using ids by (simp only: db_frame_def distinct_scans_def append_Nil2 simp_thms)
qed

lemma delete_scans_frame: "db_frame i [] d (delete_scans P d)"
proof -
  have "probe_rows (Some i) (delete_scans P d) = probe_rows (Some i) d"
    if "distinct_scans d" "scan_exists (delete_scans P d) i"
  proof -
    from that(2) obtain s where s: "s \<in> set (db_scans d)" "\<not> P s" "sc_id s = i"
      by (auto simp: scan_exists_iff delete_scans_def Let_def)
    have "i \<notin> sc_id ` {t \<in> set (db_scans d). P t}"
      using that(1) s by (auto simp: distinct_scans_def distinct_map inj_on_def)
    then show ?thesis
      by (auto simp: probe_rows_def delete_scans_def Let_def intro!: arg_cong [where f = "map _"] filter_cong)
  qed
  then show ?thesis
    by (auto simp: db_frame_def distinct_scans_def distinct_map_filter running_others_def delete_scans_def
        Let_def scan_exists_iff)
qed

lemma run_retention_frame: "db_frame i [] d (snd (run_retention days now d))"
proof -
  obtain t d0 where rd: "read_now now d = (t, d0)" and d0: "d0 = d \<or> d0 = tick d" by (rule read_now_cases)
  obtain n d1 where one: "sweep_old_scans days now d = (n, d1)" by fastforce
  obtain t2 d2 where two: "read_now now d1 = (t2, d2)" "d2 = d1 \<or> d2 = tick d1" by (rule read_now_cases)
  have "db_frame i [] d d0" using d0 by (auto intro: same_frame)
  moreover have "db_frame i [] d0 d1"
    using one delete_scans_frame [of i d0] db_frame_refl [of i d0]
    by (auto simp: sweep_old_scans_def rd Let_def split: if_splits)
  moreover have "db_frame i [] d1 (snd (run_retention days now d))"
    using two(2) by (auto simp: run_retention_def one sweep_expired_cache_def two(1) intro!: same_frame)
  ultimately show ?thesis by (meson db_frame_trans0)
qed

section \<open>Actions inside the frame\<close>

lemma frames_return: "frames i (return_run a)" and frames_raise: "frames i (raise_run e)"
  by (simp_all add: frames_def return_run_def raise_run_def run_frame_refl)

lemma frames_bind:
  assumes "frames i m" and "\<And>w a w'. m w = (Inr a, w') \<Longrightarrow> frames i (f a)"
  shows "frames i (bind_run m f)"
  unfolding frames_def
proof
  fix w :: scan_world
  obtain r w1 where m: "m w = (r, w1)" by fastforce
  have one: "run_frame i w w1" using assms(1) m by (metis frames_def snd_conv)
  show "run_frame i w (snd (bind_run m f w))"
  proof (cases r)
    case (Inr a)
    then have "run_frame i w1 (snd (f a w1))" using assms(2) [of w a w1] m by (simp add: frames_def)
    then show ?thesis using Inr m run_frame_trans [OF one] by (simp add: bind_run_def)
  qed (simp add: bind_run_def m one)
qed

lemma frames_then: "frames i m \<Longrightarrow> frames i k \<Longrightarrow> frames i (then_run m k)"
  by (simp add: then_run_def frames_bind)

lemma frames_finally:
  assumes "frames i m" and "frames i k"
  shows "frames i (finally_run m k)"
  unfolding frames_def
proof
  fix w :: scan_world
  obtain r w1 where m: "m w = (r, w1)" by fastforce
  obtain q w2 where k: "k w1 = (q, w2)" by fastforce
  have "run_frame i w w1" "run_frame i w1 w2" using assms m k by (metis frames_def snd_conv)+
  then have "run_frame i w w2" by (rule run_frame_trans)
  then show "run_frame i w (snd (finally_run m k w))"
    by (simp add: finally_run_def m k split: sum.split)
qed

lemma frames_on_db: "(\<And>d. db_frame i [] d (f d)) \<Longrightarrow> frames i (on_db f)"
  by (simp add: frames_def on_db_def run_frame_db)

lemma frames_try_db: "(\<And>d d'. f d = Inr d' \<Longrightarrow> db_frame i [] d d') \<Longrightarrow> frames i (try_db f)"
  by (auto simp: frames_def try_db_def run_frame_refl split: sum.split intro!: run_frame_db)

lemma frames_cases: "(\<And>w. \<exists>k. frames i k \<and> m w = k w) \<Longrightarrow> frames i m"
  by (metis frames_def)

lemma publish_frame:
  assumes "publish m (d, p) = (r, d', p')"
  shows "db_frame i [] d d'"
  using assms by (auto simp: publish_def commit_event_def insert_event_def Let_def
      split: sum.splits if_splits intro!: same_frame)

lemma frames_publish_event: "frames i (publish_event j t payload m)"
  unfolding frames_def
proof
  fix w :: scan_world
  obtain r d p where "publish \<lparr>ms_scan_id = j, ms_event_type = t, ms_payload = payload, ms_module = m\<rparr>
      (rw_db w, rw_publisher w) = (r, d, p)" by (metis prod.exhaust)
  note pub = this publish_frame [OF this, of i]
  show "run_frame i w (snd (publish_event j t payload m w))"
    by (rule run_frame_db) (use pub in \<open>simp_all add: publish_event_def split: sum.split\<close>)
qed

lemma frames_update_runs: "frames i (on_db (\<lambda>d. update_runs (P d) (f d) (tick d)))"
  by (intro frames_on_db same_frame) simp_all

lemma frames_set_status: "frames i (set_module_status j n st reason c k hit)"
  unfolding set_module_status_def by (intro frames_then frames_update_runs frames_publish_event)

lemma frames_skip: "frames i (mark_remaining_skipped j reason)"
  unfolding mark_remaining_skipped_def by (rule frames_update_runs)

lemma frames_footprint: "frames i (publish_footprint j)"
  unfolding publish_footprint_def [abs_def] by (rule frames_cases) (blast intro: frames_publish_event)

lemma frames_finish: "frames i (finish_scan cfg i st reason)"
  unfolding finish_scan_def
proof (intro frames_then frames_on_db frames_publish_event frames_return run_retention_frame)
  fix d
  have "db_frame i [] (tick d) (update_scans (\<lambda>s. sc_id s = i) (finish_values st (utcnow d)) (tick d))"
    by (rule update_scans_frame) (simp_all add: finish_values_def)
  then show "db_frame i [] d (update_scans (\<lambda>s. sc_id s = i) (finish_values st (utcnow d)) (tick d))"
    using db_frame_trans0 [OF same_frame [of "tick d" d]] by simp
qed

lemma insert_findings_frame: "insert_findings sha j fs d = Inr d' \<Longrightarrow> db_frame i [] d d'"
proof (induction fs arbitrary: d)
  case (Cons f fs)
  from Cons.prems obtain d1 where one: "insert_finding (new_finding_row sha (new_uuid d) j f) (use_uuid d) = Inr d1"
    and rest: "insert_findings sha j fs d1 = Inr d'"
    by (auto simp: bind_sum_Inr_iff)
  from one have "db_frame i [] d d1" by (auto simp: insert_finding_def split: if_splits intro!: same_frame)
  then show ?case using Cons.IH [OF rest] by (rule db_frame_trans0)
qed (simp add: db_frame_refl)

lemma frames_store: "frames i (store_findings sha j fs)"
  unfolding store_findings_def using frames_return frames_try_db insert_findings_frame by auto

lemma frames_outcome: "frames i (record_outcome cfg j n md out fl)"
  unfolding record_outcome_def
  by (auto intro!: frames_then frames_set_status frames_return frames_raise frames_store split: sum.split option.split prod.split)

lemma frames_conclude: "frames i (conclude cfg i fl)"
  by (rule frames_cases)
    (auto simp: conclude_def cancel_scan_run_def intro: frames_then frames_skip frames_finish)

lemma frames_start: "frames i (start_governor intensity)"
  unfolding frames_def run_frame_def start_governor_def
  using db_frame_refl new_governor_slots_free by (auto simp: gov_free_def split: sum.splits)

section \<open>A scan inside the frame\<close>

text \<open>What the runner needs of its configuration: its modules and its watching tasks are inside.\<close>

locale framed_tasks =
  fixes cfg :: "sockets run_config" and i :: py_str
  assumes run_framed: "registry_get (rc_registry cfg) n = Inr m \<Longrightarrow> valid_context i S cx \<Longrightarrow>
      run_frame i w (snd (sm_run m cx w))"
    and watch_framed: "frames i (rc_watchers cfg i)"

context framed_tasks
begin

lemma frames_module:
  assumes "registry_get (rc_registry cfg) n = Inr m" and "valid_context i S cx"
  shows "frames i (run_module cfg i cx n m fl)"
proof -
  have "frames i (\<lambda>w. case sm_run m (cx\<lparr>cx_prior_findings := produced fl\<rparr>) w of
      (outcome, w1) \<Rightarrow> record_outcome cfg i n (sm_metadata m) outcome fl w1)"
    unfolding frames_def
  proof
    fix w :: scan_world
    obtain out w1 where m: "sm_run m (cx\<lparr>cx_prior_findings := produced fl\<rparr>) w = (out, w1)" by fastforce
    have "run_frame i w w1"
      using run_framed [OF assms(1), of S "cx\<lparr>cx_prior_findings := produced fl\<rparr>" w] assms(2) by (simp add: m)
    then show "run_frame i w (snd (case sm_run m (cx\<lparr>cx_prior_findings := produced fl\<rparr>) w of
        (outcome, w1) \<Rightarrow> record_outcome cfg i n (sm_metadata m) outcome fl w1))"
      using frames_outcome run_frame_trans by (simp add: m frames_def)
  qed
  then show ?thesis
    unfolding run_module_def
    by (intro frames_then frames_set_status frames_bind frames_finally watch_framed frames_footprint frames_return)
qed

lemma frames_modules:
  "valid_context i S cx \<Longrightarrow> frames i (run_modules cfg i tt cx ns fl)"
proof (induction ns arbitrary: fl)
  case Nil
  then show ?case by (simp add: frames_conclude)
next
  case (Cons n ns)
  have "frames i (cancel_scan_run cfg i)"
    unfolding cancel_scan_run_def by (intro frames_then frames_skip frames_finish)
  moreover have "frames i (bind_run (get_module cfg n) (\<lambda>m.
       if \<not> applies_to m tt
       then then_run (set_module_status i n ModNotApplicable
              (Some (''this module does not support a '' @ target_type_str tt @ '' target'')) None 0 False)
              (run_modules cfg i tt cx ns fl)
       else bind_run (run_module cfg i cx n m fl) (run_modules cfg i tt cx ns)))"
  proof (rule frames_bind)
    show "frames i (get_module cfg n)"
      by (simp add: frames_def get_module_def run_frame_refl split: sum.split)
    fix w m w' assume "get_module cfg n w = (Inr m, w')"
    then have m: "registry_get (rc_registry cfg) n = Inr m" by (auto simp: get_module_def split: sum.splits)
    show "frames i (if \<not> applies_to m tt
       then then_run (set_module_status i n ModNotApplicable
              (Some (''this module does not support a '' @ target_type_str tt @ '' target'')) None 0 False)
              (run_modules cfg i tt cx ns fl)
       else bind_run (run_module cfg i cx n m fl) (run_modules cfg i tt cx ns))"
      using Cons frames_module [OF m Cons.prems] by (auto intro!: frames_then frames_set_status frames_bind)
  qed
  ultimately show ?case by (intro frames_cases) auto
qed

lemma frames_dispatch:
  assumes "sc_id scan = i" and "created_scope scope"
    and "target_answer R scope t = Inr target"
  shows "frames i (dispatch cfg scan scope target)"
proof -
  have "valid_context i scope \<lparr>cx_scan_id = i, cx_target = target, cx_scope = scope,
      cx_options = sc_module_options scan, cx_prior_findings = []\<rparr>"
    using target_answer_covers [OF assms(2,3)] by (simp add: valid_context_def)
  note run = frames_modules [OF this]
  show ?thesis
    by (rule frames_cases, cases "module_order (rc_registry cfg) (sc_selected_modules scan)")
      (auto simp: dispatch_def assms(1) intro: run frames_raise [unfolded raise_run_def [abs_def]])
qed

end

lemma revalidate_fst:
  "revalidate cfg scan scope w = (a, w') \<Longrightarrow>
    a = Inr (target_answer (rc_resolver cfg) scope (sc_target_input scan))"
  using validate_target_answer [of "db_sink \<lparr>dl_scan_id = Some (sc_id scan),
      dl_scope_id = Some (sc_scope_id scan)\<rparr>" "rc_resolver cfg" scope "sc_target_input scan" "rw_db w" log_sink "[]"]
  by (auto simp: revalidate_def target_answer_def split: prod.splits)

lemma only_ledger_frame:
  "only_ledger_grows d d' \<Longrightarrow> probe_rows (Some i) d' = probe_rows (Some i) d @ xs \<Longrightarrow> db_frame i xs d d'"
  by (simp add: db_frame_def only_ledger_grows_def distinct_scans_def running_others_def scan_exists_def)

lemma validate_frame: "db_frame i [] d (snd (validate_target (db_sink b) R S t d))"
  using validate_target_frame [of b R S t d] validate_target_probes [of "Some i" b R S t d]
  by (cases "validate_target (db_sink b) R S t d") (auto intro!: only_ledger_frame)

lemma frames_revalidate: "frames i (revalidate cfg scan scope)"
  unfolding frames_def
proof
  fix w :: scan_world
  have "db_frame i [] (rw_db w) (rw_db (snd (revalidate cfg scan scope w)))"
    using validate_frame [of i "rw_db w" "\<lparr>dl_scan_id = Some (sc_id scan), dl_scope_id = Some (sc_scope_id scan)\<rparr>"
        "rc_resolver cfg" scope "sc_target_input scan"]
    by (simp add: revalidate_def split_beta)
  then show "run_frame i w (snd (revalidate cfg scan scope w))"
    by (rule run_frame_db) (simp_all add: revalidate_def split_beta)
qed

context framed_tasks
begin

lemma frames_execute: "frames i (execute_scan cfg i)"
proof (rule frames_cases)
  fix w :: scan_world
  show "\<exists>k. frames i k \<and> execute_scan cfg i w = k w"
  proof (cases "get_scan (rw_db w) i")
    case None
    then show ?thesis using frames_return by (fastforce simp: execute_scan_def return_run_def)
  next
    case scan: (Some scan)
    have id: "sc_id scan = i" using get_scan_in [OF scan] by simp
    show ?thesis
    proof (cases "get_scope (rw_db w) (sc_scope_id scan)")
      case None
      with scan show ?thesis by (auto simp: execute_scan_def intro: frames_finish)
    next
      case row: (Some row)
      show ?thesis
      proof (cases "create_scope (sr_name row) (sr_entries row) (sr_allow_cgnat row) (sr_allow_link_local row)")
        case (Inl message)
        with scan row show ?thesis using frames_raise by (fastforce simp: execute_scan_def raise_run_def)
      next
        case (Inr scope)
        have "frames i (after_validation cfg scan scope (target_answer (rc_resolver cfg) scope (sc_target_input scan)))"
          using frames_dispatch [OF id conjunct1 [OF create_scope_created [OF Inr]]] id
          by (auto simp: after_validation_def intro: frames_finish frames_raise split: sum.split guard_exn.split)
        then have "frames i (bind_run (revalidate cfg scan scope) (after_validation cfg scan scope))"
          using revalidate_fst by (intro frames_bind frames_revalidate) (fastforce dest: revalidate_fst)
        then have "frames i (then_run (publish_event i EvScanStatus
              [(''status'', JStr (scan_status_str ScanRunning))] None)
            (then_run (start_governor (sc_intensity_profile scan))
              (bind_run (revalidate cfg scan scope) (after_validation cfg scan scope))))"
          by (intro frames_then frames_publish_event frames_start)
        with scan row Inr show ?thesis by (auto simp: execute_scan_def)
      qed
    qed
  qed
qed

end

section \<open>Requests that arrive while a scan runs\<close>

text \<open>
  The requests served when a module of scan \<open>i\<close> has returned, in their order of arrival.  Once one of
  them has deleted the scan itself the run is about to fail, and those behind it are served after it.
\<close>

fun serve :: "resolver \<Rightarrow> 'w registry \<Rightarrow> py_str \<Rightarrow> request list \<Rightarrow> database \<Rightarrow> database" where
  "serve R reg i [] d = d"
| "serve R reg i (q # qs) d =
     (if get_scan d i = None then d else serve R reg i qs (snd (handle R reg q d)))"

text \<open>The program's configuration, with clients that may react to everything they can see.\<close>

definition serving_config :: "environment \<Rightarrow> resolver \<Rightarrow> (py_str \<Rightarrow> py_str) \<Rightarrow> (rat \<Rightarrow> py_str) \<Rightarrow>
    (py_str \<Rightarrow> scan_world \<Rightarrow> request list) \<Rightarrow> sockets run_config" where
  "serving_config env R sha fg clients = (system_config env R sha fg)
     \<lparr>rc_watchers := \<lambda>i. then_run (rc_watchers (system_config env R sha fg) i)
        (\<lambda>w. (Inr (), w\<lparr>rw_db := serve R (scan_registry env) i (clients i w) (rw_db w)\<rparr>))\<rparr>"

text \<open>What a request does to the scans, their runs, their events and their probes on record.\<close>

definition scans_kept :: "database \<Rightarrow> database \<Rightarrow> bool" where
  "scans_kept d d' \<longleftrightarrow> db_scans d' = db_scans d \<and> db_runs d' = db_runs d \<and> db_events d' = db_events d
     \<and> (\<forall>i. probe_rows (Some i) d' = probe_rows (Some i) d)"

definition scan_added :: "database \<Rightarrow> database \<Rightarrow> bool" where
  "scan_added d d' \<longleftrightarrow> (\<exists>s new. db_scans d' = db_scans d @ [s] \<and> \<not> scan_exists d (sc_id s)
     \<and> sc_status s = ScanQueued \<and> db_runs d' = db_runs d @ new \<and> list_all (\<lambda>r. rn_scan_id r = sc_id s) new
     \<and> db_events d' = db_events d \<and> (\<forall>i. probe_rows (Some i) d' = probe_rows (Some i) d))"

lemma create_scan_effect:
  assumes "create_scan R reg p d = (r, d')"
  shows "scans_kept d d' \<or> scan_added d d'"
proof (cases "check_request reg p d")
  case (Inl e)
  then show ?thesis using assms by (auto simp: create_scan_def scans_kept_def)
next
  case (Inr scope)
  let ?b = "\<lparr>dl_scan_id = None, dl_scope_id = Some (rq_scope_id p)\<rparr>"
  obtain t d1 where v: "validate_target (db_sink ?b) R scope (rq_target p) d = (t, d1)" by fastforce
  have probes: "probe_rows (Some i) d1 = probe_rows (Some i) d" for i
    using validate_target_probes [of "Some i" ?b R scope "rq_target p" d] v by simp
  have kept: "scans_kept d d1"
    using validate_target_frame [OF v] probes by (simp add: scans_kept_def only_ledger_grows_def)
  show ?thesis
  proof (cases "\<exists>i. r = Inr i")
    case True
    then obtain i target where store: "store_scan p target d1 = Inr (i, d')"
      using assms Inr v by (auto simp: create_scan_def split: sum.splits prod.splits guard_exn.splits)
    from store_scan_Inr [OF store] obtain new where "db_runs d' = db_runs d1 @ new"
        "list_all (\<lambda>r. rn_scan_id r = i) new" by (auto simp: list_all_iff)
    then have "scan_added d d'"
      using store_scan_Inr [OF store] kept
      by (auto simp: scan_added_def scans_kept_def new_scan_row_def probe_rows_def scan_exists_iff)
    then show ?thesis ..
  next
    case False
    then have "d' = d1"
      using assms Inr v by (auto simp: create_scan_def split: sum.splits prod.splits guard_exn.splits)
    with kept show ?thesis by simp
  qed
qed

lemma answer_snd: "snd (answer n m) = snd m"
  by (auto simp: answer_def split: prod.split sum.split service_exn.split)

lemma handle_effect:
  "scans_kept d (snd (handle R reg q d)) \<or> scan_added d (snd (handle R reg q d))
   \<or> (\<exists>j. snd (handle R reg q d) = update_scans (\<lambda>x. sc_id x = j) (\<lambda>x. x\<lparr>sc_cancel_requested := True\<rparr>) d)
   \<or> (\<exists>j. snd (handle R reg q d) = delete_scans (\<lambda>x. sc_id x = j) d)"
proof (cases q)
  case (PostScan p)
  obtain r d' where c: "create_scan R reg p d = (r, d')" by fastforce
  have "snd (queue_scan R reg p d) = d'" by (simp add: queue_scan_def c split: sum.split)
  then show ?thesis
    using create_scan_effect [OF c] PostScan by (auto simp: handle_def answer_snd scans_kept_def)
next
  case (CancelScan j)
  then show ?thesis
    by (auto simp: handle_def answer_snd cancel_scan_def Let_def scans_kept_def split: option.split)
next
  case (DeleteScan j)
  then show ?thesis
    by (auto simp: handle_def answer_snd delete_scan_def scans_kept_def split: option.split)
qed (auto simp: handle_def answer_snd create_scope_profile_def update_scope_def delete_scope_def Let_def
      insert_scope_def write_scope_def scans_kept_def probe_rows_def
    split: sum.split option.split)

lemma handle_frame:
  assumes "scan_exists d i"
  shows "db_frame i [] d (snd (handle R reg q d))"
proof -
  consider "scans_kept d (snd (handle R reg q d))" | "scan_added d (snd (handle R reg q d))"
    | j where "snd (handle R reg q d) = update_scans (\<lambda>x. sc_id x = j) (\<lambda>x. x\<lparr>sc_cancel_requested := True\<rparr>) d"
    | j where "snd (handle R reg q d) = delete_scans (\<lambda>x. sc_id x = j) d"
    using handle_effect [of d R reg q] by blast
  then show ?thesis
  proof cases
    case 1
    then show ?thesis
      by (simp add: scans_kept_def db_frame_def distinct_scans_def running_others_def scan_exists_def)
  next
    case 2
    with assms show ?thesis
      by (auto simp: scan_added_def db_frame_def distinct_scans_def running_others_def scan_exists_iff)
  qed (simp_all add: update_scans_frame delete_scans_frame)
qed

lemma serve_frame: "db_frame i [] d (serve R reg i qs d)"
proof (induction qs arbitrary: d)
  case (Cons q qs)
  show ?case
  proof (cases "get_scan d i")
    case (Some s)
    then have "scan_exists d i" using get_scan_None_iff [of d i] by simp
    from db_frame_trans0 [OF handle_frame [OF this] Cons.IH] Some show ?thesis by simp
  qed (simp add: db_frame_refl)
qed (simp add: db_frame_refl)

section \<open>The program's modules inside the frame\<close>

lemma guarded_run_frame:
  assumes run: "\<And>b old gw r gw'. guard_inv b old (rw_db w) (fst gw) \<Longrightarrow>
      run cx (guard_dialer (db_sink b) (cx_scope cx) (en_os env) (en_upgrade env) (en_io env)
        (cx_target cx) (en_cancelled env)) gw = (r, gw') \<Longrightarrow>
      dialog_step (guard_inv b old (rw_db w)) (cx_scope cx) (cx_target cx) read_only_request gw gw'"
    and cx: "valid_context i S cx"
  shows "run_frame i w (snd (guarded_run run env cx w))"
proof (cases "rw_governor w")
  case None
  then show ?thesis by (simp add: guarded_run_def run_frame_refl)
next
  case (Some g)
  show ?thesis unfolding run_frame_def
  proof
    assume "gov_free w"
    then have "slots_free g" by (simp add: gov_free_def Some)
    obtain r gw h where
      res: "guarded_run run env cx w = (r, from_guard w (gw, h))" "run_adds i w (from_guard w (gw, h))"
        "slots_free (w_governor gw)"
      by (rule guarded_run_adds [OF run cx Some \<open>slots_free g\<close>])
    from res(2) obtain new where "so_attempts (rw_rest (from_guard w (gw, h))) = so_attempts (rw_rest w) @ new"
        "db_frame i (map probe_of new) (rw_db w) (rw_db (from_guard w (gw, h)))"
      by (auto simp: run_adds_def db_frame_def only_ledger_grows_def distinct_scans_def running_others_def scan_exists_def)
    then show "gov_free (snd (guarded_run run env cx w)) \<and> (\<exists>new.
        so_attempts (rw_rest (snd (guarded_run run env cx w))) = so_attempts (rw_rest w) @ new
        \<and> db_frame i (map probe_of new) (rw_db w) (rw_db (snd (guarded_run run env cx w))))"
      using res(1,3) by (auto simp: gov_free_def from_guard_def)
  qed
qed

lemma system_run_framed:
  assumes "registry_get (scan_registry env) n = Inr m" and cx: "valid_context i S cx"
  shows "run_frame i w (snd (sm_run m cx w))"
proof -
  from assms(1) consider "m = host_discovery_module env" | "m = port_scan_module env"
    | "m = service_detect_module env" | "m = protocol_enum_module env"
    by (auto simp: scan_registry_get)
  then show ?thesis
  proof cases
    case 1
    then show ?thesis unfolding host_discovery_module_def scan_module.simps
      by simp (intro guarded_run_frame [OF _ cx] recorded.discovery_run_steps)
  next
    case 2
    then show ?thesis
      by (simp add: port_scan_module_def) (intro guarded_run_frame [OF _ cx] recorded.port_scan_run_steps)
  next
    case 3
    then show ?thesis
      by (simp add: service_detect_module_def)
        (intro guarded_run_frame [OF _ cx] recorded.service_detect_run_steps get_requests)
  next
    case 4
    then show ?thesis
      by (simp add: protocol_enum_module_def)
        (intro guarded_run_frame [OF _ cx] recorded.protocol_enum_run_steps conjI get_requests)
  qed
qed

lemma frames_ticker: "frames i (rc_watchers (system_config env R sha fg) i)"
proof -
  have "frames i (stream_footprint_turn i p)" for p
    by (rule frames_cases)
      (auto simp: stream_footprint_turn_def intro: frames_return frames_then frames_footprint)
  then show ?thesis by (simp add: system_config_def frames_bind frames_return)
qed

interpretation framed: framed_tasks "serving_config env R sha fg clients" i for env R sha fg clients i
proof
  fix n m S cx w
  assume "registry_get (rc_registry (serving_config env R sha fg clients)) n = Inr m" "valid_context i S cx"
  then show "run_frame i w (snd (sm_run m cx w))"
    by (intro system_run_framed) (simp_all add: serving_config_def system_config_def)
next
  have "frames i (\<lambda>w. (Inr (), w\<lparr>rw_db := serve R (scan_registry env) i (clients i w) (rw_db w)\<rparr>))"
    by (simp add: frames_def run_frame_db serve_frame)
  then show "frames i (rc_watchers (serving_config env R sha fg clients) i)"
    by (simp add: serving_config_def frames_then frames_ticker)
qed

section \<open>Every probe is on record\<close>

lemma serving_frame:
  assumes "execute_scan (serving_config env R sha fg clients) i w = (r, w')"
  shows "run_frame i w w'"
  using framed.frames_execute [of i env R sha fg clients] assms by (metis frames_def snd_conv)


lemma claimed_world_free: "gov_free (claimed_world c ms)" "distinct_scans (rw_db (claimed_world c ms))"
  by (simp_all add: gov_free_def claimed_world_def distinct_scans_def)


section \<open>Deleting a running scan\<close>

text \<open>
  \<open>delete_scan\<close> does not ask whether the scan has finished.  When it is deleted while it runs, the
  runner's next event violates the foreign key, the exception leaves \<open>execute_scan\<close>, and with it the
  worker's loop.
\<close>

lemma deleted_scan_kills_run:
  assumes "get_scan (rw_db w) i = Some s" and "distinct_scans (rw_db w)"
  shows "fst (handle R reg (DeleteScan i) (rw_db w)) = 204
    \<and> (\<exists>e. fst (publish_footprint i (w\<lparr>rw_db := snd (handle R reg (DeleteScan i) (rw_db w))\<rparr>)) = Inl (RunnerDb e))"
proof -
  let ?d = "delete_scans (\<lambda>x. sc_id x = i) (rw_db w)"
  have "get_scan ?d i = None"
    using get_scan_deleted [of "rw_db w" "\<lambda>x. sc_id x = i" i] assms get_scan_in [OF assms(1)]
    by (simp add: distinct_scans_def)
  then have "\<exists>e. publish_event i t p m (w\<lparr>rw_db := ?d\<rparr>) = (Inl (RunnerDb e), w\<lparr>rw_db := ?d\<rparr>)" for t p m
    by (intro publish_event_gone) (simp add: scan_of_def)
  then have "\<exists>e. fst (publish_footprint i (w\<lparr>rw_db := ?d\<rparr>)) = Inl (RunnerDb e)"
    by (simp add: publish_footprint_def) (metis fst_conv)
  then show ?thesis by (simp add: handle_def answer_def delete_scan_def assms(1))
qed

section \<open>The contract of the specification, with clients\<close>

definition scan_kept :: "py_str \<Rightarrow> database \<Rightarrow> database \<Rightarrow> bool" where
  "scan_kept i d d' \<longleftrightarrow> map (\<lambda>r. (rn_module r, rn_status r)) (runs_of d' i) = map (\<lambda>r. (rn_module r, rn_status r)) (runs_of d i)
     \<and> (\<exists>c. get_scan d' i = map_option (\<lambda>s. s\<lparr>sc_cancel_requested := c\<rparr>) (get_scan d i))"

lemma scan_kept_refl: "scan_kept i d d"
  using unchanged_cancel [of "get_scan d i"] by (simp add: scan_kept_def)

lemma scan_kept_trans: "scan_kept i d1 d2 \<Longrightarrow> scan_kept i d2 d3 \<Longrightarrow> scan_kept i d1 d3"
  by (auto simp: scan_kept_def option.map_comp comp_def)

lemma handle_scan:
  assumes "db_sound d" and "get_scan d i = Some s"
  shows "db_sound (snd (handle R reg q d))
    \<and> (get_scan (snd (handle R reg q d)) i = None \<or> scan_kept i d (snd (handle R reg q d)))"
proof -
  let ?d = "snd (handle R reg q d)"
  have ok: "db_ok d" "contiguous d" and keys: "distinct (map sc_id (db_scans d))"
    using assms(1) by (simp_all add: db_sound_def db_ok_def)
  have "db_ok ?d" using handle_keeps [OF ok(1)] by (metis prod.collapse)
  moreover consider "scans_kept d ?d" | "scan_added d ?d"
    | j where "?d = update_scans (\<lambda>x. sc_id x = j) (\<lambda>x. x\<lparr>sc_cancel_requested := True\<rparr>) d"
    | j where "?d = delete_scans (\<lambda>x. sc_id x = j) d"
    using handle_effect [of d R reg q] by blast
  then have "contiguous ?d \<and> (get_scan ?d i = None \<or> scan_kept i d ?d)"
  proof cases
    case 1
    then show ?thesis
      using ok(2) unchanged_cancel [of "get_scan d i"]
      by (auto simp: scans_kept_def scan_kept_def contiguous_def events_of_def get_scan_def runs_of_def)
  next
    case 2
    then obtain x new where x: "db_scans ?d = db_scans d @ [x]" "\<not> scan_exists d (sc_id x)"
        "db_runs ?d = db_runs d @ new" "list_all (\<lambda>r. rn_scan_id r = sc_id x) new" "db_events ?d = db_events d"
      by (auto simp: scan_added_def)
    have "sc_id x \<noteq> i" using x(2) assms(2) get_scan_None_iff [of d i] by auto
    have "find (\<lambda>s. sc_id s = i) (ss @ [x]) = find (\<lambda>s. sc_id s = i) ss" for ss
      using \<open>sc_id x \<noteq> i\<close> by (induction ss) auto
    then have "runs_of ?d i = runs_of d i" "get_scan ?d i = get_scan d i"
      using x \<open>sc_id x \<noteq> i\<close> by (auto simp: runs_of_def get_scan_def list_all_iff filter_empty_conv)
    then show ?thesis
      using ok(2) x(5) unchanged_cancel [of "get_scan d i"]
      by (auto simp: scan_kept_def contiguous_def events_of_def)
  next
    case (3 j)
    have "\<exists>c. map_option (\<lambda>s. if sc_id s = j then s\<lparr>sc_cancel_requested := True\<rparr> else s) (get_scan d i)
        = map_option (\<lambda>s. s\<lparr>sc_cancel_requested := c\<rparr>) (get_scan d i)"
      by (cases "sc_id s = j") (auto simp: assms(2) intro: exI [of _ True] exI [of _ "sc_cancel_requested s"])
    then show ?thesis
      using ok(2) by (simp add: 3 scan_kept_def get_scan_update runs_of_def)
  next
    case (4 j)
    show ?thesis
      using delete_scans_contiguous [OF ok(2)] get_scan_deleted [OF keys] delete_scans_dependents(1) [OF keys assms(2)]
        unchanged_cancel [of "get_scan d i"] assms(2)
      by (auto simp: 4 scan_kept_def)
  qed
  ultimately show ?thesis by (simp add: db_sound_def)
qed

lemma serve_scan:
  assumes "db_sound d" and "get_scan d i \<noteq> None"
  shows "db_sound (serve R reg i qs d)
    \<and> (get_scan (serve R reg i qs d) i = None \<or> scan_kept i d (serve R reg i qs d))"
  using assms
proof (induction qs arbitrary: d)
  case (Cons q qs)
  from Cons.prems obtain s where s: "get_scan d i = Some s" by auto
  note one = handle_scan [OF Cons.prems(1) s, of R reg q]
  show ?case
  proof (cases "get_scan (snd (handle R reg q d)) i")
    case None
    then show ?thesis using one s by (cases qs) simp_all
  next
    case (Some t)
    then show ?thesis using one s Cons.IH [of "snd (handle R reg q d)"] scan_kept_trans by auto
  qed
qed (simp add: scan_kept_refl)

lemma ticker_keeps:
  assumes "run_ok i w"
  shows "task_keeps i w (snd (rc_watchers (system_config env R sha fg) i w))
    \<and> rw_rest (snd (rc_watchers (system_config env R sha fg) i w)) = rw_rest w
    \<and> rw_governor (snd (rc_watchers (system_config env R sha fg) i w)) = rw_governor w
    \<and> (\<exists>w'. rc_watchers (system_config env R sha fg) i w = (Inr (), w') \<and> run_ok i w')"
proof -
  have run: "runs_to i (bind_run (stream_footprint_turn i None) (\<lambda>_. return_run ())) w () (\<lambda>x. x)"
    using publish_footprint_runs [OF assms]
    by (auto simp: runs_to_def stream_footprint_turn_def bind_run_def then_run_def return_run_def)
  show ?thesis using runs_to_task_keeps [OF run] run by (auto simp: system_config_def runs_to_def)
qed

lemma serving_tasks: "scan_tasks (serving_config env R sha fg clients) i S (network_sane old S)"
proof
  fix n m cx w
  assume "registry_get (rc_registry (serving_config env R sha fg clients)) n = Inr m"
    and "valid_context i S cx" "run_ok i w" "live (network_sane old S) w"
  then show "task_keeps i w (snd (sm_run m cx w)) \<and> live (network_sane old S) (snd (sm_run m cx w))"
    by (intro system.run_keeps [of env R sha fg n m]) (simp_all add: serving_config_def)
next
  fix w :: scan_world
  assume ok: "run_ok i w" and live: "live (network_sane old S) w"
  obtain w1 where w1: "rc_watchers (system_config env R sha fg) i w = (Inr (), w1)" "run_ok i w1"
      "task_keeps i w w1" "rw_rest w1 = rw_rest w" "rw_governor w1 = rw_governor w"
    using ticker_keeps [OF ok, of env R sha fg] by auto
  let ?d = "serve R (scan_registry env) i (clients i w1) (rw_db w1)"
  have last_world: "snd (rc_watchers (serving_config env R sha fg clients) i w) = w1\<lparr>rw_db := ?d\<rparr>"
    by (simp add: serving_config_def then_run_def bind_run_def w1(1))
  have sound: "db_sound (rw_db w1)" "get_scan (rw_db w1) i \<noteq> None"
    using w1(2) by (simp_all add: run_ok_def db_sound_def scan_of_def)
  have "task_keeps i w (w1\<lparr>rw_db := ?d\<rparr>) \<or> scan_gone i (w1\<lparr>rw_db := ?d\<rparr>)"
    using serve_scan [OF sound, of R "scan_registry env" "clients i w1"] ok w1(2,3) sound(2)
    by (fastforce simp: task_keeps_def scan_gone_def scan_kept_def run_ok_def db_sound_def scan_of_def statuses_def)
  then show "(task_keeps i w (snd (rc_watchers (serving_config env R sha fg clients) i w))
        \<or> scan_gone i (snd (rc_watchers (serving_config env R sha fg clients) i w)))
      \<and> live (network_sane old S) (snd (rc_watchers (serving_config env R sha fg clients) i w))"
    using live w1(4,5) by (simp add: last_world live_def)
qed

interpretation serving: scan_tasks "serving_config env R sha fg clients" i S "network_sane old S"
  for env R sha fg clients i S old
  by (rule serving_tasks)

end
