(* ===== verification/Application.thy ===== *)
theory Application
  imports Scan_System Api
begin

text \<open>
  \<open>config.py\<close>, \<open>db/session.py\<close>, \<open>api/modules.py\<close> and the application of \<open>main.py\<close>: the settings and
  the check on the bind address, the unit of work of a session, the launch catalog and the readiness
  answer as the client reads them, and the life of the process around the server, with the worker
  lock taken before the first request and given back after the last.  Reading the environment and
  the pragmas of a connection are the framework's and the driver's.
\<close>

section \<open>Settings\<close>

definition APP_NAME :: py_str where "APP_NAME = ''ScanLedger''"
definition APP_VERSION :: py_str where "APP_VERSION = ''0.1.0''"

definition LOOPBACK_BIND_HOSTS :: "py_str list" where
  "LOOPBACK_BIND_HOSTS = [''127.0.0.1'', ''::1'', ''localhost'']"

record settings =
  st_bind_host :: py_str
  st_bind_port :: int
  st_allow_non_loopback_bind :: bool
  st_database_url :: py_str

definition default_settings :: settings where
  "default_settings = \<lparr>st_bind_host = ''127.0.0.1'', st_bind_port = 8000,
     st_allow_non_loopback_bind = False, st_database_url = ''sqlite+aiosqlite:///./scanledger.db''\<rparr>"

definition bind_refused :: "py_str \<Rightarrow> py_str" where
  "bind_refused bind_host = ''refusing to bind to '' @ py_repr bind_host @ '': a non-loopback bind exposes the ''
     @ ''scanner's API to your network and requires SCANLEDGER_ALLOW_NON_LOOPBACK_BIND=true as an explicit ''
     @ ''insecure-development acknowledgement (PRD 8.4)''"

text \<open>The validator that runs after the fields are read.\<close>

definition acknowledged_bind :: "settings \<Rightarrow> py_str + settings" where
  "acknowledged_bind s =
     (if st_bind_host s \<notin> set LOOPBACK_BIND_HOSTS \<and> \<not> st_allow_non_loopback_bind s
      then Inl (bind_refused (st_bind_host s)) else Inr s)"

definition nvd_key_configured :: "py_str option \<Rightarrow> bool" where
  "nvd_key_configured nvd_api_key \<longleftrightarrow> (case nvd_api_key of None \<Rightarrow> False | Some k \<Rightarrow> k \<noteq> [])"

definition readiness_answer :: "py_str option \<Rightarrow> json_object" where
  "readiness_answer nvd_api_key =
     [(''app'', JStr APP_NAME), (''version'', JStr APP_VERSION),
      (''nvd_api_key_configured'', JBool (nvd_key_configured nvd_api_key))]"

section \<open>The launch catalog\<close>

record module_read =
  mo_name :: py_str
  mo_display_name :: py_str
  mo_description :: py_str
  mo_category :: module_category
  mo_supported_targets :: "py_str list"
  mo_readiness :: module_readiness
  mo_release :: py_str
  mo_optional_dependency :: "py_str option"

definition module_to_read :: "module_catalog_entry \<Rightarrow> module_read" where
  "module_to_read e =
     \<lparr>mo_name = mc_name e, mo_display_name = mc_display_name e, mo_description = mc_description e,
      mo_category = mc_category e, mo_supported_targets = mc_supported_targets e,
      mo_readiness = mc_readiness e, mo_release = mc_release e,
      mo_optional_dependency = mc_optional_dependency e\<rparr>"

definition list_modules :: "'w registry \<Rightarrow> target_type option \<Rightarrow> module_read list" where
  "list_modules reg tt = map module_to_read (catalog reg tt)"

section \<open>A unit of work\<close>

text \<open>
  \<open>session_scope\<close>: the body works on the session, which is committed when the body returns and
  rolled back to the stored state when the body or the commit raises.
\<close>

definition session_scope :: "('d \<Rightarrow> 'e + 'd) \<Rightarrow> ('d \<Rightarrow> ('e + 'a) \<times> 'd) \<Rightarrow> 'd \<Rightarrow> ('e + 'a) \<times> 'd" where
  "session_scope commit body stored =
     (case body stored of
        (Inl e, _) \<Rightarrow> (Inl e, stored)
      | (Inr a, session) \<Rightarrow> (case commit session of Inl e \<Rightarrow> (Inl e, stored) | Inr d \<Rightarrow> (Inr a, d)))"

section \<open>The life of the process\<close>

datatype life_exn = NoFullTextSearch | StartupRefused app_error | TaskFailed runner_exn

text \<open>SQL's \<open>like\<close>: \<open>%\<close> is any text, \<open>_\<close> any character, and letters match in either case.\<close>

fun sql_like :: "py_str \<Rightarrow> py_str \<Rightarrow> bool" where
  "sql_like [] s \<longleftrightarrow> s = []"
| "sql_like (p # ps) [] \<longleftrightarrow> p = CHR ''%'' \<and> sql_like ps []"
| "sql_like (p # ps) (c # s) \<longleftrightarrow>
     (if p = CHR ''%'' then sql_like ps (c # s) \<or> sql_like (p # ps) s
      else (p = CHR ''_'' \<or> py_lower [p] = py_lower [c]) \<and> sql_like ps s)"

definition verify_fts5_available :: "py_str list \<Rightarrow> life_exn + unit" where
  "verify_fts5_available compile_options =
     (if length (filter (sql_like ''ENABLE_FTS5%'') compile_options) = 0
      then Inl NoFullTextSearch else Inr ())"

text \<open>
  \<open>stop\<close>: the worker's loop and its heartbeat are cancelled and awaited, in this order.  A task that
  had ended with an exception of its own raises it again there, before the lock is released.
\<close>

fun worker_stop :: "worker \<Rightarrow> runner_exn option list \<Rightarrow> database \<Rightarrow> (runner_exn + unit) \<times> database" where
  "worker_stop w [] d = (Inr (), release_worker_lock w d)"
| "worker_stop w (None # tasks) d = worker_stop w tasks d"
| "worker_stop w (Some e # tasks) d = (Inl e, d)"

text \<open>
  \<open>lifespan\<close>: the check, the start of the worker, the serving of requests while its two tasks run,
  and the stop.  \<open>serve\<close> is everything that happens meanwhile, with the exceptions the loop and the
  heartbeat have ended with.
\<close>

definition lifespan :: "py_str list \<Rightarrow> int \<Rightarrow> worker \<Rightarrow> (database \<Rightarrow> (runner_exn option \<times> runner_exn option) \<times> database) \<Rightarrow>
    database \<Rightarrow> (life_exn + unit) \<times> database" where
  "lifespan compile_options retention_days wk serve d =
     (case verify_fts5_available compile_options of
        Inl e \<Rightarrow> (Inl e, d)
      | Inr _ \<Rightarrow>
          (case worker_start retention_days wk d of
             (Inl e, d1) \<Rightarrow> (Inl (StartupRefused e), d1)
           | (Inr _, d1) \<Rightarrow>
               (case serve d1 of ((loop, heartbeat), d2) \<Rightarrow>
                  (case worker_stop wk [loop, heartbeat] d2 of
                     (Inl e, d3) \<Rightarrow> (Inl (TaskFailed e), d3)
                   | (Inr _, d3) \<Rightarrow> (Inr (), d3)))))"

section \<open>Facts\<close>

lemma session_scope_atomic:
  "session_scope commit body d = (Inl e, d') \<Longrightarrow> d' = d"
  by (auto simp: session_scope_def split: prod.splits sum.splits)

lemma acknowledged_bind_iff:
  "acknowledged_bind s = Inr s' \<longleftrightarrow>
     s' = s \<and> (st_bind_host s \<in> set LOOPBACK_BIND_HOSTS \<or> st_allow_non_loopback_bind s)"
  by (auto simp: acknowledged_bind_def)

lemma default_settings_accepted: "acknowledged_bind default_settings = Inr default_settings"
  by (simp add: acknowledged_bind_def default_settings_def LOOPBACK_BIND_HOSTS_def)

lemma catalog_names_read: "map mo_name (list_modules reg tt) = map mc_name (catalog reg tt)"
  by (simp add: list_modules_def module_to_read_def)

lemma run_retention_lock: "db_lock (snd (run_retention n now d)) = db_lock d"
  by (auto simp: run_retention_def sweep_old_scans_def sweep_expired_cache_def read_now_def Let_def
      delete_scans_def split: prod.splits option.splits if_splits)

lemma recovered_lock: "db_lock (snd (recover_interrupted d)) = db_lock d"
  by (simp add: recover_interrupted_def Let_def)

lemma worker_start_owns:
  assumes "worker_start n w d = (Inr (), d')"
  shows "lock_owner d' = Some (wk_owner_id w)"
proof -
  obtain r d1 where a: "acquire_worker_lock w None d = (r, d1)" by fastforce
  with assms have r: "r = Inr ()" and d': "d' = snd (run_retention n None (snd (recover_interrupted d1)))"
    by (auto simp: worker_start_def split: sum.splits)
  have "lock_owner d1 = Some (wk_owner_id w)"
    using a r by (auto simp: acquire_worker_lock_def read_now_def Let_def lock_owner_def held_by_def
        split: option.splits if_splits)
  then show ?thesis by (simp add: d' lock_owner_def run_retention_lock recovered_lock)
qed

lemma worker_stop_two:
  "worker_stop w [a, b] d = (case a of Some e \<Rightarrow> (Inl e, d) | None \<Rightarrow>
     (case b of Some e \<Rightarrow> (Inl e, d) | None \<Rightarrow> (Inr (), release_worker_lock w d)))"
  by (simp split: option.split)

text \<open>C30. Only one process serves a database.  An application that starts while another worker's
  heartbeat is fresh serves nothing: it raises before the first request, and the database is as it
  was.  One that starts serves with the worker lock in its name.  Once it has stopped the lock is
  free, unless another process took it over in the meantime, whose lock is then left alone; when a
  task of the worker had failed, the lock stays as the serving left it.\<close>

theorem one_process_serves:
  assumes "lifespan compile_options retention_days wk serve d = (r, d')"
  shows "(lock_fresh d \<and> lock_owner d \<noteq> Some (wk_owner_id wk) \<longrightarrow> (\<exists>e. r = Inl e \<and> (\<forall>x. e \<noteq> TaskFailed x)) \<and> (d' = d \<or> d' = tick d))
    \<and> (r = Inr () \<longrightarrow> (\<exists>d1. lock_owner d1 = Some (wk_owner_id wk) \<and> fst (serve d1) = (None, None)
        \<and> (if lock_owner (snd (serve d1)) = Some (wk_owner_id wk) then d' = (snd (serve d1))\<lparr>db_lock := None\<rparr>
           else d' = snd (serve d1))))
    \<and> (\<forall>x. r = Inl (TaskFailed x) \<longrightarrow> (\<exists>d1. lock_owner d1 = Some (wk_owner_id wk) \<and> d' = snd (serve d1)))"
proof (intro conjI allI impI)
  assume fresh: "lock_fresh d \<and> lock_owner d \<noteq> Some (wk_owner_id wk)"
  then obtain l where "acquire_worker_lock wk None d = (Inl (already_running l), tick d)"
    using acquire_refused by blast
  then show "\<exists>e. r = Inl e \<and> (\<forall>x. e \<noteq> TaskFailed x)" "d' = d \<or> d' = tick d"
    using assms by (auto simp: lifespan_def worker_start_def verify_fts5_available_def split: sum.splits if_splits)
next
  assume "r = Inr ()"
  then obtain d1 where s: "worker_start retention_days wk d = (Inr (), d1)"
      and e: "fst (serve d1) = (None, None)" and d': "d' = release_worker_lock wk (snd (serve d1))"
    using assms by (auto simp: lifespan_def worker_stop_two split: sum.splits prod.splits option.splits if_splits)
  show "\<exists>d1. lock_owner d1 = Some (wk_owner_id wk) \<and> fst (serve d1) = (None, None)
        \<and> (if lock_owner (snd (serve d1)) = Some (wk_owner_id wk) then d' = (snd (serve d1))\<lparr>db_lock := None\<rparr>
           else d' = snd (serve d1))"
    using worker_start_owns [OF s] e
    by (intro exI [of _ d1]) (auto simp: d' release_worker_lock_def lock_owner_def split: option.splits)
next
  fix x assume "r = Inl (TaskFailed x)"
  then obtain d1 where s: "worker_start retention_days wk d = (Inr (), d1)" and d': "d' = snd (serve d1)"
    using assms by (auto simp: lifespan_def worker_stop_two verify_fts5_available_def
        split: sum.splits prod.splits option.splits if_splits)
  show "\<exists>d1. lock_owner d1 = Some (wk_owner_id wk) \<and> d' = snd (serve d1)"
    using worker_start_owns [OF s] d' by blast
qed

text \<open>A second process is refused while the first one beats, and starts at once after a clean stop.\<close>

definition idle :: "database \<Rightarrow> (runner_exn option \<times> runner_exn option) \<times> database" where
  "idle d = ((None, None), d)"

definition two_workers_db :: database where
  "two_workers_db = lab_db\<lparr>db_lock := Some (held_by worker_a 0)\<rparr>"

lemma idle_start: "fst (lifespan [''ENABLE_FTS5''] 90 worker_b idle lab_db) = Inr ()"
  by (simp add: lifespan_def verify_fts5_available_def worker_start_def acquire_worker_lock_def read_now_def
      lab_db_def empty_db_def worker_stop_two idle_def split_beta)

lemma one_process_serves_witness:
  "(\<exists>e. fst (lifespan [''ENABLE_FTS5''] 90 worker_b idle two_workers_db) = Inl e)
   \<and> db_lock (snd (lifespan [''ENABLE_FTS5''] 90 worker_b idle lab_db)) = None"
proof (intro conjI)
  have "lock_fresh two_workers_db \<and> lock_owner two_workers_db \<noteq> Some (wk_owner_id worker_b)"
    by (simp add: two_workers_db_def lock_fresh_def lock_owner_def held_by_def worker_a_def worker_b_def
        lab_db_def empty_db_def LOCK_STALE_AFTER_SECONDS_def MICROS_PER_SECOND_def utcnow_def)
  with one_process_serves [of "[''ENABLE_FTS5'']" 90 worker_b idle two_workers_db, OF prod.collapse [symmetric]]
  show "\<exists>e. fst (lifespan [''ENABLE_FTS5''] 90 worker_b idle two_workers_db) = Inl e" by blast
  from one_process_serves [of "[''ENABLE_FTS5'']" 90 worker_b idle lab_db, OF prod.collapse [symmetric]]
  show "db_lock (snd (lifespan [''ENABLE_FTS5''] 90 worker_b idle lab_db)) = None"
    by (auto simp: idle_start idle_def)
qed

end
