(* ===== verification/Program.thy ===== *)
theory Program
  imports Scan_Frame Application
begin

text \<open>
  The whole program over its life: requests of any clients, turns of the worker's loop, heartbeats,
  restarts and stops, in any order.  A turn of the loop claims a scan and executes it to its end,
  with requests served after each of its modules.  The names resolve, the peers answer and the
  clients ask differently in every step.
\<close>

section \<open>The steps\<close>

record program =
  pg_world :: scan_world
  pg_worker :: "worker option"

text \<open>
  \<open>pg_worker\<close> is the worker whose loop is running.  \<open>Passes\<close> is time going by.  A loop that ends with
  an exception runs no more until the process is started again, while requests are still answered.
\<close>

datatype happening =
    Arrives environment resolver request
  | LoopTurn environment resolver "py_str \<Rightarrow> py_str" "rat \<Rightarrow> py_str" "py_str \<Rightarrow> scan_world \<Rightarrow> request list"
  | Heartbeat worker
  | Starts int worker
  | Stops
  | Passes

definition set_db :: "database \<Rightarrow> program \<Rightarrow> program" where
  "set_db d p = p\<lparr>pg_world := (pg_world p)\<lparr>rw_db := d\<rparr>\<rparr>"

fun program_step :: "happening \<Rightarrow> program \<Rightarrow> program" where
  "program_step (Arrives env R q) p =
     set_db (snd (handle R (scan_registry env) q (rw_db (pg_world p)))) p"
| "program_step (LoopTurn env R sha fg clients) p =
     (case pg_worker p of
        None \<Rightarrow> p
      | Some wk \<Rightarrow>
          (case loop_turn (serving_config env R sha fg clients) wk (pg_world p) of
             (Inl e, w) \<Rightarrow> p\<lparr>pg_world := w, pg_worker := None\<rparr>
           | (Inr st, w) \<Rightarrow> p\<lparr>pg_world := w\<rparr>))"
| "program_step (Heartbeat wk) p = set_db (beat wk (rw_db (pg_world p))) p"
| "program_step (Starts retention_days wk) p =
     (case pg_worker p of
        Some other \<Rightarrow> p
      | None \<Rightarrow>
          (case worker_start retention_days wk (rw_db (pg_world p)) of
             (Inl e, d) \<Rightarrow> set_db d p
           | (Inr _, d) \<Rightarrow> \<lparr>pg_world = \<lparr>rw_db = d, rw_publisher = new_publisher, rw_governor = None,
                 rw_rest = rw_rest (pg_world p)\<rparr>, pg_worker = Some wk\<rparr>))"
| "program_step Stops p =
     (case pg_worker p of
        None \<Rightarrow> p
      | Some wk \<Rightarrow> (set_db (release_worker_lock wk (rw_db (pg_world p))) p)\<lparr>pg_worker := None\<rparr>)"
| "program_step Passes p = set_db (tick (rw_db (pg_world p))) p"

text \<open>The program as installed: an empty database, nothing running, nothing sent.\<close>

definition installed :: "(nat \<Rightarrow> int) \<Rightarrow> (nat \<Rightarrow> py_str) \<Rightarrow> program" where
  "installed clk ids = \<lparr>pg_world = \<lparr>rw_db = empty_db clk ids, rw_publisher = new_publisher,
     rw_governor = None, rw_rest = \<lparr>so_guard_active = False, so_attempts = [], so_exchanges = []\<rparr>\<rparr>,
     pg_worker = None\<rparr>"

section \<open>Its invariant\<close>

text \<open>An attempt to a host of the private ranges, on a legal port, made by the guard.\<close>

definition private_attempt :: "connect_attempt \<Rightarrow> bool" where
  "private_attempt x \<longleftrightarrow> (\<exists>a. at_family x = version a \<and> at_host x = str_addr a
       \<and> list_ex (in_network a) (allowed_ranges_for True True) \<and> is_always_denied a = None \<and> \<not> is_global a)
     \<and> 0 < at_port x \<and> at_port x \<le> 65535 \<and> at_guarded x"

definition network_private :: "sockets \<Rightarrow> bool" where
  "network_private so \<longleftrightarrow> list_all private_attempt (so_attempts so)
     \<and> (\<forall>t \<in> said (so_exchanges so). read_only_request t)"

definition nothing_running :: "database \<Rightarrow> bool" where
  "nothing_running d \<longleftrightarrow> list_all (\<lambda>s. sc_status s \<noteq> ScanRunning) (db_scans d)"

definition program_ok :: "program \<Rightarrow> bool" where
  "program_ok p \<longleftrightarrow> db_sound (rw_db (pg_world p)) \<and> gov_free (pg_world p)
     \<and> network_private (rw_rest (pg_world p))
     \<and> (pg_worker p = None \<or> nothing_running (rw_db (pg_world p)))"

lemma scope_permits_private:
  assumes "created_scope S" and "scope_permits S x"
  shows "private_attempt x"
proof -
  from assms(2) obtain a where a: "contains_address S a" "is_always_denied a = None"
      "at_family x = version a" "at_host x = str_addr a"
    and port: "0 < at_port x" "at_port x \<le> 65535" "at_guarded x"
    by (auto simp: scope_permits_def address_denial_None)
  obtain r where r: "r \<in> set (allowed_ranges_for (sp_allow_cgnat S) (sp_allow_link_local S))" "in_network a r"
    using created_scope_member [OF assms(1) a(1)] by blast
  then have "list_ex (in_network a) (allowed_ranges_for True True)"
    by (auto simp: allowed_ranges_for_def list_ex_iff split: if_splits)
  then show ?thesis
    using a port allowed_not_global [OF r] by (auto simp: private_attempt_def)
qed

lemma network_grows_private:
  assumes "created_scope S" and "network_private so" and "network_grows S so so'"
  shows "network_private so'"
proof -
  from assms(3) obtain xs hs where new: "so_attempts so' = so_attempts so @ xs" "list_all (scope_permits S) xs"
      "so_exchanges so' = so_exchanges so @ hs" "\<forall>t \<in> said hs. read_only_request t"
    by (auto simp: network_grows_def)
  have "list_all private_attempt xs"
    using new(2) by (rule list.pred_mono_strong) (rule scope_permits_private [OF assms(1)])
  then show ?thesis using assms(2) new by (auto simp: network_private_def)
qed

lemma nothing_running_iff: "nothing_running d \<longleftrightarrow> running_others i d = {}
    \<and> (\<forall>s \<in> set (db_scans d). sc_id s = i \<longrightarrow> sc_status s \<noteq> ScanRunning)"
  by (auto simp: nothing_running_def running_others_def list_all_iff)

lemma set_db_ok:
  assumes "program_ok p" and "db_sound d"
    and "nothing_running (rw_db (pg_world p)) \<Longrightarrow> nothing_running d"
  shows "program_ok (set_db d p)"
  using assms by (auto simp: program_ok_def set_db_def gov_free_def)

section \<open>Requests\<close>

lemma contiguous_events: "db_events d' = db_events d \<Longrightarrow> contiguous d' = contiguous d"
  by (simp add: contiguous_def events_of_def)

lemma handle_sound:
  assumes "db_sound d"
  shows "db_sound (snd (handle R reg q d))"
proof -
  have "db_ok (snd (handle R reg q d))"
    using handle_keeps [of d R reg q] assms by (metis db_sound_def prod.collapse)
  moreover have "contiguous (snd (handle R reg q d))"
  proof -
    have c: "contiguous d" using assms by (simp add: db_sound_def)
    consider "db_events (snd (handle R reg q d)) = db_events d"
      | j where "snd (handle R reg q d) = delete_scans (\<lambda>x. sc_id x = j) d"
      using handle_effect [of d R reg q] by (auto simp: scans_kept_def scan_added_def update_scans_def)
    then show ?thesis
    proof cases
      case 1
      from contiguous_events [OF this] c show ?thesis by simp
    next
      case (2 j)
      from delete_scans_contiguous [OF c] show ?thesis unfolding 2 .
    qed
  qed
  ultimately show ?thesis by (simp add: db_sound_def)
qed

lemma handle_idle:
  assumes "nothing_running d"
  shows "nothing_running (snd (handle R reg q d))"
  using handle_effect [of d R reg q] assms
  by (auto simp: nothing_running_def scans_kept_def scan_added_def update_scans_def delete_scans_def
      Let_def list_all_iff)

section \<open>Turns of the loop\<close>

lemma get_scan_member:
  assumes "distinct (map sc_id (db_scans d))" and "s \<in> set (db_scans d)"
  shows "get_scan d (sc_id s) = Some s"
proof -
  have "find (\<lambda>t. sc_id t = sc_id s) ss = Some s" if "distinct (map sc_id ss)" "s \<in> set ss" for ss
    using that by (induction ss) (auto simp: image_iff)
  then show ?thesis using assms by (simp add: get_scan_def)
qed

lemma claim_next_scan_cases:
  assumes "claim_next_scan wk d = (r, d')" and "db_sound d" and "nothing_running d"
  obtains (none) "r = None" and "d' = d"
  | (claimed) i s where "r = Some i" and "db_sound d'" and "get_scan d' i = Some s" and "running_others i d' = {}"
proof (cases "claim_candidate d")
  case None
  then show ?thesis using assms(1) none by (simp add: claim_next_scan_def)
next
  case (Some i)
  from claim_candidate_Some [OF Some] obtain s where s: "s \<in> set (db_scans d)" "sc_id s = i"
      "sc_status s = ScanQueued" by blast
  have keys: "distinct (map sc_id (db_scans d))" and ok: "db_ok d" "contiguous d"
    using assms(2) by (simp_all add: db_sound_def db_ok_def)
  have get: "get_scan d i = Some s" using get_scan_member [OF keys s(1)] s(2) by simp
  have one: "fst (claim_update wk i d) = 1" "get_scan (snd (claim_update wk i d)) i = Some (claim_scan wk (utcnow d) s)"
    using claim_update_result(1,2) [OF keys get, of wk] s(3) by simp_all
  have upd: "snd (claim_update wk i d) = update_scans (\<lambda>s. sc_id s = i \<and> sc_status s = ScanQueued)
      (claim_scan wk (utcnow d)) (tick d)" by (simp add: claim_update_def Let_def)
  have "db_sound (snd (claim_update wk i d))"
    using ok unfolding upd db_sound_def by (intro conjI update_scans_ok) simp_all
  moreover have "running_others i (snd (claim_update wk i d)) = {}"
    using assms(3) by (auto simp: upd running_others_def update_scans_def nothing_running_def list_all_iff)
  moreover have "r = Some i" "d' = snd (claim_update wk i d)"
    using assms(1) Some one(1) by (auto simp: claim_next_scan_def split: prod.splits)
  ultimately show ?thesis using one(2) claimed by blast
qed

lemma scope_of_scan:
  assumes "db_ok d" and "get_scan d i = Some s"
  obtains row where "get_scope d (sc_scope_id s) = Some row"
proof -
  have "sc_scope_id s \<in> sr_id ` set (db_scopes d)"
    using assms(1) get_scan_in [OF assms(2)] by (auto simp: db_ok_def scope_exists_iff)
  then have "get_scope d (sc_scope_id s) \<noteq> None" by (auto simp: get_scope_def find_None_iff)
  then show ?thesis using that by auto
qed

lemma execute_turn:
  assumes ok: "db_sound (rw_db w)" and s: "get_scan (rw_db w) i = Some s" and idle: "running_others i (rw_db w) = {}"
    and free: "gov_free w" and net: "network_private (rw_rest w)"
    and e: "execute_scan (serving_config env R sha fg clients) i w = (r, w')"
  shows "db_sound (rw_db w') \<and> gov_free w' \<and> network_private (rw_rest w')
    \<and> ((\<exists>x. r = Inl x) \<or> nothing_running (rw_db w'))"
proof -
  have "db_ok (rw_db w)" using ok by (simp add: db_sound_def)
  then obtain row where row: "get_scope (rw_db w) (sc_scope_id s) = Some row" by (rule scope_of_scan [OF _ s])
  have frame: "gov_free w'" "running_others i (rw_db w') = {}"
    using serving_frame [OF e] free idle ok by (auto simp: run_frame_def db_frame_def distinct_scans_def db_sound_def db_ok_def)
  show ?thesis
  proof (cases "create_scope (sr_name row) (sr_entries row) (sr_allow_cgnat row) (sr_allow_link_local row)")
    case (Inl m)
    then have "r = Inl (RunnerScope m) \<and> w' = w" using e s row by (simp add: execute_scan_def)
    then show ?thesis using ok free net by simp
  next
    case (Inr S)
    have run: "run_ok i w" "scan_of i w = Some s" "load_scope_profile (rw_db w) (sc_scope_id s) = Inr S"
      using ok s row Inr by (simp_all add: run_ok_def db_sound_def scan_of_def load_scope_Inr)
    have start: "network_sane (rw_rest w) S g (rw_rest w)" if "new_governor (sc_intensity_profile s) None 0 = Inr g" for g
      using new_governor_slots_free [OF that] by (simp add: network_sane_def network_grows_refl)
    note spec = serving.execute_scan_refines [OF run start e]
    have "network_private (rw_rest w')"
      using spec net network_grows_private [OF load_scope_created [OF run(3)] net]
      by (auto simp: live_def network_sane_def)
    moreover have "db_sound (rw_db w') \<and> ((\<exists>x. r = Inl x) \<or> nothing_running (rw_db w'))"
    proof (cases r)
      case (Inr st)
      then have done_as: "\<exists>ss. ended i st ss w'" "scan_terminal st"
        using spec by (auto simp: refused_end_def simp del: scan_terminal.simps dest: scan_spec_terminal)
          simp_all
      then have sound: "db_sound (rw_db w')" by (auto simp: ended_def db_sound_def)
      have "sc_status t \<noteq> ScanRunning" if "t \<in> set (db_scans (rw_db w'))" "sc_id t = i" for t
      proof -
        have "distinct (map sc_id (db_scans (rw_db w')))" using sound by (simp add: db_sound_def db_ok_def)
        with that have "get_scan (rw_db w') i = Some t" using get_scan_member by blast
        then show ?thesis using done_as by (auto simp: ended_def scan_of_def)
      qed
      then show ?thesis using sound frame(2) nothing_running_iff [of "rw_db w'" i] by blast
    qed (use spec in simp)
    ultimately show ?thesis using frame(1) by blast
  qed
qed

lemma turn_ok:
  assumes ok: "program_ok p"
  shows "program_ok (program_step (LoopTurn env R sha fg clients) p)"
proof (cases "pg_worker p")
  case (Some wk)
  let ?w = "pg_world p"
  have p: "db_sound (rw_db ?w)" "gov_free ?w" "network_private (rw_rest ?w)" "nothing_running (rw_db ?w)"
    using ok Some by (simp_all add: program_ok_def)
  obtain c d where claim: "claim_next_scan wk (rw_db ?w) = (c, d)" by fastforce
  from claim p(1,4) show ?thesis
  proof (cases rule: claim_next_scan_cases)
    case none
    then have "loop_turn (serving_config env R sha fg clients) wk ?w = (Inr None, ?w)"
      by (simp add: loop_turn_def claim)
    then show ?thesis using ok Some by simp
  next
    case (claimed i s)
    obtain r w' where e: "execute_scan (serving_config env R sha fg clients) i (?w\<lparr>rw_db := d\<rparr>) = (r, w')" by fastforce
    have "loop_turn (serving_config env R sha fg clients) wk ?w
        = (case r of Inl x \<Rightarrow> (Inl x, w') | Inr st \<Rightarrow> (Inr (Some st), w'))"
      by (simp add: loop_turn_def claim claimed(1) bind_run_def return_run_def e split: sum.split)
    moreover have "db_sound (rw_db w') \<and> gov_free w' \<and> network_private (rw_rest w')
        \<and> ((\<exists>x. r = Inl x) \<or> nothing_running (rw_db w'))"
      using claimed p by (intro execute_turn [OF _ _ _ _ _ e]) (simp_all add: gov_free_def)
    ultimately show ?thesis using Some by (auto simp: program_ok_def split: sum.split)
  qed
qed (use ok in simp)

section \<open>Starts and stops\<close>

lemma nothing_running_all: "nothing_running d \<longleftrightarrow> (\<forall>i. running_others i d = {})"
proof -
  have "\<exists>i. sc_id s \<noteq> i" for s :: scan_row by (intro exI [of _ "CHR ''x'' # sc_id s"]) simp
  then show ?thesis by (fastforce simp: nothing_running_def running_others_def list_all_iff)
qed

text \<open>Steps that touch the lock and the clock only.\<close>

definition lock_only :: "database \<Rightarrow> database \<Rightarrow> bool" where
  "lock_only d d' \<longleftrightarrow> (\<exists>l. d' = d\<lparr>db_lock := l\<rparr> \<or> d' = (tick d)\<lparr>db_lock := l\<rparr> \<or> d' = tick d)"

lemma lock_only_keeps:
  assumes "lock_only d d'"
  shows "db_sound d' = db_sound d" and "nothing_running d' = nothing_running d"
  using assms
  by (auto simp: lock_only_def db_sound_def db_ok_def contiguous_def events_of_def scan_exists_def scope_exists_def
      nothing_running_def)

lemma same_lock: "lock_only d d"
  unfolding lock_only_def by (intro exI [of _ "db_lock d"]) simp

lemma acquire_lock_only: "lock_only d (snd (acquire_worker_lock wk None d))"
  by (auto simp: acquire_worker_lock_def read_now_def Let_def lock_only_def split: option.split)

lemma release_lock_only: "lock_only d (release_worker_lock wk d)"
  using same_lock [of d] by (auto simp: release_worker_lock_def lock_only_def split: option.split)

lemma beat_lock_only: "lock_only d (beat wk d)"
  by (auto simp: beat_def Let_def lock_only_def)

lemma recovered_ok:
  assumes "db_sound d"
  shows "db_sound (snd (recover_interrupted d)) \<and> nothing_running (snd (recover_interrupted d))"
proof -
  let ?d = "update_runs (\<lambda>r. rn_status r = ModRunning) (interrupt_run (utcnow d)) (tick d)"
  have d': "snd (recover_interrupted d) = update_scans (\<lambda>s. sc_status s = ScanRunning) requeue_scan ?d"
    by (simp add: recover_interrupted_def Let_def)
  have "db_ok ?d" using assms by (intro update_runs_ok) (simp_all add: db_sound_def)
  then have "db_ok (snd (recover_interrupted d))" unfolding d' by (intro update_scans_ok) (simp_all add: requeue_scan_def)
  moreover have "contiguous (snd (recover_interrupted d))" using assms by (simp add: d' db_sound_def)
  moreover have "nothing_running (snd (recover_interrupted d))"
    by (auto simp: d' nothing_running_def update_scans_def requeue_scan_def list_all_iff)
  ultimately show ?thesis by (simp add: db_sound_def)
qed

lemma retention_ok:
  assumes "db_sound d" and "nothing_running d"
  shows "db_sound (snd (run_retention n now d)) \<and> nothing_running (snd (run_retention n now d))"
proof -
  have "distinct_scans d" using assms(1) by (simp add: db_sound_def db_ok_def distinct_scans_def)
  then have "nothing_running (snd (run_retention n now d))"
    using assms(2) run_retention_frame [of _ d n now] by (fastforce simp: nothing_running_all db_frame_def)
  then show ?thesis using run_retention_keeps [of d n now] assms(1) by (simp add: db_sound_def)
qed

lemma start_ok:
  assumes "worker_start n wk d = (r, d')" and "db_sound d"
  shows "db_sound d' \<and> (nothing_running d \<longrightarrow> nothing_running d') \<and> (r = Inr () \<longrightarrow> nothing_running d')"
proof -
  obtain q d1 where a: "acquire_worker_lock wk None d = (q, d1)" by fastforce
  have d1: "db_sound d1" "nothing_running d1 = nothing_running d"
    using lock_only_keeps [OF acquire_lock_only [of d wk]] assms(2) by (simp_all add: a)
  show ?thesis
  proof (cases q)
    case (Inl e)
    then show ?thesis using assms(1) d1 by (auto simp: worker_start_def a)
  next
    case (Inr u)
    then have "d' = snd (run_retention n None (snd (recover_interrupted d1)))"
      using assms(1) by (simp add: worker_start_def a)
    then show ?thesis using retention_ok recovered_ok [OF d1(1)] by simp
  qed
qed

lemma start_step_ok:
  assumes "program_ok p"
  shows "program_ok (program_step (Starts n wk) p)"
proof (cases "pg_worker p")
  case None
  obtain r d where st: "worker_start n wk (rw_db (pg_world p)) = (r, d)" by fastforce
  have "db_sound (rw_db (pg_world p))" using assms by (simp add: program_ok_def)
  note start_ok [OF st this]
  then show ?thesis
    using assms None by (cases r) (auto simp: st program_ok_def set_db_def gov_free_def)
qed (use assms in simp)

lemma step_ok:
  assumes "program_ok p"
  shows "program_ok (program_step h p)"
proof -
  have sound: "db_sound (rw_db (pg_world p))" using assms by (simp add: program_ok_def)
  show ?thesis
  proof (cases h)
    case (Arrives env R q)
    then show ?thesis
      using set_db_ok [OF assms handle_sound [OF sound] handle_idle] by simp
  next
    case (LoopTurn env R sha fg clients)
    then show ?thesis using turn_ok [OF assms] by simp
  next
    case (Heartbeat wk)
    then show ?thesis
      using set_db_ok [OF assms, of "beat wk (rw_db (pg_world p))"] sound
        lock_only_keeps [OF beat_lock_only [of "rw_db (pg_world p)" wk]] by simp
  next
    case (Starts n wk)
    then show ?thesis using start_step_ok [OF assms] by simp
  next
    case Stops
    then show ?thesis
      using assms lock_only_keeps [OF release_lock_only [of "rw_db (pg_world p)"]]
      by (auto simp: program_ok_def set_db_def gov_free_def split: option.split)
  next
    case Passes
    have "lock_only (rw_db (pg_world p)) (tick (rw_db (pg_world p)))" by (auto simp: lock_only_def)
    from set_db_ok [OF assms, of "tick (rw_db (pg_world p))"] lock_only_keeps [OF this] sound Passes
    show ?thesis by simp
  qed
qed

lemma installed_ok: "program_ok (installed clk ids)"
  by (simp add: program_ok_def installed_def db_sound_def db_ok_def empty_db_def contiguous_def events_of_def
      gov_free_def network_private_def)

lemma history_ok: "program_ok p \<Longrightarrow> program_ok (fold program_step history p)"
  by (induction history arbitrary: p) (simp_all add: step_ok)

section \<open>What the program promises\<close>

text \<open>C1. Whatever happens, nothing public is touched.  From the installed program on, in every
  history of requests by any clients, turns of the worker with whatever the names resolve to and the
  peers answer, heartbeats, crashes, restarts and stops, every connection the operating system was
  ever asked for went to an address of the private ranges that is in no always-denied class and not
  globally routable, on a legal port, and everything ever written to a peer is a \<open>GET\<close> of the root
  or of \<open>/robots.txt\<close>.  There is no hypothesis on the history.\<close>

theorem program_stays_private:
  "let so = rw_rest (pg_world (fold program_step history (installed clk ids))) in
   list_all (\<lambda>x. (\<exists>a. at_family x = version a \<and> at_host x = str_addr a
          \<and> list_ex (in_network a) (allowed_ranges_for True True) \<and> is_always_denied a = None \<and> \<not> is_global a)
        \<and> 0 < at_port x \<and> at_port x \<le> 65535 \<and> at_guarded x) (so_attempts so)
   \<and> said (so_exchanges so) \<subseteq> {t. \<exists>host. t = http_get ''/'' host \<or> t = http_get ''/robots.txt'' host}"
  using history_ok [OF installed_ok, of history clk ids]
  by (auto simp: Let_def program_ok_def network_private_def private_attempt_def [abs_def] read_only_request_def)

text \<open>C5. In every history the database keeps its integrity and the events of each scan are numbered
  from one without a gap.  Between two steps, while the worker's loop is running, no scan is marked
  running: whatever the loop claimed it has brought to an end, and a restart has queued again what a
  crash left behind.\<close>

theorem program_leaves_nothing_running:
  "let p = fold program_step history (installed clk ids) in
   db_ok (rw_db (pg_world p)) \<and> contiguous (rw_db (pg_world p))
   \<and> (pg_worker p = None \<or> list_all (\<lambda>s. sc_status s \<noteq> ScanRunning) (db_scans (rw_db (pg_world p))))"
  using history_ok [OF installed_ok, of history clk ids]
  by (simp add: Let_def program_ok_def db_sound_def nothing_running_def)

end
