(* ===== verification/Cache.thy ===== *)
theory Cache
  imports Retention
begin

text \<open>
  \<open>backend/app/services/cache.py\<close>: the provider answers kept in the table \<open>cache_entries\<close>, keyed
  by source, schema version, product and version.
\<close>

definition SCHEMA_VERSION :: int where "SCHEMA_VERSION = 1"
definition DEFAULT_TTL_SECONDS :: int where "DEFAULT_TTL_SECONDS = 24 * 60 * 60"
definition NEGATIVE_TTL_SECONDS :: int where "NEGATIVE_TTL_SECONDS = 60 * 60"
definition STATUS_HIT :: py_str where "STATUS_HIT = ''ok''"
definition STATUS_EMPTY :: py_str where "STATUS_EMPTY = ''empty''"

definition NON_CACHEABLE_STATUSES :: "py_str list" where
  "NON_CACHEABLE_STATUSES = [''auth_failed'', ''malformed'', ''rate_limited'', ''error'']"

record cached_response =
  cr_status :: py_str
  cr_normalized :: "json_object option"
  cr_retrieved_at :: int
  cr_expires_at :: int

definition is_empty_result :: "cached_response \<Rightarrow> bool" where
  "is_empty_result c = (cr_status c = STATUS_EMPTY)"

definition build_cache_key :: "py_str \<Rightarrow> py_str \<Rightarrow> py_str option \<Rightarrow> py_str" where
  "build_cache_key source product version =
     source @ '':'' @ str_of_int SCHEMA_VERSION @ '':'' @ py_lower product @ '':''
       @ py_lower (case version of None \<Rightarrow> ''*'' | Some v \<Rightarrow> if v = [] then ''*'' else v)"

definition cache_row_at :: "database \<Rightarrow> py_str \<Rightarrow> cache_row option" where
  "cache_row_at d key = find (\<lambda>r. ca_key r = key) (db_cache d)"

definition cache_get :: "py_str \<Rightarrow> int option \<Rightarrow> database \<Rightarrow> cached_response option \<times> database" where
  "cache_get key now d =
     (case read_now now d of (moment, d) \<Rightarrow>
        (case cache_row_at d key of
           None \<Rightarrow> None
         | Some r \<Rightarrow>
             if ca_expires_at r \<le> moment then None
             else Some \<lparr>cr_status = ca_status r, cr_normalized = ca_normalized r,
               cr_retrieved_at = ca_retrieved_at r, cr_expires_at = ca_expires_at r\<rparr>, d))"

definition cache_ttl :: "py_str \<Rightarrow> int option \<Rightarrow> int" where
  "cache_ttl status ttl_seconds =
     (case ttl_seconds of Some t \<Rightarrow> t
      | None \<Rightarrow> if status = STATUS_EMPTY then NEGATIVE_TTL_SECONDS else DEFAULT_TTL_SECONDS)"

text \<open>
  \<open>store\<close>: an entry with the key is overwritten in place, else a new one is added; the answer is
  whether anything was stored.
\<close>

definition cache_store :: "py_str \<Rightarrow> py_str \<Rightarrow> py_str \<Rightarrow> json_object option \<Rightarrow> json_object option \<Rightarrow>
    int option \<Rightarrow> int option \<Rightarrow> database \<Rightarrow> bool \<times> database" where
  "cache_store key source status normalized response ttl_seconds now d =
     (if status \<in> set NON_CACHEABLE_STATUSES then (False, d)
      else
        (case read_now now d of (moment, d) \<Rightarrow>
           (let row = \<lparr>ca_key = key, ca_source = source, ca_schema_version = SCHEMA_VERSION,
                  ca_status = status, ca_response = response, ca_normalized = normalized,
                  ca_retrieved_at = moment,
                  ca_expires_at = moment + cache_ttl status ttl_seconds * MICROS_PER_SECOND\<rparr>
            in (True, d\<lparr>db_cache :=
                  (case cache_row_at d key of
                     None \<Rightarrow> db_cache d @ [row]
                   | Some _ \<Rightarrow> map (\<lambda>r. if ca_key r = key then row else r) (db_cache d))\<rparr>))))"

record cache_summary =
  cs_entries :: int
  cs_fresh :: int
  cs_expired :: int
  cs_by_source :: "(py_str \<times> int) list"

definition cache_summary_of :: "database \<Rightarrow> cache_summary \<times> database" where
  "cache_summary_of d =
     (let rows = db_cache d; now = utcnow d;
          fresh = int (length (filter (\<lambda>r. ca_expires_at r > now) rows))
      in (\<lparr>cs_entries = int (length rows), cs_fresh = fresh, cs_expired = int (length rows) - fresh,
           cs_by_source = fold (\<lambda>r m. dict_set m (ca_source r) (dict_get m (ca_source r) 0 + 1)) rows []\<rparr>,
          tick d))"

definition cache_clear :: "database \<Rightarrow> int \<times> database" where
  "cache_clear d = (int (length (db_cache d)), d\<lparr>db_cache := []\<rparr>)"

section \<open>Reading back what was stored\<close>

definition cache_ok :: "database \<Rightarrow> bool" where
  "cache_ok d \<longleftrightarrow> distinct (map ca_key (db_cache d))"

lemma cache_get_now:
  "fst (cache_get key (Some t) d) =
     (case cache_row_at d key of None \<Rightarrow> None
      | Some r \<Rightarrow> if ca_expires_at r \<le> t then None
          else Some \<lparr>cr_status = ca_status r, cr_normalized = ca_normalized r,
            cr_retrieved_at = ca_retrieved_at r, cr_expires_at = ca_expires_at r\<rparr>)"
  by (simp add: cache_get_def read_now_def)

lemma find_append: "find P (xs @ ys) = (case find P xs of None \<Rightarrow> find P ys | Some x \<Rightarrow> Some x)"
  by (induction xs) simp_all

lemma find_map_key:
  "ca_key row = key \<Longrightarrow>
     find (\<lambda>r. ca_key r = k) (map (\<lambda>r. if ca_key r = key then row else r) rs)
     = (if k = key then map_option (\<lambda>_. row) (find (\<lambda>r. ca_key r = key) rs)
        else find (\<lambda>r. ca_key r = k) rs)"
  by (induction rs) auto

lemma cache_store_row:
  assumes "cache_store key source status normalized response ttl (Some t) d = (True, d')"
  shows "cache_row_at d' k = (if k = key
    then Some \<lparr>ca_key = key, ca_source = source, ca_schema_version = SCHEMA_VERSION,
      ca_status = status, ca_response = response, ca_normalized = normalized, ca_retrieved_at = t,
      ca_expires_at = t + cache_ttl status ttl * MICROS_PER_SECOND\<rparr>
    else cache_row_at d k)"
  using assms
  by (auto simp: cache_store_def read_now_def Let_def cache_row_at_def find_append find_map_key
      split: if_splits option.splits)

lemma cache_store_ok:
  assumes "cache_ok d" and "cache_store key source status normalized response ttl (Some t) d = (b, d')"
  shows "cache_ok d'"
proof -
  have same: "map (ca_key \<circ> (\<lambda>r. if ca_key r = key then row else r)) rs = map ca_key rs"
    if "ca_key row = key" for row rs
    using that by auto
  show ?thesis
    using assms
    by (auto simp: cache_ok_def cache_store_def read_now_def Let_def cache_row_at_def same
        find_None_iff simp del: map_eq_conv split: if_splits option.splits)
qed

lemma count_sources:
  "dict_get (fold (\<lambda>r m. dict_set m (ca_source r) (dict_get m (ca_source r) 0 + 1)) rows m) s (0::int)
     = dict_get m s 0 + int (length (filter (\<lambda>r. ca_source r = s) rows))"
  by (induction rows arbitrary: m) auto

section \<open>What the cache promises\<close>

text \<open>A stored answer is the answer that is read back, until it expires.  After a \<open>store\<close> that
  returned true, the key gives back the status and the normalized answer at every moment before
  the expiry, nothing from the expiry on, and every other key is unaffected; an empty answer lives
  an hour and any other a day, unless the caller said otherwise.\<close>

theorem cache_round_trip:
  assumes "cache_store key source status normalized response ttl (Some t) d = (True, d')"
  shows "fst (cache_get k (Some u) d') =
    (if k \<noteq> key then fst (cache_get k (Some u) d)
     else if u < t + (case ttl of Some n \<Rightarrow> n | None \<Rightarrow> if status = ''empty'' then 3600 else 86400)
         * 1000000
     then Some \<lparr>cr_status = status, cr_normalized = normalized, cr_retrieved_at = t,
       cr_expires_at = t + (case ttl of Some n \<Rightarrow> n
         | None \<Rightarrow> if status = ''empty'' then 3600 else 86400) * 1000000\<rparr>
     else None)"
proof -
  have ttl: "cache_ttl status ttl * MICROS_PER_SECOND = (case ttl of Some n \<Rightarrow> n
      | None \<Rightarrow> if status = ''empty'' then 3600 else 86400) * 1000000"
    by (simp add: cache_ttl_def MICROS_PER_SECOND_def STATUS_EMPTY_def NEGATIVE_TTL_SECONDS_def
        DEFAULT_TTL_SECONDS_def split: option.splits)
  show ?thesis
    by (simp add: cache_get_now cache_store_row [OF assms] ttl)
qed

lemma cache_round_trip_witness:
  "fst (cache_get ''k'' (Some 100) (snd (cache_store ''k'' ''nvd'' ''ok'' None None None (Some 0) lab_db)))
     = Some \<lparr>cr_status = ''ok'', cr_normalized = None, cr_retrieved_at = 0,
         cr_expires_at = 86400000000\<rparr>"
proof -
  have "fst (cache_store ''k'' ''nvd'' ''ok'' None None None (Some 0) lab_db)"
    by (simp add: cache_store_def NON_CACHEABLE_STATUSES_def read_now_def Let_def)
  then obtain d' where "cache_store ''k'' ''nvd'' ''ok'' None None None (Some 0) lab_db = (True, d')"
    by (metis prod.collapse)
  from cache_round_trip [OF this, of "''k''" 100] this show ?thesis by simp
qed

text \<open>A failed lookup is never cached.  An authentication failure, a malformed answer, a rate
  limit and an error are the statuses \<open>store\<close> refuses, and it then changes nothing; every other
  status is stored.\<close>

theorem failures_never_cached:
  "cache_store key source status normalized response ttl now d
     = (if list_ex (\<lambda>s. status = s) [''auth_failed'', ''malformed'', ''rate_limited'', ''error'']
        then (False, d)
        else (True, snd (cache_store key source status normalized response ttl now d)))"
  by (auto simp: cache_store_def NON_CACHEABLE_STATUSES_def read_now_def Let_def
      split: option.splits)

text \<open>The summary tells what clearing would delete.  Its number of entries is the number
  \<open>clear\<close> then deletes, fresh and expired add up to it, and the count of each source is the number
  of its entries.\<close>

theorem cache_summary_counts:
  "cs_entries (fst (cache_summary_of d)) = fst (cache_clear (snd (cache_summary_of d)))
   \<and> cs_fresh (fst (cache_summary_of d)) + cs_expired (fst (cache_summary_of d))
     = cs_entries (fst (cache_summary_of d))
   \<and> dict_get (cs_by_source (fst (cache_summary_of d))) s 0
     = int (length (filter (\<lambda>r. ca_source r = s) (db_cache d)))"
  by (simp add: cache_summary_of_def cache_clear_def Let_def count_sources tick_def)

end
