(* ===== verification/Cpe.thy ===== *)
theory Cpe
  imports Fingerprints
begin

text \<open>
  \<open>backend/app/modules/cpe.py\<close>: the curated table from product names to CPE identities, and the
  CPE 2.3 name built from it.
\<close>

record cpe_identity =
  ci_vendor :: py_str
  ci_product :: py_str

definition VERSION_PATTERN :: rx where
  "VERSION_PATTERN = rx_seq [TextStart, rx_plus (any_of False [ClsDigit]),
     RxStar (rx_seq [rx_lit False ''.'', rx_plus (any_of False [ClsDigit])])]"

definition identity :: "py_str \<Rightarrow> py_str \<Rightarrow> cpe_identity" where
  "identity v p = \<lparr>ci_vendor = v, ci_product = p\<rparr>"

definition CURATED_CPE_MAP :: "(py_str \<times> cpe_identity) list" where
  "CURATED_CPE_MAP =
   [(''openssh'', identity ''openbsd'' ''openssh''),
    (''dropbear'', identity ''dropbear_ssh_project'' ''dropbear_ssh''),
    (''apache'', identity ''apache'' ''http_server''),
    (''apache httpd'', identity ''apache'' ''http_server''),
    (''httpd'', identity ''apache'' ''http_server''),
    (''nginx'', identity ''f5'' ''nginx''),
    (''lighttpd'', identity ''lighttpd'' ''lighttpd''),
    (''iis'', identity ''microsoft'' ''internet_information_services''),
    (''microsoft-iis'', identity ''microsoft'' ''internet_information_services''),
    (''vsftpd'', identity ''vsftpd_project'' ''vsftpd''),
    (''proftpd'', identity ''proftpd'' ''proftpd''),
    (''filezilla server'', identity ''filezilla-project'' ''filezilla_server''),
    (''pure-ftpd'', identity ''pureftpd'' ''pure-ftpd''),
    (''mysql'', identity ''oracle'' ''mysql''),
    (''mariadb'', identity ''mariadb'' ''mariadb''),
    (''postgresql'', identity ''postgresql'' ''postgresql''),
    (''redis'', identity ''redis'' ''redis''),
    (''mongodb'', identity ''mongodb'' ''mongodb''),
    (''elasticsearch'', identity ''elastic'' ''elasticsearch''),
    (''postfix'', identity ''postfix'' ''postfix''),
    (''exim'', identity ''exim'' ''exim''),
    (''dovecot'', identity ''dovecot'' ''dovecot''),
    (''samba'', identity ''samba'' ''samba''),
    (''openssl'', identity ''openssl'' ''openssl''),
    (''tomcat'', identity ''apache'' ''tomcat''),
    (''apache tomcat'', identity ''apache'' ''tomcat''),
    (''jenkins'', identity ''jenkins'' ''jenkins''),
    (''grafana'', identity ''grafana'' ''grafana''),
    (''jetty'', identity ''eclipse'' ''jetty''),
    (''node.js'', identity ''nodejs'' ''node.js''),
    (''werkzeug'', identity ''palletsprojects'' ''werkzeug''),
    (''gunicorn'', identity ''gunicorn'' ''gunicorn''),
    (''squid'', identity ''squid-cache'' ''squid''),
    (''haproxy'', identity ''haproxy'' ''haproxy''),
    (''openvpn'', identity ''openvpn'' ''openvpn''),
    (''vnc'', identity ''realvnc'' ''vnc''),
    (''memcached'', identity ''memcached'' ''memcached'')]"

text \<open>The text that a slice of a Latin-1 text is.\<close>

definition text_of :: "ustr \<Rightarrow> py_str" where "text_of s = map char_of s"

definition normalize_version :: "unicode_db \<Rightarrow> py_str option \<Rightarrow> py_str option" where
  "normalize_version db version =
     (case version of
        None \<Rightarrow> None
      | Some v \<Rightarrow> if v = [] then None
          else (let t = uni (py_strip v) in
                map_option (\<lambda>m. text_of (the (re_group t m 0))) (re_match db VERSION_PATTERN t)))"

definition lookup :: "py_str option \<Rightarrow> cpe_identity option" where
  "lookup product = (case product of
     None \<Rightarrow> None
   | Some p \<Rightarrow> if p = [] then None else map_of CURATED_CPE_MAP (py_lower (py_strip p)))"

definition build_cpe_name :: "cpe_identity \<Rightarrow> py_str option \<Rightarrow> py_str" where
  "build_cpe_name i version = ''cpe:2.3:a:'' @ ci_vendor i @ '':'' @ ci_product i @ '':''
     @ (case version of None \<Rightarrow> ''*'' | Some v \<Rightarrow> if v = [] then ''*'' else v) @ '':*:*:*:*:*:*:*''"

definition cpe_for :: "unicode_db \<Rightarrow> py_str option \<Rightarrow> py_str option \<Rightarrow> py_str option" where
  "cpe_for db product version =
     map_option (\<lambda>i. build_cpe_name i (normalize_version db version)) (lookup product)"

section \<open>Facts\<close>

definition colon_free :: "py_str \<Rightarrow> bool" where
  "colon_free s \<longleftrightarrow> CHR '':'' \<notin> set s"

lemma curated_colon_free:
  "list_all (\<lambda>(p, i). colon_free (ci_vendor i) \<and> colon_free (ci_product i)) CURATED_CPE_MAP"
  by (simp add: CURATED_CPE_MAP_def identity_def colon_free_def)

lemma lookup_colon_free: "lookup product = Some i \<Longrightarrow> colon_free (ci_vendor i) \<and> colon_free (ci_product i)"
  using curated_colon_free
  by (auto simp: lookup_def list_all_iff split: option.splits if_splits dest!: map_of_SomeD)

definition version_text :: "py_str \<Rightarrow> bool" where
  "version_text v \<longleftrightarrow> list_all (\<lambda>c. is_digit c \<or> c = CHR ''.'') v"

lemma re_match_chars:
  assumes "re_match db r s = Some m" and "rx_chars db P r"
  shows "list_all P (the (re_group s m 0)) \<and> prefix (the (re_group s m 0)) s"
proof -
  from assms(1) obtain q cs l where m: "rx_match db s r 0 [] = (q, cs) # l" "mt_start m = 0" "mt_end m = q"
    by (auto simp: re_match_def match_at_def split: list.splits)
  then have "(q, cs) \<in> set (rx_match db s r 0 [])" by simp
  from rx_match_chars [OF assms(2) _ this] have "all_between P s 0 q" by simp
  from all_between_slice [OF this] m show ?thesis
    by (simp add: re_group_def u_slice_def take_is_prefix)
qed

lemma VERSION_PATTERN_chars: "rx_chars db (\<lambda>c. c < 256 \<longrightarrow> 48 \<le> c \<and> c \<le> 57 \<or> c = 46) VERSION_PATTERN"
  by (auto simp: VERSION_PATTERN_def class_defs u_digit_def split: if_splits)

lemma text_of_uni [simp]: "text_of (uni s) = s"
  by (simp add: text_of_def uni_def comp_def)

lemma normalize_version_spec:
  assumes "normalize_version db (Some v) = Some w"
  shows "version_text w \<and> prefix w (py_strip v)"
proof -
  let ?t = "uni (py_strip v)"
  from assms obtain m where m: "re_match db VERSION_PATTERN ?t = Some m" and w: "w = text_of (the (re_group ?t m 0))"
    by (auto simp: normalize_version_def Let_def split: if_splits)
  let ?g = "the (re_group ?t m 0)"
  have g: "list_all (\<lambda>c. c < 256 \<longrightarrow> 48 \<le> c \<and> c \<le> 57 \<or> c = 46) ?g" "prefix ?g ?t"
    using re_match_chars [OF m VERSION_PATTERN_chars] by auto
  define n where "n = length ?g"
  have take: "?g = take n ?t" using g(2) by (metis n_def prefix_def append_eq_conv_conj)
  have wn: "w = take n (py_strip v)"
    unfolding w take by (simp add: text_of_def uni_def comp_def flip: take_map)
  have "is_digit c \<or> c = CHR ''.''" if "c \<in> set w" for c
  proof -
    have "of_char c \<in> set ?g"
      using that unfolding wn take by (simp add: uni_def take_map)
    moreover have "of_char c < (256 :: nat)" by simp
    ultimately have "48 \<le> (of_char c :: nat) \<and> (of_char c :: nat) \<le> 57 \<or> (of_char c :: nat) = 46"
      using g(1) by (auto simp: list_all_iff)
    then show ?thesis
    proof
      assume "(of_char c :: nat) = 46"
      then have "(of_char c :: nat) = of_char (CHR ''.'')" by simp
      then have "c = CHR ''.''" by (simp only: of_char_eq_iff)
      then show ?thesis by simp
    qed (simp add: is_digit_def)
  qed
  then show ?thesis by (auto simp: version_text_def list_all_iff wn take_is_prefix)
qed

text \<open>The parts of a CPE name.\<close>

definition cpe_parts :: "py_str \<Rightarrow> py_str \<Rightarrow> py_str \<Rightarrow> py_str list" where
  "cpe_parts vendor product version =
     [''cpe'', ''2.3'', ''a'', vendor, product, version, ''*'', ''*'', ''*'', ''*'', ''*'', ''*'', ''*'']"


lemma openssh_cpe:
  "cpe_for no_unicode (Some ''OpenSSH'') (Some ''8.9p1 Ubuntu'') = Some ''cpe:2.3:a:openbsd:openssh:8.9:*:*:*:*:*:*:*''"
  by code_simp


end
