(* ===== verification/Outbound.thy ===== *)
theory Outbound
  imports Domain Py_Str Pacing
begin

text \<open>
  \<open>backend/app/services/outbound.py\<close>: the only path to a third-party host.  The URL is split as
  \<open>urllib.parse.urlsplit\<close> of Python 3.11 does; the HTTP client, the clock, the random jitter and
  \<open>float\<close> on a header are the environment's.  Seconds are rational numbers.
\<close>

definition NVD_HOST :: py_str where "NVD_HOST = ''services.nvd.nist.gov''"
definition KEV_HOST :: py_str where "KEV_HOST = ''www.cisa.gov''"

definition ALLOWED_PROVIDER_HOSTS :: "py_str list" where
  "ALLOWED_PROVIDER_HOSTS = [NVD_HOST, KEV_HOST]"

definition PUBLIC_REQUESTS_PER_WINDOW :: nat where "PUBLIC_REQUESTS_PER_WINDOW = 5"
definition KEYED_REQUESTS_PER_WINDOW :: nat where "KEYED_REQUESTS_PER_WINDOW = 50"
definition RATE_WINDOW_SECONDS :: rat where "RATE_WINDOW_SECONDS = 30"
definition MAX_ATTEMPTS :: nat where "MAX_ATTEMPTS = 4"
definition BASE_BACKOFF :: rat where "BASE_BACKOFF = 1"
definition MAX_BACKOFF :: rat where "MAX_BACKOFF = 30"

text \<open>
  The exceptions of the module, \<open>ValueError\<close> of \<open>urlsplit\<close>, and of \<open>ProviderUnavailable\<close> its
  status.
\<close>

datatype provider_exn = DisallowedProviderHost py_str | ProviderUnavailable py_str "int option"
  | ProviderRateLimited py_str "int option" | UrlError

section \<open>Splitting a URL\<close>

definition is_alpha :: "char \<Rightarrow> bool" where
  "is_alpha c \<longleftrightarrow> 65 \<le> code c \<and> code c \<le> 90 \<or> 97 \<le> code c \<and> code c \<le> 122"

definition scheme_char :: "char \<Rightarrow> bool" where
  "scheme_char c \<longleftrightarrow> is_alpha c \<or> is_digit c \<or> c \<in> set ''+-.''"

text \<open>\<open>lstrip\<close> of control characters and spaces, and the characters that are removed anywhere.\<close>

definition clean_url :: "py_str \<Rightarrow> py_str" where
  "clean_url url = filter (\<lambda>c. code c \<noteq> 9 \<and> code c \<noteq> 10 \<and> code c \<noteq> 13) (dropWhile (\<lambda>c. code c \<le> 32) url)"

definition split_scheme :: "py_str \<Rightarrow> py_str \<times> py_str" where
  "split_scheme url =
     (case partition_on CHR '':'' url of
        (a, found, b) \<Rightarrow> if found \<and> a \<noteq> [] \<and> list_all scheme_char a then (py_lower a, b) else ([], url))"

definition split_netloc :: "py_str \<Rightarrow> py_str" where
  "split_netloc rest =
     (if take 2 rest = ''//'' then takeWhile (\<lambda>c. c \<notin> set ''/?#'') (drop 2 rest) else [])"

text \<open>
  \<open>urlsplit\<close>: scheme and netloc, or \<open>ValueError\<close>.  \<open>netloc_ok\<close> are its checks of a bracketed host
  and of the normal form of a netloc that is not ASCII; they only refuse.
\<close>

definition urlsplit :: "(py_str \<Rightarrow> bool) \<Rightarrow> py_str \<Rightarrow> (py_str \<times> py_str) option" where
  "urlsplit netloc_ok url =
     (let (scheme, rest) = split_scheme (clean_url url);
          netloc = split_netloc rest
      in if (CHR ''['' \<in> set netloc) \<noteq> (CHR '']'' \<in> set netloc) then None
         else if (CHR ''['' \<in> set netloc \<or> list_ex (\<lambda>c. 128 \<le> code c) netloc) \<and> \<not> netloc_ok netloc then None
         else Some (scheme, netloc))"

text \<open>\<open>SplitResult.hostname\<close>, empty for \<open>None\<close>.\<close>

definition url_hostname :: "py_str \<Rightarrow> py_str" where
  "url_hostname netloc =
     (let hostinfo = rev (takeWhile (\<lambda>c. c \<noteq> CHR ''@'') (rev netloc));
          host = (case partition_on CHR ''['' hostinfo of
                    (_, True, bracketed) \<Rightarrow> fst (partition_on CHR '']'' bracketed)
                  | (_, False, _) \<Rightarrow> fst (partition_on CHR '':'' hostinfo))
      in case partition_on CHR ''%'' host of
           (name, percent, zone) \<Rightarrow> py_lower name @ (if percent then CHR ''%'' # zone else []))"

section \<open>The rolling window\<close>

record limiter =
  lm_limit :: nat
  lm_window :: rat
  lm_timestamps :: "rat list"

definition new_limiter :: "nat \<Rightarrow> rat \<Rightarrow> limiter" where
  "new_limiter limit window = \<lparr>lm_limit = limit, lm_window = window, lm_timestamps = []\<rparr>"

text \<open>One turn of the loop of \<open>acquire\<close> at a reading of the clock: admitted, or how long to sleep.\<close>

definition limiter_try :: "rat \<Rightarrow> limiter \<Rightarrow> rat option \<times> limiter" where
  "limiter_try now l =
     (let recent = filter (\<lambda>t. now - t < lm_window l) (lm_timestamps l)
      in if length recent < lm_limit l then (None, l\<lparr>lm_timestamps := recent @ [now]\<rparr>)
         else (Some (lm_window l - (now - hd recent) + 1 / 20), l\<lparr>lm_timestamps := recent\<rparr>))"

fun limiter_acquire :: "rat list \<Rightarrow> limiter \<Rightarrow> (nat \<times> limiter) option" where
  "limiter_acquire [] l = None"
| "limiter_acquire (now # later) l =
     (case limiter_try now l of
        (None, l') \<Rightarrow> Some (1, l')
      | (Some _, l') \<Rightarrow> map_option (\<lambda>(n, c). (Suc n, c)) (limiter_acquire later l'))"

section \<open>The gateway\<close>

record gateway =
  gw_user_agent :: py_str
  gw_api_key :: "py_str option"

definition key_given :: "gateway \<Rightarrow> bool" where
  "key_given gw \<longleftrightarrow> gw_api_key gw \<noteq> None \<and> gw_api_key gw \<noteq> Some []"

definition gateway_limiter :: "gateway \<Rightarrow> limiter" where
  "gateway_limiter gw = new_limiter
     (if key_given gw then KEYED_REQUESTS_PER_WINDOW else PUBLIC_REQUESTS_PER_WINDOW) RATE_WINDOW_SECONDS"

definition check_url :: "(py_str \<Rightarrow> bool) \<Rightarrow> py_str \<Rightarrow> provider_exn + py_str" where
  "check_url netloc_ok url =
     (case urlsplit netloc_ok url of
        None \<Rightarrow> Inl UrlError
      | Some (scheme, netloc) \<Rightarrow>
          if scheme \<noteq> ''https''
          then Inl (DisallowedProviderHost (py_repr url @ '' is not https - provider calls must be HTTPS''))
          else (let host = py_lower (url_hostname netloc) in
                if host \<notin> set ALLOWED_PROVIDER_HOSTS
                then Inl (DisallowedProviderHost (py_repr host @ '' is not an allowlisted CVE provider (allowed: ''
                       @ join '', '' ALLOWED_PROVIDER_HOSTS @ '')''))
                else Inr url))"

definition headers :: "(py_str \<Rightarrow> bool) \<Rightarrow> gateway \<Rightarrow> py_str \<Rightarrow> (py_str \<times> py_str) list" where
  "headers netloc_ok gw url =
     [(''User-Agent'', gw_user_agent gw), (''Accept'', ''application/json'')]
     @ (if key_given gw \<and> map_option (url_hostname \<circ> snd) (urlsplit netloc_ok url) = Some NVD_HOST
        then [(''apiKey'', the (gw_api_key gw))] else [])"

record provider_request =
  rq_url :: py_str
  rq_params :: "(py_str \<times> py_str) list"
  rq_headers :: "(py_str \<times> py_str) list"

text \<open>What the client returns: the status, the \<open>Retry-After\<close> header, and the body parsed as JSON or
  the message of the \<open>ValueError\<close>.\<close>

record provider_answer =
  pa_status :: int
  pa_retry_after :: "py_str option"
  pa_json :: "py_str + json"

record provider_response =
  pr_status :: int
  pr_payload :: json

datatype float_value = FiniteFloat rat | PositiveInfinity | NegativeInfinity | NotANumber

text \<open>The world of a gateway: its limiter, the requests sent and the sleeps before retries.\<close>

record outbound_world =
  ow_limiter :: limiter
  ow_requests :: "provider_request list"
  ow_sleeps :: "rat list"

text \<open>
  The environment: the readings of the clock an acquire takes, the answer to a request or the
  message of an \<open>httpx.HTTPError\<close>, \<open>random.uniform(0, ceiling)\<close>, and \<open>float\<close> on a header.
\<close>

record outbound_env =
  oe_netloc_ok :: "py_str \<Rightarrow> bool"
  oe_readings :: "outbound_world \<Rightarrow> rat list"
  oe_answer :: "outbound_world \<Rightarrow> provider_request \<Rightarrow> py_str + provider_answer"
  oe_uniform :: "outbound_world \<Rightarrow> rat \<Rightarrow> rat"
  oe_float :: "py_str \<Rightarrow> float_value option"

text \<open>\<open>asyncio.sleep(min(value, MAX_BACKOFF_SECONDS))\<close>: a value that is not positive does not wait.\<close>

fun retry_after_seconds :: "float_value \<Rightarrow> rat" where
  "retry_after_seconds (FiniteFloat r) = max 0 (min r MAX_BACKOFF)"
| "retry_after_seconds PositiveInfinity = MAX_BACKOFF"
| "retry_after_seconds NegativeInfinity = 0"
| "retry_after_seconds NotANumber = 0"

definition backoff_ceiling :: "nat \<Rightarrow> rat" where
  "backoff_ceiling attempt = min (BASE_BACKOFF * 2 ^ (attempt - 1)) MAX_BACKOFF"

definition sleep_before_retry :: "outbound_env \<Rightarrow> nat \<Rightarrow> provider_answer option \<Rightarrow> outbound_world \<Rightarrow> outbound_world" where
  "sleep_before_retry env attempt response w =
     (let asked = (case response of
            None \<Rightarrow> None
          | Some a \<Rightarrow> (case pa_retry_after a of
                        None \<Rightarrow> None
                      | Some header \<Rightarrow> if header = [] then None else oe_float env header))
      in w\<lparr>ow_sleeps := ow_sleeps w @
             [case asked of Some v \<Rightarrow> retry_after_seconds v
              | None \<Rightarrow> oe_uniform env w (backoff_ceiling attempt)]\<rparr>)"

text \<open>The request of one attempt, once the limiter has admitted it.\<close>

definition send_request :: "outbound_env \<Rightarrow> gateway \<Rightarrow> py_str \<Rightarrow> (py_str \<times> py_str) list \<Rightarrow> outbound_world \<Rightarrow>
    ((py_str + provider_answer) \<times> outbound_world) option" where
  "send_request env gw url params w =
     (case limiter_acquire (oe_readings env w) (ow_limiter w) of
        None \<Rightarrow> None
      | Some (_, l) \<Rightarrow>
          (let rq = \<lparr>rq_url = url, rq_params = params, rq_headers = headers (oe_netloc_ok env) gw url\<rparr>
           in Some (oe_answer env w rq, w\<lparr>ow_limiter := l, ow_requests := ow_requests w @ [rq]\<rparr>)))"

definition rate_limiting_message :: py_str where
  "rate_limiting_message = ''the provider is rate limiting ScanLedger''"

definition unreachable_message :: "py_str \<Rightarrow> py_str" where
  "unreachable_message exc = ''could not reach the provider: '' @ exc"

definition unreadable_message :: "py_str \<Rightarrow> py_str" where
  "unreadable_message exc = ''the provider returned unreadable JSON: '' @ exc"

definition returned_message :: "int \<Rightarrow> py_str" where
  "returned_message status = ''the provider returned '' @ str_of_int status"

text \<open>
  The attempts of \<open>get_json\<close>, by the numbers of those that are left.  \<open>None\<close> is a call that is
  still waiting for the limiter when the readings of its clock end.
\<close>

fun get_attempts :: "outbound_env \<Rightarrow> gateway \<Rightarrow> py_str \<Rightarrow> (py_str \<times> py_str) list \<Rightarrow> nat list \<Rightarrow>
    provider_exn option \<Rightarrow> outbound_world \<Rightarrow> ((provider_exn + provider_response) \<times> outbound_world) option" where
  "get_attempts env gw url params [] last_error w =
     Some (Inl (case last_error of
                  Some e \<Rightarrow> e
                | None \<Rightarrow> ProviderUnavailable ''the provider could not be reached'' None), w)"
| "get_attempts env gw url params (attempt # attempts) last_error w =
     (case send_request env gw url params w of
        None \<Rightarrow> None
      | Some (Inl message, w1) \<Rightarrow>
          get_attempts env gw url params attempts
            (Some (ProviderUnavailable (unreachable_message message) None))
            (if attempt < MAX_ATTEMPTS then sleep_before_retry env attempt None w1 else w1)
      | Some (Inr answer, w1) \<Rightarrow>
          (if pa_status answer = 200
           then (case pa_json answer of
                   Inr payload \<Rightarrow> Some (Inr \<lparr>pr_status = 200, pr_payload = payload\<rparr>, w1)
                 | Inl message \<Rightarrow> Some (Inl (ProviderUnavailable (unreadable_message message) (Some 200)), w1))
           else if pa_status answer = 403 \<or> pa_status answer = 429
           then get_attempts env gw url params attempts
                  (Some (ProviderRateLimited rate_limiting_message (Some (pa_status answer))))
                  (sleep_before_retry env attempt (Some answer) w1)
           else if 500 \<le> pa_status answer \<and> pa_status answer < 600
           then get_attempts env gw url params attempts
                  (Some (ProviderUnavailable (returned_message (pa_status answer)) (Some (pa_status answer))))
                  (sleep_before_retry env attempt (Some answer) w1)
           else Some (Inl (ProviderUnavailable (returned_message (pa_status answer)) (Some (pa_status answer))), w1)))"

definition get_json :: "outbound_env \<Rightarrow> gateway \<Rightarrow> py_str \<Rightarrow> (py_str \<times> py_str) list \<Rightarrow> outbound_world \<Rightarrow>
    ((provider_exn + provider_response) \<times> outbound_world) option" where
  "get_json env gw url params w =
     (case check_url (oe_netloc_ok env) url of
        Inl e \<Rightarrow> Some (Inl e, w)
      | Inr _ \<Rightarrow> get_attempts env gw url params [1..<Suc MAX_ATTEMPTS] None w)"

section \<open>The window is never exceeded\<close>

definition limiter_ok :: "limiter \<Rightarrow> bool" where
  "limiter_ok l \<longleftrightarrow> 0 < lm_limit l \<and> 0 < lm_window l \<and> length (lm_timestamps l) \<le> lm_limit l"

definition limiter_ready :: "rat \<Rightarrow> limiter \<Rightarrow> bool" where
  "limiter_ready now l \<longleftrightarrow> limiter_ok l \<and> list_all (\<lambda>t. t \<le> now) (lm_timestamps l)"

lemma limiter_try_fields:
  "lm_limit (snd (limiter_try now l)) = lm_limit l" "lm_window (snd (limiter_try now l)) = lm_window l"
  by (simp_all add: limiter_try_def Let_def)

lemma limiter_try_ok: "limiter_ok l \<Longrightarrow> limiter_ok (snd (limiter_try now l))"
  using order_trans [OF length_filter_le [of "\<lambda>t. now - t < lm_window l" "lm_timestamps l"]]
  by (simp add: limiter_ok_def limiter_try_def Let_def)

lemma limiter_wait_enough:
  assumes "limiter_ready now l" and "limiter_try now l = (Some d, l')" and "now + d \<le> later"
  shows "fst (limiter_try later l') = None"
proof -
  define recent where "recent = filter (\<lambda>t. now - t < lm_window l) (lm_timestamps l)"
  have r: "lm_limit l \<le> length recent" "d = lm_window l - (now - hd recent) + 1 / 20" "lm_timestamps l' = recent"
      "lm_limit l' = lm_limit l" "lm_window l' = lm_window l"
    using assms(2) by (auto simp: limiter_try_def Let_def recent_def split: if_splits)
  obtain t ts where ts: "recent = t # ts"
    using r(1) assms(1) by (cases recent) (auto simp: limiter_ready_def limiter_ok_def)
  have "\<not> later - t < lm_window l" using assms(3) r(2) ts by simp
  then have "length (filter (\<lambda>t. later - t < lm_window l) recent) \<le> length ts"
    by (simp add: ts)
  also have "length ts < length recent" by (simp add: ts)
  also have "length recent \<le> lm_limit l"
    using assms(1) length_filter_le [of "\<lambda>t. now - t < lm_window l" "lm_timestamps l"]
    unfolding limiter_ready_def limiter_ok_def recent_def by linarith
  finally show ?thesis by (simp add: limiter_try_def Let_def r)
qed

interpretation window: polling limiter_try limiter_acquire limiter_ready
  by unfold_locales (use limiter_wait_enough in auto)

text \<open>The readings at which a limiter admits, over all the turns of all its callers in the order in
  which they hold its lock.\<close>

fun admissions :: "rat list \<Rightarrow> limiter \<Rightarrow> rat list" where
  "admissions [] l = []"
| "admissions (now # later) l =
     (case limiter_try now l of
        (None, l') \<Rightarrow> now # admissions later l'
      | (Some _, l') \<Rightarrow> admissions later l')"

definition in_window :: "rat \<Rightarrow> rat \<Rightarrow> rat list \<Rightarrow> nat" where
  "in_window W s ts = length (filter (\<lambda>t. s \<le> t \<and> t < s + W) ts)"

text \<open>The limiter remembers what still counts of the admissions so far.\<close>

definition remembers :: "rat \<Rightarrow> rat list \<Rightarrow> limiter \<Rightarrow> bool" where
  "remembers now h l \<longleftrightarrow> (\<forall>later \<ge> now. filter (\<lambda>t. later - t < lm_window l) (lm_timestamps l)
     = filter (\<lambda>t. later - t < lm_window l) h)"

lemma remembers_try:
  assumes "remembers now h l" and "now \<le> later"
  shows "remembers later (h @ (if fst (limiter_try later l) = None then [later] else [])) (snd (limiter_try later l))"
proof -
  have "filter (\<lambda>t. x - t < W) (filter (\<lambda>t. later - t < W) ts) = filter (\<lambda>t. x - t < W) ts"
    if "later \<le> x" for x W and ts :: "rat list"
    using that by (induction ts) auto
  then show ?thesis using assms by (auto simp: remembers_def limiter_try_def Let_def)
qed

lemma length_filter_imp: "(\<And>x. x \<in> set xs \<Longrightarrow> P x \<Longrightarrow> Q x) \<Longrightarrow> length (filter P xs) \<le> length (filter Q xs)"
  by (induction xs) (auto simp: le_Suc_eq)

lemma admissions_window:
  assumes "sorted (now # readings)" and "remembers now h l" and "\<forall>s. in_window (lm_window l) s h \<le> lm_limit l"
  shows "in_window (lm_window l) s (h @ admissions readings l) \<le> lm_limit l"
  using assms
proof (induction readings arbitrary: now h l)
  case (Cons later readings)
  let ?l = "snd (limiter_try later l)"
  let ?h = "h @ (if fst (limiter_try later l) = None then [later] else [])"
  have le: "now \<le> later" using Cons.prems(1) by simp
  have bound: "in_window (lm_window l) s ?h \<le> lm_limit l" for s
  proof (cases "fst (limiter_try later l) = None \<and> s \<le> later \<and> later < s + lm_window l")
    case True
    have "in_window (lm_window l) s h \<le> length (filter (\<lambda>t. later - t < lm_window l) h)"
      unfolding in_window_def using True by (intro length_filter_imp) auto
    also have "\<dots> = length (filter (\<lambda>t. later - t < lm_window l) (lm_timestamps l))"
      using Cons.prems(2) le by (simp add: remembers_def)
    also have "\<dots> < lm_limit l"
      using True by (auto simp: limiter_try_def Let_def split: if_splits)
    finally show ?thesis using True by (simp add: in_window_def)
  next
    case False
    then show ?thesis using Cons.prems(3) by (auto simp: in_window_def)
  qed
  have "sorted (later # readings)" using Cons.prems(1) by simp
  from Cons.IH [OF this remembers_try [OF Cons.prems(2) le]] bound
  have "in_window (lm_window l) s (?h @ admissions readings ?l) \<le> lm_limit l"
    by (simp add: limiter_try_fields)
  then show ?case by (cases "limiter_try later l") (auto split: option.splits)
qed simp

text \<open>C25. The gateway stays inside a provider's rolling window.  Over any run of its limiter, whatever
  tasks wait for it and in whatever order they hold its lock, as long as the clock does not run
  backwards, no window of the length configured holds more admissions than the limit.\<close>

theorem provider_window_kept:
  assumes "sorted readings"
  shows "in_window W s (admissions readings (new_limiter n W)) \<le> n"
proof (cases readings)
  case (Cons now later)
  have "in_window (lm_window (new_limiter n W)) s ([] @ admissions readings (new_limiter n W))
      \<le> lm_limit (new_limiter n W)"
    by (rule admissions_window [of now])
      (use assms Cons in \<open>simp_all add: new_limiter_def remembers_def in_window_def\<close>)
  then show ?thesis by (simp add: new_limiter_def)
qed (simp add: in_window_def)

lemma provider_window_kept_witness:
  "in_window 30 0 (admissions [0, 1, 2, 3, 4, 5, 29, 30] (gateway_limiter \<lparr>gw_user_agent = [], gw_api_key = None\<rparr>)) \<le> 5"
  using provider_window_kept [of "[0, 1, 2, 3, 4, 5, 29, 30]" 30 0 5]
  by (simp add: gateway_limiter_def key_given_def PUBLIC_REQUESTS_PER_WINDOW_def RATE_WINDOW_SECONDS_def)

section \<open>What a call sends\<close>

definition request_of :: "outbound_env \<Rightarrow> gateway \<Rightarrow> py_str \<Rightarrow> (py_str \<times> py_str) list \<Rightarrow> provider_request" where
  "request_of env gw url params =
     \<lparr>rq_url = url, rq_params = params, rq_headers = headers (oe_netloc_ok env) gw url\<rparr>"

lemma sleep_before_retry_requests [simp]:
  "ow_requests (sleep_before_retry env attempt a w) = ow_requests w"
  "ow_limiter (sleep_before_retry env attempt a w) = ow_limiter w"
  by (simp_all add: sleep_before_retry_def Let_def)

text \<open>How the attempts end: after k requests, with an answer that is not retried, or with the error
  of the last one.\<close>

definition gives_up :: "provider_exn option \<Rightarrow> provider_exn + provider_response \<Rightarrow> bool" where
  "gives_up last_error r \<longleftrightarrow> r = Inl (case last_error of Some e \<Rightarrow> e
     | None \<Rightarrow> ProviderUnavailable ''the provider could not be reached'' None)"

definition transient :: "provider_exn \<Rightarrow> bool" where
  "transient e \<longleftrightarrow> (\<exists>m. e = ProviderUnavailable m None) \<or> (\<exists>m s. e = ProviderRateLimited m (Some s) \<and> (s = 403 \<or> s = 429))
     \<or> (\<exists>m s. e = ProviderUnavailable m (Some s) \<and> 500 \<le> s \<and> s < 600)"

definition final :: "provider_exn + provider_response \<Rightarrow> provider_answer \<Rightarrow> bool" where
  "final r a \<longleftrightarrow> (case r of
     Inr response \<Rightarrow> pa_status a = 200 \<and> pr_status response = 200 \<and> pa_json a = Inr (pr_payload response)
   | Inl e \<Rightarrow> (\<exists>m. e = ProviderUnavailable m (Some (pa_status a))) \<and> pa_status a \<noteq> 403 \<and> pa_status a \<noteq> 429
       \<and> \<not> (500 \<le> pa_status a \<and> pa_status a < 600) \<and> (pa_status a = 200 \<longrightarrow> (\<exists>m. pa_json a = Inl m)))"

lemma get_attempts_requests:
  assumes "get_attempts env gw url params attempts last_error w = Some (r, w')"
    and "case last_error of None \<Rightarrow> True | Some e \<Rightarrow> transient e"
  shows "\<exists>k \<le> length attempts. ow_requests w' = ow_requests w @ replicate k (request_of env gw url params)
    \<and> ((\<exists>w1 a. oe_answer env w1 (request_of env gw url params) = Inr a \<and> final r a \<and> 0 < k)
       \<or> k = length attempts \<and> (\<exists>e. r = Inl e \<and> transient e))"
  using assms
proof (induction attempts arbitrary: last_error w)
  case Nil
  then show ?case by (auto simp: transient_def split: option.splits)
next
  case (Cons attempt attempts)
  let ?rq = "request_of env gw url params"
  obtain answer w1 where s: "send_request env gw url params w = Some (answer, w1)"
    and w1: "ow_requests w1 = ow_requests w @ [?rq]" and a: "answer = oe_answer env w ?rq"
    using Cons.prems(1) by (auto simp: send_request_def request_of_def Let_def split: option.splits)
  have again: ?case if "get_attempts env gw url params attempts (Some e) w2 = Some (r, w')"
      and "ow_requests w2 = ow_requests w1" and "transient e" for e w2
  proof -
    from Cons.IH [OF that(1)] that(3) obtain k where "k \<le> length attempts"
      and "ow_requests w' = ow_requests w2 @ replicate k ?rq"
      and end1: "(\<exists>w1 a. oe_answer env w1 ?rq = Inr a \<and> final r a \<and> 0 < k)
        \<or> k = length attempts \<and> (\<exists>e. r = Inl e \<and> transient e)" by auto
    then have "Suc k \<le> length (attempt # attempts)" "ow_requests w' = ow_requests w @ replicate (Suc k) ?rq"
      using that(2) w1 by simp_all
    moreover from end1 have "(\<exists>w1 a. oe_answer env w1 ?rq = Inr a \<and> final r a \<and> 0 < Suc k)
        \<or> Suc k = length (attempt # attempts) \<and> (\<exists>e. r = Inl e \<and> transient e)" by auto
    ultimately show ?thesis by blast
  qed
  have stop: ?case if "answer = Inr b" and "final r b" and "w' = w1" for b
  proof -
    have "ow_requests w' = ow_requests w @ replicate 1 ?rq" using that w1 by simp
    moreover have "oe_answer env w ?rq = Inr b" using a that(1) by simp
    ultimately show ?thesis using that(2) by (intro exI [of _ 1]) auto
  qed
  show ?case
  proof (cases answer)
    case (Inl m)
    let ?w2 = "if attempt < MAX_ATTEMPTS then sleep_before_retry env attempt None w1 else w1"
    have "get_attempts env gw url params attempts (Some (ProviderUnavailable (unreachable_message m) None)) ?w2
        = Some (r, w')" using Cons.prems(1) s Inl by simp
    moreover have "ow_requests ?w2 = ow_requests w1" by simp
    ultimately show ?thesis by (rule again) (simp add: transient_def)
  next
    case (Inr b)
    consider "pa_status b = 200" | "pa_status b = 403 \<or> pa_status b = 429" | "500 \<le> pa_status b" "pa_status b < 600"
      | "pa_status b \<noteq> 200" "pa_status b \<noteq> 403" "pa_status b \<noteq> 429" "\<not> (500 \<le> pa_status b \<and> pa_status b < 600)"
      by linarith
    then show ?thesis
    proof cases
      case 1
      then show ?thesis using Cons.prems(1) s Inr by (intro stop) (auto simp: final_def split: sum.splits)
    next
      case 2
      then have "get_attempts env gw url params attempts
          (Some (ProviderRateLimited rate_limiting_message (Some (pa_status b))))
          (sleep_before_retry env attempt (Some b) w1) = Some (r, w')" using Cons.prems(1) s Inr by auto
      then show ?thesis by (rule again) (use 2 in \<open>simp_all add: transient_def\<close>)
    next
      case 3
      then have "get_attempts env gw url params attempts
          (Some (ProviderUnavailable (returned_message (pa_status b)) (Some (pa_status b))))
          (sleep_before_retry env attempt (Some b) w1) = Some (r, w')" using Cons.prems(1) s Inr by (auto simp: Let_def)
      then show ?thesis by (rule again) (use 3 in \<open>simp_all add: transient_def\<close>)
    next
      case 4
      then show ?thesis using Cons.prems(1) s Inr by (intro stop) (auto simp: final_def)
    qed
  qed
qed

text \<open>C11. The gateway reaches providers only, and a bounded number of times.  Every request of a
  call is the same: the URL it was given, over HTTPS and with the host name of one of the two
  providers, the parameters it was given, no body, and headers in which an API key appears only for
  NVD.  There are at most four; a URL that is refused causes none.  A call that returns a value
  returns the parsed body of an answer with status 200; one that fails after an answer that is
  retried has used all its attempts.\<close>

theorem gateway_reaches_providers_only:
  assumes "get_json env gw url params w = Some (r, w')"
  shows "\<exists>k \<le> MAX_ATTEMPTS. ow_requests w' = ow_requests w
      @ replicate k \<lparr>rq_url = url, rq_params = params, rq_headers = headers (oe_netloc_ok env) gw url\<rparr>
    \<and> (0 < k \<longrightarrow> (\<exists>netloc. urlsplit (oe_netloc_ok env) url = Some (''https'', netloc)
        \<and> py_lower (url_hostname netloc) \<in> set ALLOWED_PROVIDER_HOSTS
        \<and> (dict_has (headers (oe_netloc_ok env) gw url) ''apiKey'' \<longrightarrow> url_hostname netloc = NVD_HOST)))
    \<and> (case r of
         Inr response \<Rightarrow> pr_status response = 200
           \<and> (\<exists>w1 a. oe_answer env w1 (request_of env gw url params) = Inr a \<and> pa_status a = 200
                \<and> pa_json a = Inr (pr_payload response))
       | Inl e \<Rightarrow> transient e \<longrightarrow> k = MAX_ATTEMPTS)"
proof (cases "check_url (oe_netloc_ok env) url")
  case (Inl e)
  then have "\<not> transient e"
    by (auto simp: check_url_def Let_def transient_def split: option.splits if_splits)
  then show ?thesis using assms Inl by (auto simp: get_json_def)
next
  case (Inr u)
  then obtain netloc where n: "urlsplit (oe_netloc_ok env) url = Some (''https'', netloc)"
      "py_lower (url_hostname netloc) \<in> set ALLOWED_PROVIDER_HOSTS"
    by (auto simp: check_url_def Let_def split: option.splits if_splits)
  have key: "dict_has (headers (oe_netloc_ok env) gw url) ''apiKey'' \<Longrightarrow> url_hostname netloc = NVD_HOST"
    by (auto simp: headers_def n(1) split: if_splits)
  from assms Inr have "get_attempts env gw url params [1..<Suc MAX_ATTEMPTS] None w = Some (r, w')"
    by (simp add: get_json_def)
  from get_attempts_requests [OF this, unfolded length_upt diff_Suc_1 option.case] obtain k where k: "k \<le> MAX_ATTEMPTS"
      "ow_requests w' = ow_requests w @ replicate k (request_of env gw url params)"
    and how: "(\<exists>w1 a. oe_answer env w1 (request_of env gw url params) = Inr a \<and> final r a \<and> 0 < k)
      \<or> k = MAX_ATTEMPTS \<and> (\<exists>e. r = Inl e \<and> transient e)" by blast
  have "case r of
         Inr response \<Rightarrow> pr_status response = 200
           \<and> (\<exists>w1 a. oe_answer env w1 (request_of env gw url params) = Inr a \<and> pa_status a = 200
                \<and> pa_json a = Inr (pr_payload response))
       | Inl e \<Rightarrow> transient e \<longrightarrow> k = MAX_ATTEMPTS"
    using how by (auto simp: final_def transient_def split: sum.splits)
  then show ?thesis
    using k n key unfolding request_of_def by blast
qed

lemma get_json_requests:
  assumes "get_json env gw url params w = Some (r, w')"
  shows "\<exists>k \<le> MAX_ATTEMPTS. ow_requests w' = ow_requests w @ replicate k (request_of env gw url params)"
proof (cases "check_url (oe_netloc_ok env) url")
  case (Inl e)
  then show ?thesis using assms by (auto simp: get_json_def)
next
  case (Inr u)
  with assms have "get_attempts env gw url params [1..<Suc MAX_ATTEMPTS] None w = Some (r, w')"
    by (simp add: get_json_def)
  from get_attempts_requests [OF this, unfolded length_upt diff_Suc_1 option.case] show ?thesis by blast
qed

text \<open>The sleeps of a call: at most one for each attempt, each of at most half a minute.\<close>

lemma get_attempts_sleeps:
  assumes "\<And>w c. 0 \<le> c \<Longrightarrow> 0 \<le> oe_uniform env w c \<and> oe_uniform env w c \<le> c"
    and "get_attempts env gw url params attempts last_error w = Some (r, w')"
  shows "\<exists>new. ow_sleeps w' = ow_sleeps w @ new \<and> length new \<le> length attempts
    \<and> list_all (\<lambda>d. 0 \<le> d \<and> d \<le> MAX_BACKOFF) new"
  using assms(2)
proof (induction attempts arbitrary: last_error w)
  case (Cons attempt attempts)
  obtain answer w1 where s: "send_request env gw url params w = Some (answer, w1)"
    and w1: "ow_sleeps w1 = ow_sleeps w"
    using Cons.prems by (auto simp: send_request_def Let_def split: option.splits)
  have slept: "\<exists>d. ow_sleeps (sleep_before_retry env attempt a w1) = ow_sleeps w @ [d] \<and> 0 \<le> d \<and> d \<le> MAX_BACKOFF" for a
  proof -
    have "0 \<le> backoff_ceiling attempt" "backoff_ceiling attempt \<le> MAX_BACKOFF"
      by (simp_all add: backoff_ceiling_def BASE_BACKOFF_def MAX_BACKOFF_def)
    moreover have "0 \<le> retry_after_seconds v \<and> retry_after_seconds v \<le> MAX_BACKOFF" for v
      by (cases v) (auto simp: MAX_BACKOFF_def)
    ultimately show ?thesis
      using assms(1) [of "backoff_ceiling attempt" w1]
      by (fastforce simp: sleep_before_retry_def Let_def w1 split: option.splits)
  qed
  have again: ?case if "get_attempts env gw url params attempts e w2 = Some (r, w')"
      and "w2 = w1 \<or> (\<exists>a. w2 = sleep_before_retry env attempt a w1)" for e w2
  proof -
    from Cons.IH [OF that(1)] obtain new where "ow_sleeps w' = ow_sleeps w2 @ new" "length new \<le> length attempts"
      "list_all (\<lambda>d. 0 \<le> d \<and> d \<le> MAX_BACKOFF) new" by auto
    moreover have "\<exists>ds. ow_sleeps w2 = ow_sleeps w @ ds \<and> length ds \<le> 1 \<and> list_all (\<lambda>d. 0 \<le> d \<and> d \<le> MAX_BACKOFF) ds"
      using that(2)
    proof
      assume "w2 = w1"
      then show ?thesis using w1 by (intro exI [of _ "[]"]) simp
    next
      assume "\<exists>a. w2 = sleep_before_retry env attempt a w1"
      then obtain d where "ow_sleeps w2 = ow_sleeps w @ [d]" "0 \<le> d" "d \<le> MAX_BACKOFF" using slept by blast
      then show ?thesis by (intro exI [of _ "[d]"]) simp
    qed
    then obtain ds where "ow_sleeps w2 = ow_sleeps w @ ds" "length ds \<le> 1"
      "list_all (\<lambda>d. 0 \<le> d \<and> d \<le> MAX_BACKOFF) ds" by blast
    ultimately show ?thesis by (intro exI [of _ "ds @ new"]) auto
  qed
  show ?case
  proof (cases answer)
    case (Inl m)
    let ?w2 = "if attempt < MAX_ATTEMPTS then sleep_before_retry env attempt None w1 else w1"
    have "get_attempts env gw url params attempts (Some (ProviderUnavailable (unreachable_message m) None)) ?w2
        = Some (r, w')" using Cons.prems s Inl by simp
    then show ?thesis by (rule again) auto
  next
    case (Inr a)
    show ?thesis
    proof (cases "w' = w1")
      case True
      then show ?thesis using w1 by (intro exI [of _ "[]"]) simp
    next
      case False
      with Cons.prems s Inr obtain e where
        "get_attempts env gw url params attempts e (sleep_before_retry env attempt (Some a) w1) = Some (r, w')"
        by (auto simp: Let_def split: sum.splits if_splits)
      then show ?thesis by (rule again) blast
    qed
  qed
qed simp

text \<open>The last attempt sleeps too: after a fourth answer that is retried, the call waits before it raises.\<close>

lemma last_attempt_sleeps:
  assumes "send_request env gw url params w = Some (Inr a, w1)" and "pa_status a = 429"
  shows "get_attempts env gw url params [MAX_ATTEMPTS] last_error w
    = Some (Inl (ProviderRateLimited rate_limiting_message (Some 429)), sleep_before_retry env MAX_ATTEMPTS (Some a) w1)"
  using assms by simp

text \<open>The catalog, answered at once.\<close>

definition kev_url :: py_str where
  "kev_url = ''https://www.cisa.gov/sites/default/files/feeds/known_exploited_vulnerabilities.json''"

definition prompt_env :: "json \<Rightarrow> outbound_env" where
  "prompt_env payload = \<lparr>oe_netloc_ok = (\<lambda>_. True), oe_readings = (\<lambda>_. [0]),
     oe_answer = (\<lambda>_ _. Inr \<lparr>pa_status = 200, pa_retry_after = None, pa_json = Inr payload\<rparr>),
     oe_uniform = (\<lambda>_ c. c), oe_float = (\<lambda>_. None)\<rparr>"

definition fresh_outbound :: "gateway \<Rightarrow> outbound_world" where
  "fresh_outbound gw = \<lparr>ow_limiter = gateway_limiter gw, ow_requests = [], ow_sleeps = []\<rparr>"

definition keyed :: gateway where
  "keyed = \<lparr>gw_user_agent = ''ScanLedger'', gw_api_key = Some ''k''\<rparr>"

lemma kev_split: "urlsplit ok kev_url = Some (''https'', KEV_HOST)"
  by (simp add: urlsplit_def kev_url_def KEV_HOST_def clean_url_def split_scheme_def scheme_char_def is_alpha_def
      split_netloc_def py_lower_def py_lower_char_def)

lemma kev_hostname: "url_hostname KEV_HOST = KEV_HOST" "py_lower KEV_HOST = KEV_HOST"
  by (simp_all add: url_hostname_def KEV_HOST_def py_lower_def py_lower_char_def)

lemma kev_checked: "check_url ok kev_url = Inr kev_url"
  by (simp add: check_url_def kev_split kev_hostname ALLOWED_PROVIDER_HOSTS_def)

lemma keyed_acquire: "limiter_acquire [0] (gateway_limiter keyed) \<noteq> None"
  by (simp add: gateway_limiter_def keyed_def key_given_def new_limiter_def limiter_try_def KEYED_REQUESTS_PER_WINDOW_def)

lemma kev_prompt:
  "\<exists>w'. get_json (prompt_env payload) keyed kev_url [] (fresh_outbound keyed)
     = Some (Inr \<lparr>pr_status = 200, pr_payload = payload\<rparr>, w')
     \<and> ow_requests w' = [request_of (prompt_env payload) keyed kev_url []]"
proof -
  obtain n l where "limiter_acquire [0] (gateway_limiter keyed) = Some (n, l)" using keyed_acquire by fast
  moreover have "[1..<Suc MAX_ATTEMPTS] = 1 # [2..<Suc MAX_ATTEMPTS]" by (simp add: MAX_ATTEMPTS_def upt_conv_Cons)
  ultimately show ?thesis
    by (simp add: get_json_def kev_checked send_request_def fresh_outbound_def prompt_env_def request_of_def)
qed

lemma gateway_reaches_providers_only_witness:
  "\<not> dict_has (headers (\<lambda>_. True) keyed kev_url) ''apiKey''
   \<and> fst (the (get_json (prompt_env (JObj [])) keyed kev_url [] (fresh_outbound keyed)))
       = Inr \<lparr>pr_status = 200, pr_payload = JObj []\<rparr>"
proof -
  obtain w' where w': "get_json (prompt_env (JObj [])) keyed kev_url [] (fresh_outbound keyed)
      = Some (Inr \<lparr>pr_status = 200, pr_payload = JObj []\<rparr>, w')"
    and one: "ow_requests w' = [request_of (prompt_env (JObj [])) keyed kev_url []]"
    using kev_prompt by blast
  have ok: "oe_netloc_ok (prompt_env (JObj [])) = (\<lambda>_. True)" by (simp add: prompt_env_def)
  have "KEV_HOST \<noteq> NVD_HOST" by (simp add: KEV_HOST_def NVD_HOST_def)
  then have "\<not> dict_has (headers (\<lambda>_. True) keyed kev_url) ''apiKey''"
    using gateway_reaches_providers_only [OF w'] one
    by (auto simp: ok kev_split kev_hostname fresh_outbound_def)
  then show ?thesis using w' by simp
qed

end
