(* ===== verification/Providers.thy ===== *)
theory Providers
  imports Outbound Ports
begin

text \<open>
  \<open>backend/app/services/providers/kev.py\<close> and \<open>nvd.py\<close>: what the program reads out of the payloads
  of the two providers, and what it sends them.  A payload of a shape the code does not expect makes
  it raise \<open>AttributeError\<close>, \<open>TypeError\<close> or \<open>KeyError\<close>; all three are \<open>None\<close> here.
\<close>

section \<open>Reading JSON\<close>

text \<open>\<open>value.get(key, default)\<close>: only a dictionary has it.\<close>

fun get_field :: "json \<Rightarrow> py_str \<Rightarrow> json \<Rightarrow> json option" where
  "get_field (JObj kvs) k d = Some (dict_get kvs k d)"
| "get_field _ k d = None"

text \<open>\<open>for x in value\<close>.\<close>

fun py_iter :: "json \<Rightarrow> json list option" where
  "py_iter (JList xs) = Some xs"
| "py_iter (JObj kvs) = Some (map (JStr \<circ> fst) kvs)"
| "py_iter (JStr s) = Some (map (\<lambda>c. JStr [c]) s)"
| "py_iter _ = None"

text \<open>\<open>value[0]\<close>.\<close>

fun first_item :: "json \<Rightarrow> json option" where
  "first_item (JList (x # xs)) = Some x"
| "first_item (JStr (c # cs)) = Some (JStr [c])"
| "first_item _ = None"

fun py_truth :: "json \<Rightarrow> bool" where
  "py_truth JNull = False"
| "py_truth (JBool b) = b"
| "py_truth (JInt i) = (i \<noteq> 0)"
| "py_truth (JFloat r) = (r \<noteq> 0)"
| "py_truth (JStr s) = (s \<noteq> [])"
| "py_truth (JList xs) = (xs \<noteq> [])"
| "py_truth (JObj kvs) = (kvs \<noteq> [])"
| "py_truth _ = True"

text \<open>A loop that raises at the first item of an unexpected shape.\<close>

fun map_option_list :: "('a \<Rightarrow> 'b option) \<Rightarrow> 'a list \<Rightarrow> 'b list option" where
  "map_option_list f [] = Some []"
| "map_option_list f (x # xs) =
     (case f x of None \<Rightarrow> None
      | Some y \<Rightarrow> (case map_option_list f xs of None \<Rightarrow> None | Some ys \<Rightarrow> Some (y # ys)))"

lemma map_option_list_Some_iff: "map_option_list f xs = Some ys \<longleftrightarrow> list_all2 (\<lambda>x y. f x = Some y) xs ys"
proof (induction xs arbitrary: ys)
  case (Cons x xs)
  show ?case by (auto simp: list_all2_Cons1 Cons.IH [symmetric] split: option.splits)
qed auto

section \<open>The catalog of known exploited vulnerabilities\<close>

definition KEV_URL :: py_str where
  "KEV_URL = ''https://'' @ KEV_HOST @ ''/sites/default/files/feeds/known_exploited_vulnerabilities.json''"

definition KEV_CACHE_KEY :: py_str where "KEV_CACHE_KEY = ''kev:catalog''"
definition KEV_CACHE_TTL_SECONDS :: int where "KEV_CACHE_TTL_SECONDS = 24 * 60 * 60"

record kev_entry =
  kv_cve_id :: py_str
  kv_vendor_project :: py_str
  kv_product :: py_str
  kv_vulnerability_name :: py_str
  kv_date_added :: py_str
  kv_due_date :: py_str
  kv_known_ransomware_use :: bool
  kv_required_action :: py_str

record kev_catalog =
  kc_version :: py_str
  kc_released :: py_str
  kc_entries :: "(py_str \<times> kev_entry) list"

text \<open>\<open>upper\<close> is \<open>str.upper\<close>, which leaves Latin-1; \<open>fr\<close> the text of a float.\<close>

definition kev_get :: "(py_str \<Rightarrow> py_str) \<Rightarrow> kev_catalog \<Rightarrow> py_str \<Rightarrow> kev_entry option" where
  "kev_get upper c cve_id = map_of (kc_entries c) (upper cve_id)"

definition kev_count :: "kev_catalog \<Rightarrow> nat" where "kev_count c = length (kc_entries c)"

definition field_str :: "(rat \<Rightarrow> py_str) \<Rightarrow> (py_str \<times> json) list \<Rightarrow> py_str \<Rightarrow> py_str \<Rightarrow> py_str" where
  "field_str fr kvs k d = json_str fr (dict_get kvs k (JStr d))"

text \<open>One item: no entry for an empty identifier, \<open>None\<close> where \<open>item.get\<close> raises.\<close>

definition parse_entry :: "(rat \<Rightarrow> py_str) \<Rightarrow> (py_str \<Rightarrow> py_str) \<Rightarrow> json \<Rightarrow> kev_entry option option" where
  "parse_entry fr upper item =
     (case item of
        JObj kvs \<Rightarrow>
          (let cve_id = upper (field_str fr kvs ''cveID'' '''') in
           Some (if cve_id = [] then None else Some
             \<lparr>kv_cve_id = cve_id, kv_vendor_project = field_str fr kvs ''vendorProject'' '''',
              kv_product = field_str fr kvs ''product'' '''',
              kv_vulnerability_name = field_str fr kvs ''vulnerabilityName'' '''',
              kv_date_added = field_str fr kvs ''dateAdded'' '''', kv_due_date = field_str fr kvs ''dueDate'' '''',
              kv_known_ransomware_use = (py_lower (field_str fr kvs ''knownRansomwareCampaignUse'' '''') = ''known''),
              kv_required_action = field_str fr kvs ''requiredAction'' ''''\<rparr>))
      | _ \<Rightarrow> None)"

definition add_entry :: "kev_entry option \<Rightarrow> (py_str \<times> kev_entry) list \<Rightarrow> (py_str \<times> kev_entry) list" where
  "add_entry e known = (case e of None \<Rightarrow> known | Some x \<Rightarrow> dict_set known (kv_cve_id x) x)"

definition parse_catalog :: "(rat \<Rightarrow> py_str) \<Rightarrow> (py_str \<Rightarrow> py_str) \<Rightarrow> json \<Rightarrow> kev_catalog option" where
  "parse_catalog fr upper payload =
     (case payload of
        JObj kvs \<Rightarrow>
          (case py_iter (dict_get kvs ''vulnerabilities'' (JList [])) of
             None \<Rightarrow> None
           | Some items \<Rightarrow>
               (case map_option_list (parse_entry fr upper) items of
                  None \<Rightarrow> None
                | Some es \<Rightarrow> Some \<lparr>kc_version = field_str fr kvs ''catalogVersion'' ''unknown'',
                    kc_released = field_str fr kvs ''dateReleased'' '''', kc_entries = fold add_entry es []\<rparr>))
      | _ \<Rightarrow> None)"

definition serialize_entry :: "kev_entry \<Rightarrow> json" where
  "serialize_entry e = JObj
     [(''cveID'', JStr (kv_cve_id e)), (''vendorProject'', JStr (kv_vendor_project e)),
      (''product'', JStr (kv_product e)), (''vulnerabilityName'', JStr (kv_vulnerability_name e)),
      (''dateAdded'', JStr (kv_date_added e)), (''dueDate'', JStr (kv_due_date e)),
      (''knownRansomwareCampaignUse'', JStr (if kv_known_ransomware_use e then ''Known'' else ''Unknown'')),
      (''requiredAction'', JStr (kv_required_action e))]"

definition serialize_catalog :: "kev_catalog \<Rightarrow> json" where
  "serialize_catalog c = JObj
     [(''catalogVersion'', JStr (kc_version c)), (''dateReleased'', JStr (kc_released c)),
      (''vulnerabilities'', JList (map (serialize_entry \<circ> snd) (kc_entries c)))]"

definition fetch_catalog :: "outbound_env \<Rightarrow> (rat \<Rightarrow> py_str) \<Rightarrow> (py_str \<Rightarrow> py_str) \<Rightarrow> gateway \<Rightarrow> outbound_world \<Rightarrow>
    ((provider_exn + kev_catalog option) \<times> outbound_world) option" where
  "fetch_catalog env fr upper gw w =
     (case get_json env gw KEV_URL [] w of
        None \<Rightarrow> None
      | Some (Inl e, w1) \<Rightarrow> Some (Inl e, w1)
      | Some (Inr response, w1) \<Rightarrow> Some (Inr (parse_catalog fr upper (pr_payload response)), w1))"

section \<open>The catalog comes back from the cache\<close>

definition catalog_ok :: "(py_str \<Rightarrow> py_str) \<Rightarrow> (py_str \<times> kev_entry) list \<Rightarrow> bool" where
  "catalog_ok upper es \<longleftrightarrow> distinct (map fst es)
     \<and> list_all (\<lambda>(k, e). kv_cve_id e = k \<and> k \<noteq> [] \<and> upper k = k) es"

lemma parse_entry_id:
  "parse_entry fr upper item = Some (Some e) \<Longrightarrow> kv_cve_id e \<noteq> [] \<and> (\<exists>s. kv_cve_id e = upper s)"
  by (auto simp: parse_entry_def Let_def split: json.splits if_splits)

lemma add_entry_ok:
  assumes "catalog_ok upper es"
    and "case e of None \<Rightarrow> True | Some x \<Rightarrow> kv_cve_id x \<noteq> [] \<and> upper (kv_cve_id x) = kv_cve_id x"
  shows "catalog_ok upper (add_entry e es)"
proof (cases e)
  case (Some x)
  have "list_all (\<lambda>(k, e). kv_cve_id e = k \<and> k \<noteq> [] \<and> upper k = k) (AList.update (kv_cve_id x) x es)"
    using assms Some unfolding catalog_ok_def by (induction es) auto
  then show ?thesis using assms(1) Some by (simp add: catalog_ok_def add_entry_def distinct_update)
qed (use assms in \<open>simp add: add_entry_def\<close>)

lemma fold_add_entry_ok:
  "catalog_ok upper es \<Longrightarrow>
     \<forall>e \<in> set xs. case e of None \<Rightarrow> True | Some x \<Rightarrow> kv_cve_id x \<noteq> [] \<and> upper (kv_cve_id x) = kv_cve_id x \<Longrightarrow>
     catalog_ok upper (fold add_entry xs es)"
  by (induction xs arbitrary: es) (auto intro: add_entry_ok)

lemma parse_catalog_ok:
  assumes "parse_catalog fr upper payload = Some c" and "\<And>s. upper (upper s) = upper s"
  shows "catalog_ok upper (kc_entries c)"
proof -
  obtain items es where "map_option_list (parse_entry fr upper) items = Some es"
    and c: "kc_entries c = fold add_entry es []"
    using assms(1) by (auto simp: parse_catalog_def split: json.splits option.splits)
  then have "\<forall>e \<in> set es. \<exists>item. parse_entry fr upper item = Some e"
    by (auto simp: map_option_list_Some_iff list_all2_conv_all_nth in_set_conv_nth) blast
  then have "\<forall>e \<in> set es. case e of None \<Rightarrow> True | Some x \<Rightarrow> kv_cve_id x \<noteq> [] \<and> upper (kv_cve_id x) = kv_cve_id x"
    using parse_entry_id assms(2) by (fastforce split: option.splits)
  then show ?thesis unfolding c by (intro fold_add_entry_ok) (simp_all add: catalog_ok_def)
qed

lemma known_text: "py_lower ''Known'' = ''known''" "py_lower ''Unknown'' \<noteq> ''known''"
  by (simp_all add: py_lower_def py_lower_char_def char_of_eq_iff)

lemma parse_serialized_entry:
  assumes "kv_cve_id e \<noteq> []" and "upper (kv_cve_id e) = kv_cve_id e"
  shows "parse_entry fr upper (serialize_entry e) = Some (Some e)"
  using assms known_text by (simp add: parse_entry_def serialize_entry_def field_str_def dict_get_def)

lemma fold_add_serialized:
  "catalog_ok upper (acc @ es) \<Longrightarrow> fold add_entry (map (Some \<circ> snd) es) acc = acc @ es"
proof (induction es arbitrary: acc)
  case (Cons x es)
  obtain k e where x: "x = (k, e)" by (cases x)
  have "AList.update k e acc = acc @ [(k, e)]" if "k \<notin> fst ` set acc" for k :: py_str and e and acc
    using that by (induction acc) auto
  then have "add_entry (Some e) acc = acc @ [x]"
    using Cons.prems by (auto simp: add_entry_def catalog_ok_def x)
  then show ?case using Cons x by simp
qed simp

text \<open>C33. The catalog survives the cache.  Whatever the feed sent, if the code could read it then the
  shrunk form it stores is read back to exactly the same catalog: the same version, entries, order
  and ransomware flags, with lookups by identifier unchanged.\<close>

theorem kev_cache_round_trip:
  assumes "parse_catalog fr upper payload = Some c" and "\<And>s. upper (upper s) = upper s"
  shows "parse_catalog fr upper (serialize_catalog c) = Some c"
proof -
  have ok: "catalog_ok upper (kc_entries c)" by (rule parse_catalog_ok [OF assms])
  then have "list_all2 (\<lambda>x y. parse_entry fr upper x = Some y) (map (serialize_entry \<circ> snd) (kc_entries c))
      (map (Some \<circ> snd) (kc_entries c))"
    using parse_serialized_entry
    by (fastforce simp: list_all2_map1 list_all2_map2 list.rel_refl_strong catalog_ok_def list_all_iff
        intro!: list.rel_refl_strong)
  then have "map_option_list (parse_entry fr upper) (map (serialize_entry \<circ> snd) (kc_entries c))
      = Some (map (Some \<circ> snd) (kc_entries c))"
    by (simp add: map_option_list_Some_iff)
  then show ?thesis
    using fold_add_serialized [of upper "[]"] ok
    by (simp add: parse_catalog_def serialize_catalog_def dict_get_def field_str_def)
qed

definition lab_feed :: json where
  "lab_feed = JObj [(''catalogVersion'', JStr ''2026.09.16''), (''count'', JInt 2), (''vulnerabilities'', JList
     [JObj [(''cveID'', JStr ''CVE-2021-1''), (''product'', JStr ''x''), (''forensicTriage'', JBool True),
        (''knownRansomwareCampaignUse'', JStr ''Known'')],
      JObj [(''vendorProject'', JStr ''none'')]])]"

definition ascii_upper :: "py_str \<Rightarrow> py_str" where
  "ascii_upper s = map (\<lambda>c. if 97 \<le> code c \<and> code c \<le> 122 then char_of (code c - 32) else c) s"

lemma ascii_upper_twice: "ascii_upper (ascii_upper s) = ascii_upper s"
  by (induction s) (auto simp: ascii_upper_def)

lemma kev_cache_round_trip_witness:
  "parse_catalog (\<lambda>_. []) ascii_upper (serialize_catalog (the (parse_catalog (\<lambda>_. []) ascii_upper lab_feed)))
     = parse_catalog (\<lambda>_. []) ascii_upper lab_feed
   \<and> kev_count (the (parse_catalog (\<lambda>_. []) ascii_upper lab_feed)) = 1"
proof -
  have "kev_count c = 1" if "parse_catalog (\<lambda>_. []) ascii_upper lab_feed = Some c" for c
    using that by (auto simp: lab_feed_def parse_catalog_def parse_entry_def field_str_def dict_get_def Let_def
        ascii_upper_def add_entry_def kev_count_def)
  moreover have "parse_catalog (\<lambda>_. []) ascii_upper lab_feed \<noteq> None"
    by (simp add: lab_feed_def parse_catalog_def parse_entry_def field_str_def dict_get_def Let_def)
  ultimately show ?thesis using kev_cache_round_trip [OF _ ascii_upper_twice] by fastforce
qed

section \<open>The CVE records of the NVD\<close>

definition NVD_CVE_URL :: py_str where "NVD_CVE_URL = ''https://'' @ NVD_HOST @ ''/rest/json/cves/2.0''"
definition MAX_RESULTS_PER_PAGE :: nat where "MAX_RESULTS_PER_PAGE = 50"

definition METRIC_KEYS :: "py_str list" where
  "METRIC_KEYS = [''cvssMetricV40'', ''cvssMetricV31'', ''cvssMetricV30'', ''cvssMetricV2'']"

definition UNENRICHED_STATUSES :: "py_str list" where
  "UNENRICHED_STATUSES = [''Awaiting Analysis'', ''Received'', ''Deferred'', ''Undergoing Analysis'']"

text \<open>The fields the code copies without looking at them keep the JSON value.\<close>

record cve_record =
  cv_cve_id :: json
  cv_description :: json
  cv_vuln_status :: json
  cv_cvss_score :: "json option"
  cv_cvss_severity :: "py_str option"
  cv_cvss_version :: "py_str option"
  cv_has_cpe_configuration :: bool

definition enrichment_missing :: "cve_record \<Rightarrow> bool" where
  "enrichment_missing r \<longleftrightarrow> cv_cvss_score r = None \<or> \<not> cv_has_cpe_configuration r
     \<or> (if py_truth (cv_vuln_status r) then cv_vuln_status r else JStr []) \<in> JStr ` set UNENRICHED_STATUSES"

text \<open>\<open>value or {}\<close>.\<close>

definition or_empty :: "json \<Rightarrow> json" where
  "or_empty v = (if py_truth v then v else JObj [])"

text \<open>
  \<open>float(score)\<close> of what is an \<open>int\<close> or a \<open>float\<close>, booleans included; \<open>to_float\<close> is the rounding of
  an integer, which raises for a very large one.  The outer \<open>None\<close> is that exception.
\<close>

fun score_of :: "(int \<Rightarrow> rat option) \<Rightarrow> json \<Rightarrow> json option option" where
  "score_of to_float (JInt i) = (case to_float i of None \<Rightarrow> None | Some r \<Rightarrow> Some (Some (JFloat r)))"
| "score_of to_float (JBool b) = Some (Some (JFloat (of_bool b)))"
| "score_of to_float (JFloat r) = Some (Some (JFloat r))"
| "score_of to_float (JInfinity b) = Some (Some (JInfinity b))"
| "score_of to_float JNaN = Some (Some JNaN)"
| "score_of to_float _ = Some None"

fun first_metric :: "(rat \<Rightarrow> py_str) \<Rightarrow> (int \<Rightarrow> rat option) \<Rightarrow> json \<Rightarrow> py_str list \<Rightarrow>
    (json option \<times> py_str option \<times> py_str option) option" where
  "first_metric fr to_float metrics [] = Some (None, None, None)"
| "first_metric fr to_float metrics (key # keys) =
     (case get_field metrics key JNull of
        None \<Rightarrow> None
      | Some found \<Rightarrow>
          if \<not> py_truth found then first_metric fr to_float metrics keys
          else (case first_item found of
                  None \<Rightarrow> None
                | Some metric \<Rightarrow>
                    (case (get_field metric ''cvssData'' (JObj []), get_field metric ''baseSeverity'' JNull) of
                       (Some data, Some outer) \<Rightarrow>
                         (case (get_field data ''baseScore'' JNull, get_field data ''baseSeverity'' JNull) of
                            (Some score, Some inner) \<Rightarrow>
                              (let severity = (if py_truth inner then inner else outer) in
                               case score_of to_float score of
                                 None \<Rightarrow> None
                               | Some s \<Rightarrow> Some (s, if py_truth severity then Some (json_str fr severity) else None,
                                   Some key))
                          | _ \<Rightarrow> None)
                     | _ \<Rightarrow> None)))"

text \<open>The first English description; the loop breaks there.\<close>

fun first_english :: "json list \<Rightarrow> json option" where
  "first_english [] = Some (JStr [])"
| "first_english (entry # rest) =
     (case get_field entry ''lang'' JNull of
        None \<Rightarrow> None
      | Some lang \<Rightarrow> if lang = JStr ''en'' then get_field entry ''value'' (JStr []) else first_english rest)"

definition cve_of :: "json \<Rightarrow> json option" where
  "cve_of item = map_option or_empty (get_field item ''cve'' JNull)"

text \<open>One item: skipped without an identifier or when rejected.\<close>

definition parse_cve :: "(rat \<Rightarrow> py_str) \<Rightarrow> (int \<Rightarrow> rat option) \<Rightarrow> json \<Rightarrow> cve_record option option" where
  "parse_cve fr to_float item =
     (case cve_of item of
        Some (JObj kvs) \<Rightarrow>
          (let cve_id = dict_get kvs ''id'' JNull; status = dict_get kvs ''vulnStatus'' JNull in
           if \<not> py_truth cve_id \<or> status = JStr ''Rejected'' then Some None
           else (case py_iter (dict_get kvs ''descriptions'' (JList [])) of
                   None \<Rightarrow> None
                 | Some descriptions \<Rightarrow>
                     (case (first_english descriptions,
                            first_metric fr to_float (or_empty (dict_get kvs ''metrics'' JNull)) METRIC_KEYS) of
                        (Some description, Some (score, severity, metric_key)) \<Rightarrow>
                          Some (Some \<lparr>cv_cve_id = cve_id, cv_description = description, cv_vuln_status = status,
                            cv_cvss_score = score, cv_cvss_severity = severity, cv_cvss_version = metric_key,
                            cv_has_cpe_configuration = py_truth (dict_get kvs ''configurations'' JNull)\<rparr>)
                      | _ \<Rightarrow> None)))
      | _ \<Rightarrow> None)"

definition present :: "'a option list \<Rightarrow> 'a list" where
  "present xs = map the (filter (\<lambda>x. x \<noteq> None) xs)"

definition parse_cve_payload :: "(rat \<Rightarrow> py_str) \<Rightarrow> (int \<Rightarrow> rat option) \<Rightarrow> json \<Rightarrow> (cve_record list \<times> int) option" where
  "parse_cve_payload fr to_float payload =
     (case payload of
        JObj kvs \<Rightarrow>
          (case py_iter (dict_get kvs ''vulnerabilities'' (JList [])) of
             None \<Rightarrow> None
           | Some items \<Rightarrow>
               (case map_option_list (parse_cve fr to_float) items of
                  None \<Rightarrow> None
                | Some found \<Rightarrow>
                    (case py_int (dict_get kvs ''totalResults'' (JInt (int (length (present found))))) of
                       Inl _ \<Rightarrow> None
                     | Inr count_all \<Rightarrow> Some (present found, count_all))))
      | _ \<Rightarrow> None)"

record nvd_result =
  nr_records :: "cve_record list"
  nr_total_results :: int
  nr_query_kind :: py_str
  nr_notes :: "py_str list"

definition no_cpe_note :: py_str where
  "no_cpe_note = ''NVD returned no CVE with a CPE configuration matching this exact ''
     @ ''product and version. Under NVD's 2026 risk-based enrichment model ''
     @ ''most recent CVEs carry no CPE data at all, so this is not evidence ''
     @ ''that the service is unaffected.''"

definition keyword_note :: "py_str \<Rightarrow> py_str" where
  "keyword_note product = ''Matched on the product name '' @ py_repr product @ '' only, not on the detected ''
     @ ''version, because no curated CPE exists for this product. These are ''
     @ ''candidates to review, not version-matched results.''"

definition nvd_query :: "outbound_env \<Rightarrow> (rat \<Rightarrow> py_str) \<Rightarrow> (int \<Rightarrow> rat option) \<Rightarrow> gateway \<Rightarrow> (py_str \<times> py_str) \<Rightarrow>
    (cve_record list \<Rightarrow> int \<Rightarrow> nvd_result) \<Rightarrow> outbound_world \<Rightarrow>
    ((provider_exn + nvd_result option) \<times> outbound_world) option" where
  "nvd_query env fr to_float gw key result w =
     (case get_json env gw NVD_CVE_URL [key, (''resultsPerPage'', str_of_nat MAX_RESULTS_PER_PAGE)] w of
        None \<Rightarrow> None
      | Some (Inl e, w1) \<Rightarrow> Some (Inl e, w1)
      | Some (Inr response, w1) \<Rightarrow>
          Some (Inr (case parse_cve_payload fr to_float (pr_payload response) of
                       None \<Rightarrow> None
                     | Some (records, count_all) \<Rightarrow> Some (result records count_all)), w1))"

definition by_cpe :: "outbound_env \<Rightarrow> (rat \<Rightarrow> py_str) \<Rightarrow> (int \<Rightarrow> rat option) \<Rightarrow> gateway \<Rightarrow> py_str \<Rightarrow> outbound_world \<Rightarrow>
    ((provider_exn + nvd_result option) \<times> outbound_world) option" where
  "by_cpe env fr to_float gw cpe_name = nvd_query env fr to_float gw (''cpeName'', cpe_name)
     (\<lambda>records count_all. \<lparr>nr_records = records, nr_total_results = count_all, nr_query_kind = ''cpe'',
        nr_notes = (if count_all = 0 then [no_cpe_note] else [])\<rparr>)"

definition by_keyword :: "outbound_env \<Rightarrow> (rat \<Rightarrow> py_str) \<Rightarrow> (int \<Rightarrow> rat option) \<Rightarrow> gateway \<Rightarrow> py_str \<Rightarrow> outbound_world \<Rightarrow>
    ((provider_exn + nvd_result option) \<times> outbound_world) option" where
  "by_keyword env fr to_float gw product = nvd_query env fr to_float gw (''keywordSearch'', product)
     (\<lambda>records count_all. \<lparr>nr_records = records, nr_total_results = count_all, nr_query_kind = ''keyword'',
        nr_notes = [keyword_note product]\<rparr>)"

section \<open>What the providers learn, and what the program believes\<close>

text \<open>C24. The providers learn product names only.  Whatever a lookup by CPE name, a lookup by
  keyword or a fetch of the catalog meets, everything it sends is at most four copies of one request:
  to the NVD with the name and the page size as its only parameters, or to the catalog with none.\<close>

theorem providers_learn_products_only:
  assumes "map_option snd (by_cpe env fr to_float gw name w) = Some w'
    \<or> map_option snd (by_keyword env fr to_float gw name w) = Some w'
    \<or> map_option snd (fetch_catalog env fr upper gw w) = Some w'"
  shows "\<exists>k url params. k \<le> MAX_ATTEMPTS
    \<and> ow_requests w' = ow_requests w @ replicate k (request_of env gw url params)
    \<and> (url, params) \<in> {(NVD_CVE_URL, [(''cpeName'', name), (''resultsPerPage'', ''50'')]),
        (NVD_CVE_URL, [(''keywordSearch'', name), (''resultsPerPage'', ''50'')]), (KEV_URL, [])}"
proof -
  have page: "str_of_nat MAX_RESULTS_PER_PAGE = ''50''"
    by (simp add: MAX_RESULTS_PER_PAGE_def str_of_nat.simps digit_char_def char_of_eq_iff)
  have sent: "\<exists>k \<le> MAX_ATTEMPTS. ow_requests w' = ow_requests w @ replicate k (request_of env gw url params)"
    if "map_option snd (get_json env gw url params w) = Some w'" for url params
  proof -
    from that obtain r where "get_json env gw url params w = Some (r, w')" by (auto simp: map_option_case split: option.splits)
    then show ?thesis by (rule get_json_requests)
  qed
  have nvd: "map_option snd (nvd_query env fr to_float gw key result w)
      = map_option snd (get_json env gw NVD_CVE_URL [key, (''resultsPerPage'', ''50'')] w)" for key result
    by (auto simp: nvd_query_def page split: option.splits sum.splits)
  have kev: "map_option snd (fetch_catalog env fr upper gw w) = map_option snd (get_json env gw KEV_URL [] w)"
    by (auto simp: fetch_catalog_def split: option.splits sum.splits)
  show ?thesis
    using assms sent unfolding by_cpe_def by_keyword_def nvd kev by blast
qed

lemma kev_url_eq: "KEV_URL = kev_url"
  by (simp add: KEV_URL_def KEV_HOST_def kev_url_def)

lemma providers_learn_products_only_witness:
  "\<exists>k url params. ow_requests (snd (the (fetch_catalog (prompt_env lab_feed) (\<lambda>_. []) ascii_upper keyed (fresh_outbound keyed))))
     = replicate k (request_of (prompt_env lab_feed) keyed url params) \<and> k \<le> MAX_ATTEMPTS"
proof -
  obtain w' where "get_json (prompt_env lab_feed) keyed KEV_URL [] (fresh_outbound keyed)
      = Some (Inr \<lparr>pr_status = 200, pr_payload = lab_feed\<rparr>, w')"
    using kev_prompt kev_url_eq by metis
  then have f: "map_option snd (fetch_catalog (prompt_env lab_feed) (\<lambda>_. []) ascii_upper keyed (fresh_outbound keyed)) = Some w'"
    by (simp add: fetch_catalog_def)
  then have "snd (the (fetch_catalog (prompt_env lab_feed) (\<lambda>_. []) ascii_upper keyed (fresh_outbound keyed))) = w'"
    by auto
  moreover have "ow_requests (fresh_outbound keyed) = []" by (simp add: fresh_outbound_def)
  ultimately show ?thesis
    using providers_learn_products_only [OF disjI2 [OF disjI2 [OF f]]] by fastforce
qed

definition cve_field :: "json \<Rightarrow> py_str \<Rightarrow> json" where
  "cve_field item k = (case cve_of item of Some (JObj kvs) \<Rightarrow> dict_get kvs k JNull | _ \<Rightarrow> JNull)"

definition reported :: "json \<Rightarrow> bool" where
  "reported item \<longleftrightarrow> py_truth (cve_field item ''id'') \<and> cve_field item ''vulnStatus'' \<noteq> JStr ''Rejected''"

text \<open>The score a reader would expect: the newest scoring system the record has, or none at all.\<close>

definition metric_of :: "json \<Rightarrow> py_str option" where
  "metric_of item = (case or_empty (cve_field item ''metrics'') of
     JObj ms \<Rightarrow> find (\<lambda>k. py_truth (dict_get ms k JNull)) METRIC_KEYS | _ \<Rightarrow> None)"

lemma first_metric_key:
  "first_metric fr to_float metrics keys = Some (s, sev, key) \<Longrightarrow>
     key = (case metrics of JObj ms \<Rightarrow> find (\<lambda>k. py_truth (dict_get ms k JNull)) keys | _ \<Rightarrow> None)
     \<and> (key = None \<longrightarrow> s = None \<and> sev = None)"
proof (induction keys)
  case (Cons k keys)
  then obtain ms where m: "metrics = JObj ms" by (cases metrics) auto
  show ?case
  proof (cases "py_truth (dict_get ms k JNull)")
    case True
    with Cons.prems m have "key = Some k" by (auto simp: Let_def split: option.splits)
    then show ?thesis using True m by simp
  next
    case False
    with Cons m show ?thesis by simp
  qed
qed (auto split: json.splits)

definition record_of :: "json \<Rightarrow> cve_record \<Rightarrow> bool" where
  "record_of item r \<longleftrightarrow> cv_cve_id r = cve_field item ''id'' \<and> cv_vuln_status r = cve_field item ''vulnStatus''
     \<and> cv_has_cpe_configuration r = py_truth (cve_field item ''configurations'')
     \<and> cv_cvss_version r = metric_of item \<and> (metric_of item = None \<longrightarrow> cv_cvss_score r = None \<and> cv_cvss_severity r = None)"

lemma parse_cve_record:
  assumes "parse_cve fr to_float item = Some found"
  shows "case found of None \<Rightarrow> \<not> reported item | Some r \<Rightarrow> reported item \<and> record_of item r"
proof -
  obtain kvs where c: "cve_of item = Some (JObj kvs)"
    using assms by (auto simp: parse_cve_def split: option.splits json.splits)
  show ?thesis
  proof (cases found)
    case None
    then show ?thesis using assms c
      by (auto simp: parse_cve_def reported_def cve_field_def Let_def split: if_splits option.splits)
  next
    case (Some r)
    then obtain s sev key where m: "first_metric fr to_float (or_empty (dict_get kvs ''metrics'' JNull)) METRIC_KEYS
        = Some (s, sev, key)"
      and r: "cv_cve_id r = dict_get kvs ''id'' JNull" "cv_vuln_status r = dict_get kvs ''vulnStatus'' JNull"
        "cv_has_cpe_configuration r = py_truth (dict_get kvs ''configurations'' JNull)"
        "cv_cvss_version r = key" "cv_cvss_score r = s" "cv_cvss_severity r = sev"
      and k: "py_truth (dict_get kvs ''id'' JNull)" "dict_get kvs ''vulnStatus'' JNull \<noteq> JStr ''Rejected''"
      using assms c by (auto simp: parse_cve_def Let_def split: if_splits option.splits)
    from first_metric_key [OF m] r k show ?thesis
      by (simp add: Some reported_def record_of_def metric_of_def cve_field_def c)
  qed
qed


definition lab_cves :: "(py_str \<times> json) list" where
  "lab_cves = [(''totalResults'', JInt 2), (''vulnerabilities'', JList
     [JObj [(''cve'', JObj [(''id'', JStr ''CVE-1''), (''vulnStatus'', JStr ''Rejected'')])],
      JObj [(''cve'', JObj [(''id'', JStr ''CVE-2''), (''vulnStatus'', JStr ''Deferred''),
        (''descriptions'', JList [JObj [(''lang'', JStr ''en''), (''value'', JStr ''x'')]])])]])]"


end
