(* ===== verification/Reports.thy ===== *)
theory Reports
  imports Api "HOL-Library.Multiset"
begin

text \<open>
  \<open>backend/app/services/reports.py\<close> and the export route of \<open>api/findings.py\<close>: the JSON and the
  Markdown export of a stored scan.  \<open>isof\<close> is \<open>datetime.isoformat\<close> of an instant in UTC; \<open>now\<close> is
  the instant of the export.
\<close>

definition EXPORT_SCHEMA_VERSION :: int where "EXPORT_SCHEMA_VERSION = 1"
definition SUMMARY_ROWS_PER_CATEGORY :: nat where "SUMMARY_ROWS_PER_CATEGORY = 20"

fun CATEGORY_TITLES :: "finding_category \<Rightarrow> py_str" where
  "CATEGORY_TITLES FindLiveHost = ''Live hosts''"
| "CATEGORY_TITLES FindPortService = ''Ports and services''"
| "CATEGORY_TITLES FindEnumeration = ''Enumeration''"
| "CATEGORY_TITLES FindVulnerability = ''Vulnerabilities''"

text \<open>\<open>for category in FindingCategory\<close>.\<close>

definition finding_categories :: "finding_category list" where
  "finding_categories = [FindLiveHost, FindPortService, FindEnumeration, FindVulnerability]"

text \<open>\<open>_iso\<close>.\<close>

definition iso_of :: "(int \<Rightarrow> py_str) \<Rightarrow> int option \<Rightarrow> py_str option" where
  "iso_of isof moment = map_option isof moment"

definition or_null :: "('a \<Rightarrow> json) \<Rightarrow> 'a option \<Rightarrow> json" where
  "or_null f x = (case x of None \<Rightarrow> JNull | Some v \<Rightarrow> f v)"

section \<open>The JSON export\<close>

definition scan_json :: "(int \<Rightarrow> py_str) \<Rightarrow> scan_row \<Rightarrow> json" where
  "scan_json isof s = JObj
     [(''id'', JStr (sc_id s)), (''status'', JStr (scan_status_str (sc_status s))),
      (''target_input'', JStr (sc_target_input s)), (''target_normalized'', JStr (sc_target_normalized s)),
      (''target_type'', JStr (target_type_str (sc_target_type s))),
      (''resolved_addresses'', JList (map JStr (sc_resolved_addrs s))),
      (''intensity_profile'', JStr (sc_intensity_profile s)), (''module_options'', JObj (sc_module_options s)),
      (''note'', or_null JStr (sc_note s)), (''created_at'', JStr (isof (sc_created_at s))),
      (''started_at'', or_null JStr (iso_of isof (sc_started_at s))),
      (''finished_at'', or_null JStr (iso_of isof (sc_finished_at s)))]"

definition scope_json :: "scope_row \<Rightarrow> json" where
  "scope_json p = JObj
     [(''id'', JStr (sr_id p)), (''name'', JStr (sr_name p)), (''entries'', JList (map JStr (sr_entries p))),
      (''allow_cgnat'', JBool (sr_allow_cgnat p)), (''allow_link_local'', JBool (sr_allow_link_local p))]"

definition authorization_json :: "(int \<Rightarrow> py_str) \<Rightarrow> scan_row \<Rightarrow> json" where
  "authorization_json isof s = JObj
     [(''attestation_text'', JStr (sc_attestation_text s)), (''attestation_version'', JStr (sc_attestation_version s)),
      (''attested_at'', JStr (isof (sc_attestation_at s)))]"

definition run_json :: "(int \<Rightarrow> py_str) \<Rightarrow> run_row \<Rightarrow> json" where
  "run_json isof r = JObj
     [(''module'', JStr (rn_module r)), (''status'', JStr (module_status_str (rn_status r))),
      (''finding_count'', JInt (rn_finding_count r)), (''cache_hit'', JBool (rn_cache_hit r)),
      (''error_code'', or_null JStr (rn_error_code r)), (''error_message'', or_null JStr (rn_error_message r)),
      (''started_at'', or_null JStr (iso_of isof (rn_started_at r))),
      (''finished_at'', or_null JStr (iso_of isof (rn_finished_at r)))]"

definition finding_json :: "(int \<Rightarrow> py_str) \<Rightarrow> finding_row \<Rightarrow> json" where
  "finding_json isof f = JObj
     [(''id'', JStr (fr_id f)), (''host'', JStr (fr_host f)), (''port'', or_null JInt (fr_port f)),
      (''category'', JStr (finding_category_str (fr_category f))), (''kind'', JStr (fr_kind f)),
      (''title'', JStr (fr_title f)), (''summary'', JStr (fr_summary f)),
      (''normalized_value'', JObj (fr_normalized_value f)), (''raw_evidence'', or_null JStr (fr_raw_evidence f)),
      (''module'', JStr (fr_module f)), (''observed_at'', JStr (isof (fr_observed_at f))),
      (''confidence'', or_null (JStr \<circ> confidence_str) (fr_confidence f)),
      (''sources'', JList (map JStr (fr_sources f))), (''fingerprint'', JStr (fr_fingerprint f))]"

definition entry_json :: "(int \<Rightarrow> py_str) \<Rightarrow> ledger_row \<Rightarrow> json" where
  "entry_json isof e = JObj
     [(''destination'', JStr (le_destination e)), (''port'', or_null JInt (le_port e)),
      (''module'', JStr (le_module e)), (''decision'', JStr (decision_str (le_decision e))),
      (''reason'', JStr (le_reason e)), (''outcome'', JStr (le_outcome e)),
      (''recorded_at'', JStr (isof (lr_created_at e)))]"

definition build_json_export :: "(int \<Rightarrow> py_str) \<Rightarrow> int \<Rightarrow> scan_row \<Rightarrow> scope_row \<Rightarrow> run_row list \<Rightarrow>
    finding_row list \<Rightarrow> ledger_row list \<Rightarrow> json_object" where
  "build_json_export isof now s p runs findings ledger =
     [(''schema_version'', JInt EXPORT_SCHEMA_VERSION), (''generated_at'', JStr (isof now)),
      (''scan'', scan_json isof s), (''scope'', scope_json p), (''authorization'', authorization_json isof s),
      (''modules'', JList (map (run_json isof) runs)), (''findings'', JList (map (finding_json isof) findings)),
      (''ledger'', JList (map (entry_json isof) ledger))]"

section \<open>The Markdown export\<close>

definition heading_lines :: "(int \<Rightarrow> py_str) \<Rightarrow> scan_row \<Rightarrow> scope_row \<Rightarrow> py_str list" where
  "heading_lines isof s p =
     [''# ScanLedger report - '' @ sc_target_normalized s,
      '''',
      ''> Authorized lab scan. Every destination below was inside the attested ''
        @ ''private scope profile; ScanLedger refuses any public or out-of-scope address.'',
      '''',
      ''## Scan'',
      '''',
      ''- **Status:** '' @ scan_status_str (sc_status s),
      ''- **Target:** `'' @ sc_target_input s @ ''` (normalized `'' @ sc_target_normalized s @ ''`, type ''
        @ target_type_str (sc_target_type s) @ '')'',
      ''- **Scope profile:** '' @ sr_name p @ '' - '' @ join '', '' (sr_entries p),
      ''- **Intensity profile:** '' @ sc_intensity_profile s,
      ''- **Created:** '' @ isof (sc_created_at s),
      ''- **Finished:** '' @ (case iso_of isof (sc_finished_at s) of Some t \<Rightarrow> t | None \<Rightarrow> ''not finished'')]
     @ (case sc_note s of None \<Rightarrow> [] | Some n \<Rightarrow> if n = [] then [] else [''- **Engagement note:** '' @ n])"

definition authorization_lines :: "(int \<Rightarrow> py_str) \<Rightarrow> scan_row \<Rightarrow> py_str list" where
  "authorization_lines isof s =
     ['''',
      ''## Authorization'',
      '''',
      ''> '' @ sc_attestation_text s,
      '''',
      ''Attested '' @ isof (sc_attestation_at s) @ '' (attestation '' @ sc_attestation_version s @ '').'',
      '''',
      ''## Methodology and limits'',
      '''',
      ''- Unprivileged TCP connect probing only. No raw sockets, no SYN scanning, ''
        @ ''no exploitation, no credential attacks, and nothing was written to a target.'',
      ''- Concurrency and connection rate were bounded by the intensity governor.'',
      ''- A skipped, failed, or interrupted module means *unknown*, never *absent*: ''
        @ ''it cannot be read as a closed port or as the absence of a finding.'']"

definition run_line :: "run_row \<Rightarrow> py_str" where
  "run_line r = ''| '' @ rn_module r @ '' | '' @ module_status_str (rn_status r) @ '' | ''
     @ str_of_int (rn_finding_count r) @ '' | '' @ (case rn_error_message r of Some m \<Rightarrow> m | None \<Rightarrow> '''') @ '' |''"

definition incomplete_modules :: "run_row list \<Rightarrow> py_str list" where
  "incomplete_modules runs = map rn_module (filter (\<lambda>r. rn_status r \<noteq> ModDone) runs)"

definition incomplete_line :: "py_str list \<Rightarrow> py_str" where
  "incomplete_line names = ''**'' @ str_of_nat (length names) @ '' module(s) did not complete:** ''
     @ join '', '' names @ ''. Their categories below are incomplete, not empty.''"

definition module_lines :: "run_row list \<Rightarrow> py_str list" where
  "module_lines runs =
     ['''', ''## Module status'', '''', ''| Module | Status | Findings | Reason |'', ''| --- | --- | --- | --- |'']
     @ map run_line runs
     @ (if incomplete_modules runs = [] then [] else ['''', incomplete_line (incomplete_modules runs)])"

definition finding_line :: "(int \<Rightarrow> py_str) \<Rightarrow> finding_row \<Rightarrow> py_str" where
  "finding_line isof f = ''| '' @ fr_host f @ '' | '' @ (case fr_port f of None \<Rightarrow> '''' | Some p \<Rightarrow> str_of_int p) @ '' | ''
     @ fr_title f @ '' | '' @ fr_module f @ '' | '' @ isof (fr_observed_at f) @ '' |''"

definition no_findings_line :: py_str where
  "no_findings_line = ''No findings in this category.''"

definition omitted_line :: "nat \<Rightarrow> py_str" where
  "omitted_line n = ''_'' @ str_of_nat n @ '' further row(s) omitted from this summary; ''
     @ ''the JSON export carries the complete record._''"

definition category_lines :: "(int \<Rightarrow> py_str) \<Rightarrow> bool \<Rightarrow> finding_row list \<Rightarrow> finding_category \<Rightarrow> py_str list" where
  "category_lines isof full findings c =
     (let rows = filter (\<lambda>f. fr_category f = c) findings;
          shown = (if full then rows else take SUMMARY_ROWS_PER_CATEGORY rows)
      in [''### '' @ CATEGORY_TITLES c, '''']
         @ (if rows = [] then [no_findings_line, '''']
            else [''| Host | Port | Finding | Module | Observed |'', ''| --- | --- | --- | --- | --- |'']
              @ map (finding_line isof) shown
              @ (if \<not> full \<and> length rows > length shown then ['''', omitted_line (length rows - length shown)] else [])
              @ ['''']))"

definition how_decided :: "decision \<Rightarrow> ledger_row list \<Rightarrow> nat" where
  "how_decided x ledger = length (filter (\<lambda>e. le_decision e = x) ledger)"

definition ledger_lines :: "ledger_row list \<Rightarrow> py_str list" where
  "ledger_lines ledger =
     [''## Audit ledger'',
      '''',
      ''- Destinations allowed and probed: **'' @ str_of_nat (how_decided Allowed ledger) @ ''**'',
      ''- Destinations denied before any packet: **'' @ str_of_nat (how_decided Denied ledger) @ ''**'',
      '''']
     @ (if how_decided Denied ledger = 0 then []
        else [''| Destination | Reason |'', ''| --- | --- |'']
          @ map (\<lambda>e. ''| '' @ le_destination e @ '' | '' @ le_reason e @ '' |'')
              (filter (\<lambda>e. le_decision e = Denied) ledger)
          @ [''''])"

definition markdown_lines :: "(int \<Rightarrow> py_str) \<Rightarrow> int \<Rightarrow> bool \<Rightarrow> scan_row \<Rightarrow> scope_row \<Rightarrow> run_row list \<Rightarrow>
    finding_row list \<Rightarrow> ledger_row list \<Rightarrow> py_str list" where
  "markdown_lines isof now full s p runs findings ledger =
     heading_lines isof s p @ authorization_lines isof s @ module_lines runs
     @ ['''', ''## Findings'', '''']
     @ concat (map (category_lines isof full findings) finding_categories)
     @ ledger_lines ledger
     @ [''_Generated '' @ isof now @ '' from stored evidence; no probes were sent._'']"

definition build_markdown_export :: "(int \<Rightarrow> py_str) \<Rightarrow> int \<Rightarrow> bool \<Rightarrow> scan_row \<Rightarrow> scope_row \<Rightarrow> run_row list \<Rightarrow>
    finding_row list \<Rightarrow> ledger_row list \<Rightarrow> py_str" where
  "build_markdown_export isof now full s p runs findings ledger =
     join [CHR 0x0A] (markdown_lines isof now full s p runs findings ledger)"

section \<open>The export route\<close>

record export_inputs =
  xi_scan :: scan_row
  xi_scope :: scope_row
  xi_runs :: "run_row list"
  xi_findings :: "finding_row list"
  xi_ledger :: "ledger_row list"

definition scope_gone :: app_error where
  "scope_gone = app_error ScanNotFoundError ''the scope profile for this scan no longer exists''"

definition load_export_inputs :: "py_str \<Rightarrow> database \<Rightarrow> app_error + export_inputs" where
  "load_export_inputs scan_id d =
     (case get_scan d scan_id of
        None \<Rightarrow> Inl (scan_missing scan_id)
      | Some s \<Rightarrow>
          (case get_scope d (sc_scope_id s) of
             None \<Rightarrow> Inl scope_gone
           | Some p \<Rightarrow>
               Inr \<lparr>xi_scan = s, xi_scope = p,
                 xi_runs = sort_key rn_module (runs_of d scan_id),
                 xi_findings = sort_key (\<lambda>f. finding_category_str (fr_category f)) (sort_key fr_host (sort_key fr_port
                   (filter (\<lambda>f. fr_scan_id f = scan_id) (db_findings d)))),
                 xi_ledger = sort_key lr_created_at (sort_key lr_id
                   (filter (\<lambda>e. lr_scan_id e = Some scan_id) (db_ledger d)))\<rparr>))"

datatype export_body = ExportJson json_object | ExportMarkdown py_str

definition export_scan :: "(int \<Rightarrow> py_str) \<Rightarrow> py_str \<Rightarrow> py_str \<Rightarrow> py_str \<Rightarrow> database \<Rightarrow> app_error + export_body" where
  "export_scan isof scan_id export_format mode d =
     (if export_format \<notin> {''json'', ''md''}
      then Inl (app_error TargetInvalidError
             (''unknown export format '' @ py_repr export_format @ ''; expected json or md''))
      else if mode \<notin> {''summary'', ''full''}
      then Inl (app_error TargetInvalidError (''unknown export mode '' @ py_repr mode @ ''; expected summary or full''))
      else (case load_export_inputs scan_id d of
              Inl e \<Rightarrow> Inl e
            | Inr x \<Rightarrow>
                Inr (if export_format = ''json''
                     then ExportJson (build_json_export isof (utcnow d) (xi_scan x) (xi_scope x) (xi_runs x)
                            (xi_findings x) (xi_ledger x))
                     else ExportMarkdown (build_markdown_export isof (utcnow d) (mode = ''full'') (xi_scan x)
                            (xi_scope x) (xi_runs x) (xi_findings x) (xi_ledger x)))))"

section \<open>What an export carries\<close>

text \<open>The list under a key of an export.\<close>

definition items_of :: "json_object \<Rightarrow> py_str \<Rightarrow> json list" where
  "items_of j k = (case dict_get j k JNull of JList xs \<Rightarrow> xs | _ \<Rightarrow> [])"

text \<open>C26. The JSON export is the whole record.  For a stored scan with its scope profile it carries
  every finding, every module run and every ledger row of the scan, each as often as it is stored and
  none of another scan, in whatever order; exporting reads the database and nothing else.\<close>

theorem export_is_complete:
  assumes "export_scan isof scan_id ''json'' mode d = Inr body"
  shows "\<exists>j. body = ExportJson j
    \<and> mset (items_of j ''findings'') = image_mset (finding_json isof) {#f \<in># mset (db_findings d). fr_scan_id f = scan_id#}
    \<and> mset (items_of j ''modules'') = image_mset (run_json isof) {#r \<in># mset (db_runs d). rn_scan_id r = scan_id#}
    \<and> mset (items_of j ''ledger'') = image_mset (entry_json isof) {#e \<in># mset (db_ledger d). lr_scan_id e = Some scan_id#}"
proof -
  obtain x where x: "load_export_inputs scan_id d = Inr x"
    and b: "body = ExportJson (build_json_export isof (utcnow d) (xi_scan x) (xi_scope x) (xi_runs x)
      (xi_findings x) (xi_ledger x))"
    using assms by (auto simp: export_scan_def split: if_splits sum.splits)
  have "mset (xi_findings x) = {#f \<in># mset (db_findings d). fr_scan_id f = scan_id#}"
    "mset (xi_runs x) = {#r \<in># mset (db_runs d). rn_scan_id r = scan_id#}"
    "mset (xi_ledger x) = {#e \<in># mset (db_ledger d). lr_scan_id e = Some scan_id#}"
    using x by (auto simp: load_export_inputs_def runs_of_def mset_filter split: option.splits)
  then show ?thesis
    by (simp add: b items_of_def build_json_export_def dict_get_def)
qed

lemma export_is_complete_witness:
  "\<exists>j. export_scan (\<lambda>_. []) ''a'' ''json'' ''full'' (lab_db\<lparr>db_scans := [queued_scan ''a'' 10]\<rparr>) = Inr (ExportJson j)
     \<and> items_of j ''findings'' = []"
proof -
  let ?d = "lab_db\<lparr>db_scans := [queued_scan ''a'' 10]\<rparr>"
  obtain body where b: "export_scan (\<lambda>_. []) ''a'' ''json'' ''full'' ?d = Inr body"
    by (simp add: export_scan_def load_export_inputs_def get_scan_def get_scope_def queued_scan_def lab_db_def)
  moreover have "db_findings ?d = []" by (simp add: lab_db_def empty_db_def)
  ultimately show ?thesis using export_is_complete [OF b] by auto
qed

text \<open>C32. The Markdown report says what it leaves out.  In every category the full report has the
  line of every finding; a summary has the lines of the first twenty, and when there are more a line
  that counts the others exactly; the category is called empty only when it is; and when any module
  did not complete, a line names all of those.\<close>

theorem summary_omits_nothing_silently:
  shows "(\<forall>c. set (category_lines isof full findings c) \<subseteq> set (markdown_lines isof now full s p runs findings ledger))
    \<and> (let rows = filter (\<lambda>f. fr_category f = c) findings; lines = category_lines isof full findings c
       in list_all (\<lambda>f. finding_line isof f \<in> set lines) (if full then rows else take 20 rows)
          \<and> (full \<or> length rows \<le> 20 \<or> omitted_line (length rows - 20) \<in> set lines)
          \<and> (no_findings_line \<in> set lines \<longleftrightarrow> rows = []))
    \<and> (list_all (\<lambda>r. rn_status r = ModDone) runs
       \<or> incomplete_line (map rn_module (filter (\<lambda>r. rn_status r \<noteq> ModDone) runs))
           \<in> set (markdown_lines isof now full s p runs findings ledger))"
proof -
  have "set (category_lines isof full findings c) \<subseteq> set (markdown_lines isof now full s p runs findings ledger)" for c
    by (cases c) (auto simp: markdown_lines_def finding_categories_def)
  moreover have "\<not> (no_findings_line = finding_line isof f \<or> no_findings_line = omitted_line n)" for f n
    by (simp add: no_findings_line_def finding_line_def omitted_line_def)
  then have "no_findings_line \<in> set (category_lines isof full findings c) \<longleftrightarrow> filter (\<lambda>f. fr_category f = c) findings = []"
    by (cases c) (auto simp: category_lines_def Let_def no_findings_line_def)
  moreover have "list_all (\<lambda>f. finding_line isof f \<in> set (category_lines isof full findings c))
      (if full then filter (\<lambda>f. fr_category f = c) findings else take 20 (filter (\<lambda>f. fr_category f = c) findings))"
    by (auto simp: list_all_iff category_lines_def Let_def SUMMARY_ROWS_PER_CATEGORY_def filter_empty_conv)
  moreover have "full \<or> length (filter (\<lambda>f. fr_category f = c) findings) \<le> 20
      \<or> omitted_line (length (filter (\<lambda>f. fr_category f = c) findings) - 20) \<in> set (category_lines isof full findings c)"
    by (auto simp: category_lines_def Let_def SUMMARY_ROWS_PER_CATEGORY_def)
  moreover have "list_all (\<lambda>r. rn_status r = ModDone) runs
      \<or> incomplete_line (incomplete_modules runs) \<in> set (module_lines runs)"
    by (auto simp: module_lines_def incomplete_modules_def list_all_iff filter_empty_conv)
  ultimately show ?thesis
    by (auto simp: Let_def markdown_lines_def incomplete_modules_def)
qed

end
