(* ===== verification/Import_Check.thy ===== *)
theory Import_Check
  imports Py_Str "HOL-Library.Multiset" "HOL-Library.List_Lexorder" "HOL-Library.Char_ord"
begin

text \<open>
  \<open>backend/tools/check_network_imports.py\<close>: the static check that only the boundary files touch
  the network.  A syntax tree keeps of each node what the check looks at; the parser and the file
  system are the environment's.
\<close>

definition BOUNDARY_FILES :: "py_str list" where
  "BOUNDARY_FILES = [''app/guard/scanguard.py'', ''app/guard/resolver.py'', ''app/services/outbound.py'']"

definition FORBIDDEN_IMPORT_ROOTS :: "py_str list" where
  "FORBIDDEN_IMPORT_ROOTS = [''socket'', ''socketserver'', ''ssl'', ''httpx'', ''requests'', ''aiohttp'',
     ''urllib'', ''telnetlib'', ''ftplib'']"

definition FORBIDDEN_CALL_ATTRIBUTES :: "py_str list" where
  "FORBIDDEN_CALL_ATTRIBUTES = [''open_connection'', ''create_connection'', ''sock_connect'',
     ''create_datagram_endpoint'', ''start_server'', ''create_subprocess_exec'', ''create_subprocess_shell'']"

record violation =
  vi_path :: py_str
  vi_line :: int
  vi_message :: py_str

section \<open>Syntax trees\<close>

text \<open>\<open>ast.Import\<close> with the names it binds, \<open>ast.ImportFrom\<close> with its module, \<open>ast.Attribute\<close>.\<close>

datatype node_kind = ImportNode "py_str list" | ImportFromNode "py_str option" | AttributeNode py_str | OtherNode

datatype ast = Node (node_kind: node_kind) (node_line: int) (node_children: "ast list")

text \<open>\<open>ast.walk\<close>: breadth first, with a queue.\<close>

function walk :: "ast list \<Rightarrow> ast list" where
  "walk [] = []"
| "walk (n # todo) = n # walk (todo @ node_children n)"
  by pat_completeness auto

lemma size_children: "size_list size (node_children n) < size n"
  by (cases n) simp

termination walk
proof (relation "measure (size_list size)")
  fix n :: ast and todo
  have "size_list size (todo @ node_children n) = size_list size todo + size_list size (node_children n)"
    by (induction todo) auto
  then show "(todo @ node_children n, n # todo) \<in> measure (size_list size)"
    using size_children [of n] by simp
qed simp

section \<open>The check\<close>

definition import_root :: "py_str \<Rightarrow> py_str" where
  "import_root name = hd (split_on CHR ''.'' name)"

definition node_violations :: "py_str \<Rightarrow> ast \<Rightarrow> violation list" where
  "node_violations path n =
     (case node_kind n of
        ImportNode names \<Rightarrow>
          map (\<lambda>name. \<lparr>vi_path = path, vi_line = node_line n, vi_message = ''forbidden import of '' @ py_repr name\<rparr>)
            (filter (\<lambda>name. import_root name \<in> set FORBIDDEN_IMPORT_ROOTS) names)
      | ImportFromNode m \<Rightarrow>
          if import_root (case m of Some s \<Rightarrow> s | None \<Rightarrow> []) \<in> set FORBIDDEN_IMPORT_ROOTS
          then [\<lparr>vi_path = path, vi_line = node_line n, vi_message = ''forbidden import from ''
                  @ (case m of Some s \<Rightarrow> py_repr s | None \<Rightarrow> ''None'')\<rparr>]
          else []
      | AttributeNode attr \<Rightarrow>
          if attr \<in> set FORBIDDEN_CALL_ATTRIBUTES
          then [\<lparr>vi_path = path, vi_line = node_line n, vi_message = ''forbidden use of '' @ CHR 0x27 # ''.'' @ attr @ [CHR 0x27]\<rparr>]
          else []
      | OtherNode \<Rightarrow> [])"

definition check_file :: "py_str \<times> ast \<Rightarrow> violation list" where
  "check_file = (\<lambda>(path, tree). concat (map (node_violations path) (walk [tree])))"

definition check_tree :: "(py_str \<times> ast) list \<Rightarrow> py_str list \<Rightarrow> violation list" where
  "check_tree files approved =
     concat (map check_file (filter (\<lambda>(path, _). path \<notin> set approved) (sort_key fst files)))"

definition violation_str :: "violation \<Rightarrow> py_str" where
  "violation_str v = vi_path v @ '':'' @ str_of_int (vi_line v) @ '': '' @ vi_message v"

text \<open>The exit status of \<open>main\<close>.\<close>

definition check_main :: "(py_str \<times> ast) list \<Rightarrow> nat" where
  "check_main files = (if check_tree files BOUNDARY_FILES = [] then 0 else 1)"

section \<open>What an accepted tree has\<close>

fun nodes_of :: "ast \<Rightarrow> ast list" where
  "nodes_of (Node k l cs) = Node k l cs # concat (map nodes_of cs)"

lemma nodes_of_children: "nodes_of n = n # concat (map nodes_of (node_children n))"
  by (cases n) simp

lemma walk_nodes: "mset (walk todo) = mset (concat (map nodes_of todo))"
proof (induction todo rule: walk.induct)
  case (2 n todo)
  then show ?case using nodes_of_children [of n] by simp
qed simp

definition forbidden :: "ast \<Rightarrow> bool" where
  "forbidden n \<longleftrightarrow> (case node_kind n of
     ImportNode names \<Rightarrow> list_ex (\<lambda>name. import_root name \<in> set FORBIDDEN_IMPORT_ROOTS) names
   | ImportFromNode m \<Rightarrow> import_root (case m of Some s \<Rightarrow> s | None \<Rightarrow> []) \<in> set FORBIDDEN_IMPORT_ROOTS
   | AttributeNode attr \<Rightarrow> attr \<in> set FORBIDDEN_CALL_ATTRIBUTES
   | OtherNode \<Rightarrow> False)"

lemma node_violations_iff: "node_violations path n = [] \<longleftrightarrow> \<not> forbidden n"
  by (auto simp: node_violations_def forbidden_def filter_empty_conv list_ex_iff split: node_kind.splits)

text \<open>C31. The static check is exact.  It ends with status 0 precisely when no file outside the three
  boundary files has, at any depth of its syntax tree, an import of a forbidden package or a use of
  one of the connection helpers as an attribute.\<close>

theorem import_check_exact:
  "check_main files =
     (if list_ex (\<lambda>(path, tree). path \<notin> set BOUNDARY_FILES \<and> list_ex forbidden (nodes_of tree)) files then 1 else 0)"
proof -
  have "set (walk [tree]) = set (nodes_of tree)" for tree
    using arg_cong [OF walk_nodes [of "[tree]"], of set_mset] by simp
  then have "check_file (path, tree) = [] \<longleftrightarrow> \<not> list_ex forbidden (nodes_of tree)" for path tree
    by (auto simp: check_file_def node_violations_iff list_ex_iff simp del: walk.simps)
  then show ?thesis
    by (auto simp: check_main_def check_tree_def list_ex_iff)
qed

text \<open>
  What it does not see: a connection helper imported by name from \<open>asyncio\<close> is neither a forbidden
  import nor an attribute where it is called.
\<close>

lemma imported_helper_passes:
  "check_main [(''app/rogue.py'', Node OtherNode 0 [Node (ImportFromNode (Some ''asyncio'')) 1 [],
     Node OtherNode 2 []])] = 0"
  by (simp add: check_main_def check_tree_def check_file_def node_violations_def import_root_def
      FORBIDDEN_IMPORT_ROOTS_def)

end
