(* ===== verification/Schema.thy ===== *)
theory Schema
  imports Database "HOL-Library.Multiset"
begin

text \<open>
  \<open>backend/alembic/versions\<close> and the schema side of \<open>backend/app/db/tables.py\<close>: the migrations as
  operations on a schema, the tables the models declare, and the full-text index with its triggers.
  A column keeps what a migration states of it; the names of foreign keys and the defaults the ORM
  supplies in Python are left out.
\<close>

section \<open>Schemas\<close>

datatype column_type = TyString nat | TyText | TyJson | TyBoolean | TyInteger | TyDateTime

record column =
  co_name :: py_str
  co_type :: column_type
  co_nullable :: bool
  co_primary :: bool
  co_unique :: bool
  co_default :: "py_str option"

definition col :: "py_str \<Rightarrow> column_type \<Rightarrow> column" where
  "col name type = \<lparr>co_name = name, co_type = type, co_nullable = False, co_primary = False,
     co_unique = False, co_default = None\<rparr>"

record foreign_key =
  fk_columns :: "py_str list"
  fk_table :: py_str
  fk_references :: "py_str list"
  fk_on_delete :: py_str

record table =
  tb_name :: py_str
  tb_columns :: "column list"
  tb_foreign_keys :: "foreign_key list"
  tb_uniques :: "(py_str \<times> py_str list) list"
  tb_checks :: "(py_str \<times> py_str) list"

record index =
  ix_name :: py_str
  ix_table :: py_str
  ix_columns :: "py_str list"

text \<open>
  The full-text index is an external-content table; a trigger writes to it the columns of the new
  row, or the old ones with the command that removes them.
\<close>

datatype trigger_event = AfterInsert | AfterDelete | AfterUpdate
datatype index_write = WriteNew "py_str list" | WriteDelete "py_str list"

record trigger =
  tr_name :: py_str
  tr_event :: trigger_event
  tr_table :: py_str
  tr_writes :: "index_write list"

record schema =
  sm_tables :: "table list"
  sm_indexes :: "index list"
  sm_virtual :: "(py_str \<times> py_str list) list"
  sm_triggers :: "trigger list"

definition empty_schema :: schema where
  "empty_schema = \<lparr>sm_tables = [], sm_indexes = [], sm_virtual = [], sm_triggers = []\<rparr>"

section \<open>Migration operations\<close>

datatype migration_op = CreateTable table | CreateIndex py_str py_str "py_str list"
  | AddColumn py_str column | DropColumn py_str py_str | DropIndex py_str | DropTable py_str
  | CreateVirtualTable py_str "py_str list" | CreateTrigger trigger
  | DropTriggerIfExists py_str | DropVirtualIfExists py_str

definition table_of :: "schema \<Rightarrow> py_str \<Rightarrow> table option" where
  "table_of s n = find (\<lambda>t. tb_name t = n) (sm_tables s)"

definition has_column :: "table \<Rightarrow> py_str \<Rightarrow> bool" where
  "has_column t c \<longleftrightarrow> c \<in> co_name ` set (tb_columns t)"

definition alter_table :: "py_str \<Rightarrow> (table \<Rightarrow> table) \<Rightarrow> schema \<Rightarrow> schema" where
  "alter_table n f s = s\<lparr>sm_tables := map (\<lambda>t. if tb_name t = n then f t else t) (sm_tables s)\<rparr>"

text \<open>A table goes with its indexes and triggers; \<open>None\<close> is the error of the database.\<close>

fun apply_op :: "migration_op \<Rightarrow> schema \<Rightarrow> schema option" where
  "apply_op (CreateTable t) s =
     (if table_of s (tb_name t) = None then Some (s\<lparr>sm_tables := sm_tables s @ [t]\<rparr>) else None)"
| "apply_op (CreateIndex n tb cs) s =
     (case table_of s tb of
        None \<Rightarrow> None
      | Some t \<Rightarrow>
          if list_all (has_column t) cs \<and> n \<notin> ix_name ` set (sm_indexes s)
          then Some (s\<lparr>sm_indexes := sm_indexes s @ [\<lparr>ix_name = n, ix_table = tb, ix_columns = cs\<rparr>]\<rparr>) else None)"
| "apply_op (AddColumn tb c) s =
     (case table_of s tb of
        None \<Rightarrow> None
      | Some t \<Rightarrow> if has_column t (co_name c) then None
          else Some (alter_table tb (\<lambda>t. t\<lparr>tb_columns := tb_columns t @ [c]\<rparr>) s))"
| "apply_op (DropColumn tb c) s =
     (case table_of s tb of
        None \<Rightarrow> None
      | Some t \<Rightarrow> if has_column t c
          then Some (alter_table tb (\<lambda>t. t\<lparr>tb_columns := filter (\<lambda>x. co_name x \<noteq> c) (tb_columns t)\<rparr>) s) else None)"
| "apply_op (DropIndex n) s =
     (if n \<in> ix_name ` set (sm_indexes s) then Some (s\<lparr>sm_indexes := filter (\<lambda>i. ix_name i \<noteq> n) (sm_indexes s)\<rparr>)
      else None)"
| "apply_op (DropTable n) s =
     (if table_of s n = None then None
      else Some (s\<lparr>sm_tables := filter (\<lambda>t. tb_name t \<noteq> n) (sm_tables s),
             sm_indexes := filter (\<lambda>i. ix_table i \<noteq> n) (sm_indexes s),
             sm_triggers := filter (\<lambda>t. tr_table t \<noteq> n) (sm_triggers s)\<rparr>))"
| "apply_op (CreateVirtualTable n cs) s =
     (if n \<in> fst ` set (sm_virtual s) then None else Some (s\<lparr>sm_virtual := sm_virtual s @ [(n, cs)]\<rparr>))"
| "apply_op (CreateTrigger t) s =
     (if table_of s (tr_table t) = None \<or> tr_name t \<in> tr_name ` set (sm_triggers s) then None
      else Some (s\<lparr>sm_triggers := sm_triggers s @ [t]\<rparr>))"
| "apply_op (DropTriggerIfExists n) s = Some (s\<lparr>sm_triggers := filter (\<lambda>t. tr_name t \<noteq> n) (sm_triggers s)\<rparr>)"
| "apply_op (DropVirtualIfExists n) s = Some (s\<lparr>sm_virtual := filter (\<lambda>t. fst t \<noteq> n) (sm_virtual s)\<rparr>)"

fun run_ops :: "migration_op list \<Rightarrow> schema \<Rightarrow> schema option" where
  "run_ops [] s = Some s"
| "run_ops (x # xs) s = (case apply_op x s of None \<Rightarrow> None | Some s' \<Rightarrow> run_ops xs s')"

section \<open>The first migration\<close>

definition FTS_COLUMNS :: "py_str list" where
  "FTS_COLUMNS = [''title'', ''summary'', ''kind'', ''module'', ''host'', ''normalized_value'', ''raw_evidence'']"

definition insert_trigger :: trigger where
  "insert_trigger = \<lparr>tr_name = ''findings_fts_ai'', tr_event = AfterInsert, tr_table = ''findings'',
     tr_writes = [WriteNew FTS_COLUMNS]\<rparr>"

definition delete_trigger :: trigger where
  "delete_trigger = \<lparr>tr_name = ''findings_fts_ad'', tr_event = AfterDelete, tr_table = ''findings'',
     tr_writes = [WriteDelete FTS_COLUMNS]\<rparr>"

definition update_trigger :: trigger where
  "update_trigger = \<lparr>tr_name = ''findings_fts_au'', tr_event = AfterUpdate, tr_table = ''findings'',
     tr_writes = [WriteDelete FTS_COLUMNS, WriteNew FTS_COLUMNS]\<rparr>"

definition create_fts5 :: "migration_op list" where
  "create_fts5 = [CreateVirtualTable ''findings_fts'' FTS_COLUMNS, CreateTrigger insert_trigger,
     CreateTrigger delete_trigger, CreateTrigger update_trigger]"

definition decision_check :: py_str where
  "decision_check = ''decision in ('' @ [CHR 0x27] @ ''allowed'' @ [CHR 0x27] @ '', '' @ [CHR 0x27] @ ''denied'' @ [CHR 0x27] @ '')''"

definition scope_profiles_table :: table where
  "scope_profiles_table = \<lparr>tb_name = ''scope_profiles'', tb_columns =
     [(col ''id'' (TyString 36))\<lparr>co_primary := True\<rparr>,
      (col ''name'' (TyString 120))\<lparr>co_unique := True\<rparr>,
      (col ''entries_json'' TyJson),
      (col ''allow_cgnat'' TyBoolean)\<lparr>co_default := Some ''false''\<rparr>,
      (col ''allow_link_local'' TyBoolean)\<lparr>co_default := Some ''false''\<rparr>,
      (col ''created_at'' TyDateTime),
      (col ''updated_at'' TyDateTime)],
     tb_foreign_keys = [],
     tb_uniques = [], tb_checks = []\<rparr>"

definition scans_table :: table where
  "scans_table = \<lparr>tb_name = ''scans'', tb_columns =
     [(col ''id'' (TyString 36))\<lparr>co_primary := True\<rparr>,
      (col ''scope_id'' (TyString 36)),
      (col ''target_input'' (TyString 255)),
      (col ''target_normalized'' (TyString 255)),
      (col ''target_type'' (TyString 16)),
      (col ''resolved_addrs_json'' TyJson),
      (col ''intensity_profile'' (TyString 32)),
      (col ''selected_modules_json'' TyJson),
      (col ''status'' (TyString 32)),
      (col ''note'' TyText)\<lparr>co_nullable := True\<rparr>,
      (col ''attestation_text'' TyText),
      (col ''attestation_version'' (TyString 32)),
      (col ''attestation_at'' TyDateTime),
      (col ''cancel_requested'' TyBoolean)\<lparr>co_default := Some ''false''\<rparr>,
      (col ''claimed_by'' (TyString 64))\<lparr>co_nullable := True\<rparr>,
      (col ''created_at'' TyDateTime),
      (col ''started_at'' TyDateTime)\<lparr>co_nullable := True\<rparr>,
      (col ''finished_at'' TyDateTime)\<lparr>co_nullable := True\<rparr>],
     tb_foreign_keys =
       [\<lparr>fk_columns = [''scope_id''], fk_table = ''scope_profiles'', fk_references = [''id''],
         fk_on_delete = ''RESTRICT''\<rparr>],
     tb_uniques = [], tb_checks = []\<rparr>"

definition module_runs_table :: table where
  "module_runs_table = \<lparr>tb_name = ''module_runs'', tb_columns =
     [(col ''id'' (TyString 36))\<lparr>co_primary := True\<rparr>,
      (col ''scan_id'' (TyString 36)),
      (col ''module'' (TyString 64)),
      (col ''status'' (TyString 32)),
      (col ''attempt_count'' TyInteger)\<lparr>co_default := Some ''0''\<rparr>,
      (col ''cache_hit'' TyBoolean)\<lparr>co_default := Some ''false''\<rparr>,
      (col ''finding_count'' TyInteger)\<lparr>co_default := Some ''0''\<rparr>,
      (col ''safe_error_code'' (TyString 64))\<lparr>co_nullable := True\<rparr>,
      (col ''safe_error_message'' TyText)\<lparr>co_nullable := True\<rparr>,
      (col ''started_at'' TyDateTime)\<lparr>co_nullable := True\<rparr>,
      (col ''finished_at'' TyDateTime)\<lparr>co_nullable := True\<rparr>],
     tb_foreign_keys =
       [\<lparr>fk_columns = [''scan_id''], fk_table = ''scans'', fk_references = [''id''],
         fk_on_delete = ''CASCADE''\<rparr>],
     tb_uniques = [(''uq_module_run_scan_module'', [''scan_id'', ''module''])], tb_checks = []\<rparr>"

definition findings_table :: table where
  "findings_table = \<lparr>tb_name = ''findings'', tb_columns =
     [(col ''id'' (TyString 36))\<lparr>co_primary := True\<rparr>,
      (col ''scan_id'' (TyString 36)),
      (col ''host'' (TyString 64)),
      (col ''port'' TyInteger)\<lparr>co_nullable := True\<rparr>,
      (col ''category'' (TyString 32)),
      (col ''kind'' (TyString 64)),
      (col ''title'' TyText),
      (col ''summary'' TyText),
      (col ''normalized_value'' TyJson),
      (col ''raw_evidence'' TyText)\<lparr>co_nullable := True\<rparr>,
      (col ''module'' (TyString 64)),
      (col ''observed_at'' TyDateTime),
      (col ''confidence'' (TyString 16))\<lparr>co_nullable := True\<rparr>,
      (col ''sources_json'' TyJson),
      (col ''fingerprint'' (TyString 64))],
     tb_foreign_keys =
       [\<lparr>fk_columns = [''scan_id''], fk_table = ''scans'', fk_references = [''id''],
         fk_on_delete = ''CASCADE''\<rparr>],
     tb_uniques = [], tb_checks = []\<rparr>"

definition scan_ledger_table :: table where
  "scan_ledger_table = \<lparr>tb_name = ''scan_ledger'', tb_columns =
     [(col ''id'' (TyString 36))\<lparr>co_primary := True\<rparr>,
      (col ''scan_id'' (TyString 36))\<lparr>co_nullable := True\<rparr>,
      (col ''destination'' (TyString 64)),
      (col ''port'' TyInteger)\<lparr>co_nullable := True\<rparr>,
      (col ''module'' (TyString 64)),
      (col ''decision'' (TyString 16)),
      (col ''reason'' TyText),
      (col ''outcome'' (TyString 32)),
      (col ''created_at'' TyDateTime)],
     tb_foreign_keys =
       [\<lparr>fk_columns = [''scan_id''], fk_table = ''scans'', fk_references = [''id''],
         fk_on_delete = ''CASCADE''\<rparr>],
     tb_uniques = [], tb_checks = [(''ck_ledger_decision'', decision_check)]\<rparr>"

definition scan_events_table :: table where
  "scan_events_table = \<lparr>tb_name = ''scan_events'', tb_columns =
     [(col ''id'' TyInteger)\<lparr>co_primary := True\<rparr>,
      (col ''scan_id'' (TyString 36)),
      (col ''sequence'' TyInteger),
      (col ''module'' (TyString 64))\<lparr>co_nullable := True\<rparr>,
      (col ''event_type'' (TyString 32)),
      (col ''payload_json'' TyJson),
      (col ''created_at'' TyDateTime)],
     tb_foreign_keys =
       [\<lparr>fk_columns = [''scan_id''], fk_table = ''scans'', fk_references = [''id''],
         fk_on_delete = ''CASCADE''\<rparr>],
     tb_uniques = [(''uq_event_scan_sequence'', [''scan_id'', ''sequence''])], tb_checks = []\<rparr>"

definition cache_entries_table :: table where
  "cache_entries_table = \<lparr>tb_name = ''cache_entries'', tb_columns =
     [(col ''cache_key'' (TyString 255))\<lparr>co_primary := True\<rparr>,
      (col ''source'' (TyString 64)),
      (col ''schema_version'' TyInteger),
      (col ''status'' (TyString 32)),
      (col ''response_json'' TyJson)\<lparr>co_nullable := True\<rparr>,
      (col ''normalized_json'' TyJson)\<lparr>co_nullable := True\<rparr>,
      (col ''retrieved_at'' TyDateTime),
      (col ''expires_at'' TyDateTime)],
     tb_foreign_keys = [],
     tb_uniques = [], tb_checks = []\<rparr>"

definition worker_lock_table :: table where
  "worker_lock_table = \<lparr>tb_name = ''worker_lock'', tb_columns =
     [(col ''id'' TyInteger)\<lparr>co_primary := True\<rparr>,
      (col ''owner_id'' (TyString 36)),
      (col ''pid'' TyInteger),
      (col ''hostname'' (TyString 120)),
      (col ''acquired_at'' TyDateTime),
      (col ''heartbeat_at'' TyDateTime)],
     tb_foreign_keys = [],
     tb_uniques = [], tb_checks = []\<rparr>"

definition upgrade_0001 :: "migration_op list" where
  "upgrade_0001 =
     [CreateTable scope_profiles_table,
      CreateTable scans_table,
      CreateIndex ''ix_scans_status'' ''scans'' [''status''],
      CreateIndex ''ix_scans_created_at'' ''scans'' [''created_at''],
      CreateTable module_runs_table,
      CreateIndex ''ix_module_runs_scan_id'' ''module_runs'' [''scan_id''],
      CreateTable findings_table,
      CreateIndex ''ix_findings_scan_id'' ''findings'' [''scan_id''],
      CreateIndex ''ix_findings_scan_category'' ''findings'' [''scan_id'', ''category''],
      CreateIndex ''ix_findings_scan_module'' ''findings'' [''scan_id'', ''module''],
      CreateIndex ''ix_findings_scan_host_port'' ''findings'' [''scan_id'', ''host'', ''port''],
      CreateIndex ''ix_findings_fingerprint'' ''findings'' [''fingerprint''],
      CreateTable scan_ledger_table,
      CreateIndex ''ix_scan_ledger_scan_id'' ''scan_ledger'' [''scan_id''],
      CreateIndex ''ix_ledger_scan_decision'' ''scan_ledger'' [''scan_id'', ''decision''],
      CreateTable scan_events_table,
      CreateIndex ''ix_scan_events_scan_id'' ''scan_events'' [''scan_id''],
      CreateTable cache_entries_table,
      CreateIndex ''ix_cache_entries_expires_at'' ''cache_entries'' [''expires_at''],
      CreateTable worker_lock_table]
     @ create_fts5"

definition downgrade_0001 :: "migration_op list" where
  "downgrade_0001 =
     [DropTriggerIfExists ''findings_fts_au'', DropTriggerIfExists ''findings_fts_ad'',
      DropTriggerIfExists ''findings_fts_ai'', DropVirtualIfExists ''findings_fts'',
      DropTable ''worker_lock'', DropTable ''cache_entries'', DropTable ''scan_events'', DropTable ''scan_ledger'',
      DropTable ''findings'', DropTable ''module_runs'', DropTable ''scans'', DropTable ''scope_profiles'']"

section \<open>The later migrations, and the chain\<close>

definition upgrade_0002 :: "migration_op list" where
  "upgrade_0002 = [AddColumn ''scans'' ((col ''module_options_json'' TyJson)
     \<lparr>co_default := Some [CHR 0x27, CHR ''{'', CHR ''}'', CHR 0x27]\<rparr>)]"

definition downgrade_0002 :: "migration_op list" where
  "downgrade_0002 = [DropColumn ''scans'' ''module_options_json'']"

definition upgrade_0003 :: "migration_op list" where
  "upgrade_0003 =
     [AddColumn ''scan_ledger'' ((col ''scope_id'' (TyString 36))\<lparr>co_nullable := True\<rparr>),
      CreateIndex ''ix_scan_ledger_scope_id'' ''scan_ledger'' [''scope_id''],
      CreateIndex ''ix_ledger_decision'' ''scan_ledger'' [''decision'']]"

definition downgrade_0003 :: "migration_op list" where
  "downgrade_0003 =
     [DropIndex ''ix_ledger_decision'', DropIndex ''ix_scan_ledger_scope_id'', DropColumn ''scan_ledger'' ''scope_id'']"

record migration =
  mg_revision :: py_str
  mg_down_revision :: "py_str option"
  mg_upgrade :: "migration_op list"
  mg_downgrade :: "migration_op list"

definition migrations :: "migration list" where
  "migrations =
     [\<lparr>mg_revision = ''0001'', mg_down_revision = None, mg_upgrade = upgrade_0001, mg_downgrade = downgrade_0001\<rparr>,
      \<lparr>mg_revision = ''0002'', mg_down_revision = Some ''0001'', mg_upgrade = upgrade_0002,
        mg_downgrade = downgrade_0002\<rparr>,
      \<lparr>mg_revision = ''0003'', mg_down_revision = Some ''0002'', mg_upgrade = upgrade_0003,
        mg_downgrade = downgrade_0003\<rparr>]"

text \<open>\<open>upgrade head\<close> from a revision on: the migrations whose \<open>down_revision\<close> continue the chain.\<close>

fun chain_from :: "nat \<Rightarrow> py_str option \<Rightarrow> migration list" where
  "chain_from 0 revision = []"
| "chain_from (Suc n) revision =
     (case find (\<lambda>m. mg_down_revision m = revision) migrations of
        None \<Rightarrow> []
      | Some m \<Rightarrow> m # chain_from n (Some (mg_revision m)))"

definition upgrade_head :: "schema \<Rightarrow> schema option" where
  "upgrade_head s = run_ops (concat (map mg_upgrade (chain_from (length migrations) None))) s"

definition downgrade_base :: "schema \<Rightarrow> schema option" where
  "downgrade_base s = run_ops (concat (map mg_downgrade (rev (chain_from (length migrations) None)))) s"

section \<open>The tables of the models\<close>

definition scope_profile_model :: table where
  "scope_profile_model = \<lparr>tb_name = ''scope_profiles'', tb_columns =
     [(col ''id'' (TyString 36))\<lparr>co_primary := True\<rparr>,
      (col ''name'' (TyString 120))\<lparr>co_unique := True\<rparr>,
      (col ''entries_json'' TyJson),
      (col ''allow_cgnat'' TyBoolean),
      (col ''allow_link_local'' TyBoolean),
      (col ''created_at'' TyDateTime),
      (col ''updated_at'' TyDateTime)],
     tb_foreign_keys = [],
     tb_uniques = [], tb_checks = []\<rparr>"

definition scan_model :: table where
  "scan_model = \<lparr>tb_name = ''scans'', tb_columns =
     [(col ''id'' (TyString 36))\<lparr>co_primary := True\<rparr>,
      (col ''scope_id'' (TyString 36)),
      (col ''target_input'' (TyString 255)),
      (col ''target_normalized'' (TyString 255)),
      (col ''target_type'' (TyString 16)),
      (col ''resolved_addrs_json'' TyJson),
      (col ''intensity_profile'' (TyString 32)),
      (col ''selected_modules_json'' TyJson),
      (col ''module_options_json'' TyJson),
      (col ''status'' (TyString 32)),
      (col ''note'' TyText)\<lparr>co_nullable := True\<rparr>,
      (col ''attestation_text'' TyText),
      (col ''attestation_version'' (TyString 32)),
      (col ''attestation_at'' TyDateTime),
      (col ''cancel_requested'' TyBoolean),
      (col ''claimed_by'' (TyString 64))\<lparr>co_nullable := True\<rparr>,
      (col ''created_at'' TyDateTime),
      (col ''started_at'' TyDateTime)\<lparr>co_nullable := True\<rparr>,
      (col ''finished_at'' TyDateTime)\<lparr>co_nullable := True\<rparr>],
     tb_foreign_keys =
       [\<lparr>fk_columns = [''scope_id''], fk_table = ''scope_profiles'', fk_references = [''id''],
         fk_on_delete = ''RESTRICT''\<rparr>],
     tb_uniques = [], tb_checks = []\<rparr>"

definition module_run_model :: table where
  "module_run_model = \<lparr>tb_name = ''module_runs'', tb_columns =
     [(col ''id'' (TyString 36))\<lparr>co_primary := True\<rparr>,
      (col ''scan_id'' (TyString 36)),
      (col ''module'' (TyString 64)),
      (col ''status'' (TyString 32)),
      (col ''attempt_count'' TyInteger),
      (col ''cache_hit'' TyBoolean),
      (col ''finding_count'' TyInteger),
      (col ''safe_error_code'' (TyString 64))\<lparr>co_nullable := True\<rparr>,
      (col ''safe_error_message'' TyText)\<lparr>co_nullable := True\<rparr>,
      (col ''started_at'' TyDateTime)\<lparr>co_nullable := True\<rparr>,
      (col ''finished_at'' TyDateTime)\<lparr>co_nullable := True\<rparr>],
     tb_foreign_keys =
       [\<lparr>fk_columns = [''scan_id''], fk_table = ''scans'', fk_references = [''id''],
         fk_on_delete = ''CASCADE''\<rparr>],
     tb_uniques = [(''uq_module_run_scan_module'', [''scan_id'', ''module''])], tb_checks = []\<rparr>"

definition finding_model :: table where
  "finding_model = \<lparr>tb_name = ''findings'', tb_columns =
     [(col ''id'' (TyString 36))\<lparr>co_primary := True\<rparr>,
      (col ''scan_id'' (TyString 36)),
      (col ''host'' (TyString 64)),
      (col ''port'' TyInteger)\<lparr>co_nullable := True\<rparr>,
      (col ''category'' (TyString 32)),
      (col ''kind'' (TyString 64)),
      (col ''title'' TyText),
      (col ''summary'' TyText),
      (col ''normalized_value'' TyJson),
      (col ''raw_evidence'' TyText)\<lparr>co_nullable := True\<rparr>,
      (col ''module'' (TyString 64)),
      (col ''observed_at'' TyDateTime),
      (col ''confidence'' (TyString 16))\<lparr>co_nullable := True\<rparr>,
      (col ''sources_json'' TyJson),
      (col ''fingerprint'' (TyString 64))],
     tb_foreign_keys =
       [\<lparr>fk_columns = [''scan_id''], fk_table = ''scans'', fk_references = [''id''],
         fk_on_delete = ''CASCADE''\<rparr>],
     tb_uniques = [], tb_checks = []\<rparr>"

definition scan_ledger_model :: table where
  "scan_ledger_model = \<lparr>tb_name = ''scan_ledger'', tb_columns =
     [(col ''id'' (TyString 36))\<lparr>co_primary := True\<rparr>,
      (col ''scan_id'' (TyString 36))\<lparr>co_nullable := True\<rparr>,
      (col ''scope_id'' (TyString 36))\<lparr>co_nullable := True\<rparr>,
      (col ''destination'' (TyString 64)),
      (col ''port'' TyInteger)\<lparr>co_nullable := True\<rparr>,
      (col ''module'' (TyString 64)),
      (col ''decision'' (TyString 16)),
      (col ''reason'' TyText),
      (col ''outcome'' (TyString 32)),
      (col ''created_at'' TyDateTime)],
     tb_foreign_keys =
       [\<lparr>fk_columns = [''scan_id''], fk_table = ''scans'', fk_references = [''id''],
         fk_on_delete = ''CASCADE''\<rparr>],
     tb_uniques = [], tb_checks = [(''ck_ledger_decision'', decision_check)]\<rparr>"

definition scan_event_model :: table where
  "scan_event_model = \<lparr>tb_name = ''scan_events'', tb_columns =
     [(col ''id'' TyInteger)\<lparr>co_primary := True\<rparr>,
      (col ''scan_id'' (TyString 36)),
      (col ''sequence'' TyInteger),
      (col ''module'' (TyString 64))\<lparr>co_nullable := True\<rparr>,
      (col ''event_type'' (TyString 32)),
      (col ''payload_json'' TyJson),
      (col ''created_at'' TyDateTime)],
     tb_foreign_keys =
       [\<lparr>fk_columns = [''scan_id''], fk_table = ''scans'', fk_references = [''id''],
         fk_on_delete = ''CASCADE''\<rparr>],
     tb_uniques = [(''uq_event_scan_sequence'', [''scan_id'', ''sequence''])], tb_checks = []\<rparr>"

definition cache_entry_model :: table where
  "cache_entry_model = \<lparr>tb_name = ''cache_entries'', tb_columns =
     [(col ''cache_key'' (TyString 255))\<lparr>co_primary := True\<rparr>,
      (col ''source'' (TyString 64)),
      (col ''schema_version'' TyInteger),
      (col ''status'' (TyString 32)),
      (col ''response_json'' TyJson)\<lparr>co_nullable := True\<rparr>,
      (col ''normalized_json'' TyJson)\<lparr>co_nullable := True\<rparr>,
      (col ''retrieved_at'' TyDateTime),
      (col ''expires_at'' TyDateTime)],
     tb_foreign_keys = [],
     tb_uniques = [], tb_checks = []\<rparr>"

definition worker_lock_model :: table where
  "worker_lock_model = \<lparr>tb_name = ''worker_lock'', tb_columns =
     [(col ''id'' TyInteger)\<lparr>co_primary := True\<rparr>,
      (col ''owner_id'' (TyString 36)),
      (col ''pid'' TyInteger),
      (col ''hostname'' (TyString 120)),
      (col ''acquired_at'' TyDateTime),
      (col ''heartbeat_at'' TyDateTime)],
     tb_foreign_keys = [],
     tb_uniques = [], tb_checks = []\<rparr>"

definition model_tables :: "table list" where
  "model_tables = [scope_profile_model, scan_model, module_run_model, finding_model,
     scan_ledger_model, scan_event_model, cache_entry_model, worker_lock_model]"

definition model_indexes :: "index list" where
  "model_indexes =
     [\<lparr>ix_name = ''ix_scans_status'', ix_table = ''scans'', ix_columns = [''status'']\<rparr>,
      \<lparr>ix_name = ''ix_scans_created_at'', ix_table = ''scans'', ix_columns = [''created_at'']\<rparr>,
      \<lparr>ix_name = ''ix_module_runs_scan_id'', ix_table = ''module_runs'', ix_columns = [''scan_id'']\<rparr>,
      \<lparr>ix_name = ''ix_findings_scan_category'', ix_table = ''findings'', ix_columns = [''scan_id'', ''category'']\<rparr>,
      \<lparr>ix_name = ''ix_findings_scan_module'', ix_table = ''findings'', ix_columns = [''scan_id'', ''module'']\<rparr>,
      \<lparr>ix_name = ''ix_findings_scan_host_port'', ix_table = ''findings'', ix_columns = [''scan_id'', ''host'', ''port'']\<rparr>,
      \<lparr>ix_name = ''ix_findings_fingerprint'', ix_table = ''findings'', ix_columns = [''fingerprint'']\<rparr>,
      \<lparr>ix_name = ''ix_findings_scan_id'', ix_table = ''findings'', ix_columns = [''scan_id'']\<rparr>,
      \<lparr>ix_name = ''ix_ledger_scan_decision'', ix_table = ''scan_ledger'', ix_columns = [''scan_id'', ''decision'']\<rparr>,
      \<lparr>ix_name = ''ix_scan_ledger_scan_id'', ix_table = ''scan_ledger'', ix_columns = [''scan_id'']\<rparr>,
      \<lparr>ix_name = ''ix_scan_ledger_scope_id'', ix_table = ''scan_ledger'', ix_columns = [''scope_id'']\<rparr>,
      \<lparr>ix_name = ''ix_scan_events_scan_id'', ix_table = ''scan_events'', ix_columns = [''scan_id'']\<rparr>,
      \<lparr>ix_name = ''ix_cache_entries_expires_at'', ix_table = ''cache_entries'', ix_columns = [''expires_at'']\<rparr>]"

section \<open>The migrations build what the models declare\<close>

text \<open>Two tables agree up to the order of their columns and the defaults the server supplies.\<close>

definition column_shape :: "column \<Rightarrow> py_str \<times> column_type \<times> bool \<times> bool \<times> bool" where
  "column_shape c = (co_name c, co_type c, co_nullable c, co_primary c, co_unique c)"

definition same_table :: "table \<Rightarrow> table \<Rightarrow> bool" where
  "same_table a b \<longleftrightarrow> tb_name a = tb_name b \<and> length (tb_columns a) = length (tb_columns b)
     \<and> set (map column_shape (tb_columns a)) = set (map column_shape (tb_columns b))
     \<and> tb_foreign_keys a = tb_foreign_keys b \<and> tb_uniques a = tb_uniques b \<and> tb_checks a = tb_checks b"

definition decision_index :: index where
  "decision_index = \<lparr>ix_name = ''ix_ledger_decision'', ix_table = ''scan_ledger'', ix_columns = [''decision'']\<rparr>"


text \<open>Every migration can be undone.  From the head, each downgrade restores exactly the schema the
  migration before it left, down to the empty database, and undoing the whole chain at once does the same.\<close>

theorem migrations_reversible:
  "case (run_ops upgrade_0001 empty_schema, run_ops (upgrade_0001 @ upgrade_0002) empty_schema,
         upgrade_head empty_schema) of
     (Some s1, Some s2, Some s3) \<Rightarrow> run_ops downgrade_0003 s3 = Some s2 \<and> run_ops downgrade_0002 s2 = Some s1
       \<and> run_ops downgrade_0001 s1 = Some empty_schema \<and> downgrade_base s3 = Some empty_schema
   | _ \<Rightarrow> False"
  by code_simp

section \<open>The full-text index follows the findings\<close>

text \<open>
  The index as the entries it holds, each with the row number and the indexed texts it was written
  with: an external-content index finds and removes an entry by exactly these.  \<open>dump\<close> is the text of
  a JSON column.
\<close>

definition column_value :: "(json_object \<Rightarrow> py_str) \<Rightarrow> finding_row \<Rightarrow> py_str \<Rightarrow> py_str option" where
  "column_value dump f c =
     (if c = ''title'' then Some (fr_title f) else if c = ''summary'' then Some (fr_summary f)
      else if c = ''kind'' then Some (fr_kind f) else if c = ''module'' then Some (fr_module f)
      else if c = ''host'' then Some (fr_host f) else if c = ''normalized_value'' then Some (dump (fr_normalized_value f))
      else if c = ''raw_evidence'' then fr_raw_evidence f else None)"

type_synonym index_entry = "nat \<times> py_str option list"

definition entry_of :: "(json_object \<Rightarrow> py_str) \<Rightarrow> py_str list \<Rightarrow> nat \<times> finding_row \<Rightarrow> index_entry" where
  "entry_of dump cs = (\<lambda>(rowid, f). (rowid, map (column_value dump f) cs))"

fun write_index :: "(json_object \<Rightarrow> py_str) \<Rightarrow> (nat \<times> finding_row) option \<Rightarrow> (nat \<times> finding_row) option \<Rightarrow>
    index_write \<Rightarrow> index_entry multiset \<Rightarrow> index_entry multiset" where
  "write_index dump old new_row (WriteNew cs) idx =
     (case new_row of None \<Rightarrow> idx | Some r \<Rightarrow> add_mset (entry_of dump cs r) idx)"
| "write_index dump old new_row (WriteDelete cs) idx =
     (case old of None \<Rightarrow> idx | Some r \<Rightarrow> idx - {#entry_of dump cs r#})"

definition fire :: "(json_object \<Rightarrow> py_str) \<Rightarrow> trigger list \<Rightarrow> trigger_event \<Rightarrow> (nat \<times> finding_row) option \<Rightarrow>
    (nat \<times> finding_row) option \<Rightarrow> index_entry multiset \<Rightarrow> index_entry multiset" where
  "fire dump triggers ev old new_row idx =
     fold (\<lambda>t. fold (write_index dump old new_row) (tr_writes t)) (filter (\<lambda>t. tr_event t = ev) triggers) idx"

text \<open>What happens to a row of the findings; a row number is used once.\<close>

datatype row_change = InsertRow nat finding_row | DeleteRow nat | UpdateRow nat finding_row

fun change_row :: "(json_object \<Rightarrow> py_str) \<Rightarrow> trigger list \<Rightarrow> row_change \<Rightarrow>
    (nat \<times> finding_row) list \<times> index_entry multiset \<Rightarrow> (nat \<times> finding_row) list \<times> index_entry multiset" where
  "change_row dump ts (InsertRow i f) (rows, idx) =
     (if i \<in> fst ` set rows then (rows, idx)
      else (rows @ [(i, f)], fire dump ts AfterInsert None (Some (i, f)) idx))"
| "change_row dump ts (DeleteRow i) (rows, idx) =
     (case map_of rows i of
        None \<Rightarrow> (rows, idx)
      | Some f \<Rightarrow> (filter (\<lambda>r. fst r \<noteq> i) rows, fire dump ts AfterDelete (Some (i, f)) None idx))"
| "change_row dump ts (UpdateRow i f) (rows, idx) =
     (case map_of rows i of
        None \<Rightarrow> (rows, idx)
      | Some old \<Rightarrow> (map (\<lambda>r. if fst r = i then (i, f) else r) rows,
          fire dump ts AfterUpdate (Some (i, old)) (Some (i, f)) idx))"

lemma head_triggers:
  "sm_triggers (the (upgrade_head empty_schema)) = [insert_trigger, delete_trigger, update_trigger]"
  by code_simp

lemma other_rows:
  assumes "i \<notin> fst ` set rows"
  shows "filter (\<lambda>r. fst r \<noteq> i) rows = rows" and "map (\<lambda>r. if fst r = i then x else r) rows = rows"
  using assms by (force simp: filter_id_conv, induction rows) auto

lemma mset_one_row:
  assumes "distinct (map fst rows)" and "map_of rows i = Some f"
  shows "mset rows = add_mset (i, f) (mset (filter (\<lambda>r. fst r \<noteq> i) rows))"
  using assms
proof (induction rows)
  case (Cons r rows)
  show ?case
  proof (cases "fst r = i")
    case True
    then have "i \<notin> fst ` set rows" using Cons.prems by auto
    from other_rows(1) [OF this] show ?thesis using True Cons.prems by (cases r) (simp del: mset_filter)
  qed (use Cons in auto)
qed simp

lemma map_one_row:
  assumes "distinct (map fst rows)" and "map_of rows i = Some f"
  shows "mset (map (\<lambda>r. if fst r = i then x else r) rows) = add_mset x (mset (filter (\<lambda>r. fst r \<noteq> i) rows))"
  using assms
proof (induction rows)
  case (Cons r rows)
  show ?case
  proof (cases "fst r = i")
    case True
    then have "i \<notin> fst ` set rows" using Cons.prems by auto
    from other_rows(1) [OF this] other_rows(2) [OF this, of x] show ?thesis using True by simp
  qed (use Cons in auto)
qed simp

lemma fire_head:
  shows "fire dump [insert_trigger, delete_trigger, update_trigger] AfterInsert None (Some r) idx
      = add_mset (entry_of dump FTS_COLUMNS r) idx"
    and "fire dump [insert_trigger, delete_trigger, update_trigger] AfterDelete (Some q) None idx
      = idx - {#entry_of dump FTS_COLUMNS q#}"
    and "fire dump [insert_trigger, delete_trigger, update_trigger] AfterUpdate (Some q) (Some r) idx
      = add_mset (entry_of dump FTS_COLUMNS r) (idx - {#entry_of dump FTS_COLUMNS q#})"
  by (simp_all add: fire_def insert_trigger_def delete_trigger_def update_trigger_def)

text \<open>The rows and the index agree.\<close>

definition indexed :: "(json_object \<Rightarrow> py_str) \<Rightarrow> (nat \<times> finding_row) list \<times> index_entry multiset \<Rightarrow> bool" where
  "indexed dump s \<longleftrightarrow> snd s = image_mset (entry_of dump FTS_COLUMNS) (mset (fst s)) \<and> distinct (map fst (fst s))"

lemma change_row_indexed:
  assumes "indexed dump s"
  shows "indexed dump (change_row dump [insert_trigger, delete_trigger, update_trigger] x s)"
proof -
  obtain rows idx where s: "s = (rows, idx)" by (cases s)
  have idx: "idx = image_mset (entry_of dump FTS_COLUMNS) (mset rows)" and d: "distinct (map fst rows)"
    using assms by (simp_all add: s indexed_def)
  show ?thesis
  proof (cases x)
    case (InsertRow i f)
    then show ?thesis using d by (simp add: s indexed_def fire_head idx)
  next
    case (DeleteRow i)
    show ?thesis
    proof (cases "map_of rows i")
      case (Some f)
      let ?rows = "filter (\<lambda>r. fst r \<noteq> i) rows"
      let ?idx = "idx - {#entry_of dump FTS_COLUMNS (i, f)#}"
      have "?idx = image_mset (entry_of dump FTS_COLUMNS) (mset ?rows)"
        unfolding idx mset_one_row [OF d Some] by simp
      moreover have "distinct (map fst ?rows)" by (rule distinct_map_filter [OF d])
      moreover have "change_row dump [insert_trigger, delete_trigger, update_trigger] x s = (?rows, ?idx)"
        using Some by (simp add: DeleteRow s fire_head)
      ultimately show ?thesis by (simp only: indexed_def fst_conv snd_conv simp_thms)
    qed (use DeleteRow assms s in simp)
  next
    case (UpdateRow i f)
    have keys: "map fst (map (\<lambda>r. if fst r = i then (i, f) else r) rows) = map fst rows" by (induction rows) auto
    show ?thesis
    proof (cases "map_of rows i")
      case (Some old)
      let ?rows = "map (\<lambda>r. if fst r = i then (i, f) else r) rows"
      let ?idx = "add_mset (entry_of dump FTS_COLUMNS (i, f)) (idx - {#entry_of dump FTS_COLUMNS (i, old)#})"
      have "?idx = image_mset (entry_of dump FTS_COLUMNS) (mset ?rows)"
        unfolding idx mset_one_row [OF d Some] map_one_row [OF d Some] by simp
      moreover have "distinct (map fst ?rows)" unfolding keys by (rule d)
      moreover have "change_row dump [insert_trigger, delete_trigger, update_trigger] x s = (?rows, ?idx)"
        using Some by (simp add: UpdateRow s fire_head)
      ultimately show ?thesis by (simp only: indexed_def fst_conv snd_conv simp_thms)
    qed (use UpdateRow assms s in simp)
  qed
qed

lemma changes_indexed:
  "indexed dump s \<Longrightarrow> indexed dump (fold (change_row dump [insert_trigger, delete_trigger, update_trigger]) xs s)"
  by (induction xs arbitrary: s) (simp_all add: change_row_indexed)

text \<open>C29. The search index follows the findings.  With the triggers of the migrated schema, after any
  sequence of inserts, updates and deletes of findings the index holds exactly one entry for each
  stored finding, with the texts it has now.\<close>

theorem search_index_in_step:
  "case fold (change_row dump (sm_triggers (the (upgrade_head empty_schema)))) changes ([], {#}) of
     (rows, idx) \<Rightarrow> idx = image_mset (entry_of dump FTS_COLUMNS) (mset rows) \<and> distinct (map fst rows)"
  using changes_indexed [of dump "([], {#})" changes]
  by (simp add: head_triggers indexed_def split_beta)

end
